(* ===== verification/Prelude.thy ===== *)
theory Prelude
  imports Main "HOL-Library.Word" "HOL-Library.Monad_Syntax" "HOL-Library.Multiset"
begin

text \<open>
  The prelude of the WATTx development: the machine integers of the C++ code with their
  wrap-around, the ordered associative containers (\<^verbatim>\<open>std::map\<close>, \<^verbatim>\<open>std::set\<close>) the
  components keep their state in, the non-recursive mutex every database is guarded by, the
  fixed-size identifiers, and the three interfaces the components are verified against: an
  ordered store, a mutex, and a secondary index over a store.
\<close>

named_theorems cint "evaluation of the C++ integer operations inside their range"
named_theorems store "lookups after updates of an ordered store"

section \<open>Machine integers\<close>

text \<open>
  \<^verbatim>\<open>int\<close> is 32 bits wide and \<^verbatim>\<open>int64_t\<close> (\<^verbatim>\<open>CAmount\<close>) 64 bits. A value is an
  \<^typ>\<open>int\<close>; an arithmetic result is brought back to the width by \<open>s32\<close> or \<open>s64\<close>, the
  two's complement reading of its low bits. Signed overflow is undefined in C++: the release
  build has neither \<^verbatim>\<open>-ftrapv\<close> nor a check, and the wrapped value is what the
  generated multiply and add instructions leave in the register. Theorems that need an exact
  result carry the range as a hypothesis.
\<close>

type_synonym CAmount = int

definition wrap :: "nat \<Rightarrow> int \<Rightarrow> int" where
  "wrap w x = (x + 2 ^ (w - 1)) mod 2 ^ w - 2 ^ (w - 1)"

definition fits :: "nat \<Rightarrow> int \<Rightarrow> bool" where
  "fits w x \<longleftrightarrow> - (2 ^ (w - 1)) \<le> x \<and> x < 2 ^ (w - 1)"

abbreviation s32 :: "int \<Rightarrow> int" where
  "s32 \<equiv> wrap 32"

abbreviation s64 :: "int \<Rightarrow> int" where
  "s64 \<equiv> wrap 64"

text \<open>Integer division truncates towards zero; the caller excludes a zero divisor.\<close>

definition cdiv :: "int \<Rightarrow> int \<Rightarrow> int" where
  "cdiv a b = (if (a < 0) = (b < 0) then \<bar>a\<bar> div \<bar>b\<bar> else - (\<bar>a\<bar> div \<bar>b\<bar>))"

definition cmod :: "int \<Rightarrow> int \<Rightarrow> int" where
  "cmod a b = a - b * cdiv a b"

lemma wrap_id: "fits w x \<Longrightarrow> 0 < w \<Longrightarrow> wrap w x = x"
proof -
  assume f: "fits w x" and w: "0 < w"
  from w obtain v where v: "w = Suc v" by (cases w) auto
  from f v have "0 \<le> x + 2 ^ v" and "x + 2 ^ v < 2 ^ Suc v" by (auto simp: fits_def)
  then have "(x + 2 ^ v) mod 2 ^ Suc v = x + 2 ^ v" by (intro mod_pos_pos_trivial)
  then show ?thesis by (simp add: wrap_def v)
qed

lemma fits_wrap: "0 < w \<Longrightarrow> fits w (wrap w x)"
proof -
  assume "0 < w"
  then obtain v where v: "w = Suc v" by (cases w) auto
  have p: "(0::int) < 2 ^ Suc v" by simp
  have "0 \<le> (x + 2 ^ v) mod 2 ^ Suc v" and "(x + 2 ^ v) mod 2 ^ Suc v < 2 ^ Suc v"
    using pos_mod_sign [OF p] pos_mod_bound [OF p] by blast+
  then show ?thesis by (simp add: wrap_def fits_def v)
qed

lemma s32_id [cint]: "- 2147483648 \<le> x \<Longrightarrow> x < 2147483648 \<Longrightarrow> s32 x = x"
  by (rule wrap_id) (simp_all add: fits_def)

lemma s64_id [cint]:
  "- 9223372036854775808 \<le> x \<Longrightarrow> x < 9223372036854775808 \<Longrightarrow> s64 x = x"
  by (rule wrap_id) (simp_all add: fits_def)

lemma fits64_iff: "fits 64 x \<longleftrightarrow> - 9223372036854775808 \<le> x \<and> x < 9223372036854775808"
  by (simp add: fits_def)

lemma fits32_iff: "fits 32 x \<longleftrightarrow> - 2147483648 \<le> x \<and> x < 2147483648"
  by (simp add: fits_def)

lemma s64_between: "lo \<le> x \<Longrightarrow> x \<le> hi \<Longrightarrow> - (2 ^ 63) \<le> lo \<Longrightarrow> hi < 2 ^ 63 \<Longrightarrow> s64 x = x"
  by (rule s64_id) auto

lemma cdiv_nonneg [cint]: "0 \<le> a \<Longrightarrow> 0 < b \<Longrightarrow> cdiv a b = a div b"
  by (simp add: cdiv_def)

lemma cdiv_zero [simp]: "cdiv 0 b = 0"
  by (simp add: cdiv_def)

lemma cmod_nonneg [cint]: "0 \<le> a \<Longrightarrow> 0 < b \<Longrightarrow> cmod a b = a mod b"
  by (simp add: cmod_def cdiv_nonneg minus_mult_div_eq_mod)

lemma div_mult_le_mono:
  fixes a b c :: int
  assumes "0 \<le> a" and "0 < c" and "b \<le> c" and "0 \<le> b"
  shows "a * b div c \<le> a" and "0 \<le> a * b div c"
proof -
  from assms have "a * b \<le> a * c" by (intro mult_left_mono) auto
  then have "a * b div c \<le> a * c div c" using assms by (intro zdiv_mono1) auto
  then show "a * b div c \<le> a" using assms by simp
  show "0 \<le> a * b div c" using assms by (simp add: pos_imp_zdiv_nonneg_iff)
qed

section \<open>Identifiers\<close>

text \<open>
  \<^verbatim>\<open>base_blob<BITS>\<close> of uint256.h is an array of bytes compared with \<^verbatim>\<open>memcmp\<close>. It is
  modelled by the word its bytes spell in memory order, most significant first, so that the
  order of the map keys is the word order and the null blob is 0.
\<close>

type_synonym byte = "8 word"
type_synonym uint160 = "160 word"
type_synonym uint256 = "256 word"
type_synonym CKeyID = uint160
type_synonym CPubKey = "byte list"

text \<open>\<^verbatim>\<open>COutPoint\<close> of primitives/transaction.h with its lexicographic order.\<close>

datatype COutPoint = COutPoint (op_hash: uint256) (op_n: "32 word")

definition NULL_INDEX :: "32 word" where
  "NULL_INDEX = 0xFFFFFFFF"

definition COutPoint_Null :: COutPoint where
  "COutPoint_Null = COutPoint 0 NULL_INDEX"

definition COutPoint_IsNull :: "COutPoint \<Rightarrow> bool" where
  "COutPoint_IsNull p \<longleftrightarrow> op_hash p = 0 \<and> op_n p = NULL_INDEX"

lemma COutPoint_IsNull_Null [simp]: "COutPoint_IsNull COutPoint_Null"
  by (simp add: COutPoint_IsNull_def COutPoint_Null_def)

text \<open>\<^verbatim>\<open>operator<\<close>: the hashes first, then the output numbers. It is the strict order of the type.\<close>

definition COutPoint_less :: "COutPoint \<Rightarrow> COutPoint \<Rightarrow> bool" where
  "COutPoint_less a b \<longleftrightarrow> op_hash a < op_hash b \<or> op_hash a = op_hash b \<and> op_n a < op_n b"

instantiation COutPoint :: linorder
begin

definition less_eq_COutPoint :: "COutPoint \<Rightarrow> COutPoint \<Rightarrow> bool" where
  "less_eq_COutPoint a b \<longleftrightarrow> COutPoint_less a b \<or> a = b"

definition less_COutPoint :: "COutPoint \<Rightarrow> COutPoint \<Rightarrow> bool" where
  "less_COutPoint a b \<longleftrightarrow> COutPoint_less a b"

instance
  by standard (auto simp: less_eq_COutPoint_def less_COutPoint_def COutPoint_less_def intro: COutPoint.expand)

end

section \<open>Ordered stores\<close>

text \<open>
  A \<^verbatim>\<open>std::map\<close> is the list of its key/value pairs in strictly ascending key order, the
  order its iterators visit. \<^const>\<open>map_of\<close> is \<^verbatim>\<open>find\<close>; \<open>om_put\<close> is
  \<^verbatim>\<open>m[k] = v\<close>; \<open>om_erase\<close> is \<^verbatim>\<open>erase(k)\<close>; \<open>om_vals\<close> is a
  \<^verbatim>\<open>for (auto& [k, v] : m)\<close> loop that rewrites every value.
\<close>

type_synonym ('k, 'v) omap = "('k \<times> 'v) list"

fun om_put :: "'k::linorder \<Rightarrow> 'v \<Rightarrow> ('k, 'v) omap \<Rightarrow> ('k, 'v) omap" where
  "om_put k v [] = [(k, v)]"
| "om_put k v (e # m) =
     (if k < fst e then (k, v) # e # m
      else if fst e < k then e # om_put k v m
      else (k, v) # m)"

definition om_erase :: "'k \<Rightarrow> ('k, 'v) omap \<Rightarrow> ('k, 'v) omap" where
  "om_erase k m = filter (\<lambda>e. fst e \<noteq> k) m"

definition om_vals :: "('v \<Rightarrow> 'w) \<Rightarrow> ('k, 'v) omap \<Rightarrow> ('k, 'w) omap" where
  "om_vals f m = map (\<lambda>e. (fst e, f (snd e))) m"

definition om_wf :: "('k::linorder, 'v) omap \<Rightarrow> bool" where
  "om_wf m \<longleftrightarrow> sorted_wrt (<) (map fst m)"

lemma map_of_om_put [store]: "map_of (om_put k v m) = (map_of m)(k \<mapsto> v)"
  by (induction m) (auto simp: fun_eq_iff)

lemma map_of_om_erase [store]: "map_of (om_erase k m) = (map_of m)(k := None)"
  by (induction m) (auto simp: om_erase_def fun_eq_iff)

lemma map_of_om_vals [store]: "map_of (om_vals f m) k = map_option f (map_of m k)"
  by (induction m) (auto simp: om_vals_def)

lemma keys_om_put: "fst ` set (om_put k v m) = insert k (fst ` set m)"
  by (induction m) (auto simp: less_le_not_le)

lemma om_wf_Nil [simp]: "om_wf []"
  by (simp add: om_wf_def)

lemma om_wf_put [store]: "om_wf m \<Longrightarrow> om_wf (om_put k v m)"
proof (induction m)
  case Nil
  then show ?case by (simp add: om_wf_def)
next
  case (Cons e m)
  have sub: "fst ` set (om_put k v m) = insert k (fst ` set m)" by (rule keys_om_put)
  from Cons.prems have "om_wf m" and "\<forall>x \<in> fst ` set m. fst e < x" by (auto simp: om_wf_def)
  with Cons.IH sub show ?case
    by (auto simp: om_wf_def dest: less_trans)
qed

lemma om_wf_erase [store]: "om_wf m \<Longrightarrow> om_wf (om_erase k m)"
  by (induction m) (auto simp: om_wf_def om_erase_def)

lemma om_wf_vals [store]: "om_wf (om_vals f m) = om_wf m"
  by (simp add: om_wf_def om_vals_def comp_def)

lemma om_wf_distinct: "om_wf m \<Longrightarrow> distinct (map fst m)"
  by (induction m) (auto simp: om_wf_def)

lemma om_in_set: "om_wf m \<Longrightarrow> (k, v) \<in> set m \<longleftrightarrow> map_of m k = Some v"
  using om_wf_distinct by (metis map_of_is_SomeI map_of_SomeD)

lemma om_keys_lookup: "fst ` set m = dom (map_of m)"
  by (simp add: dom_map_of_conv_image_fst)

text \<open>An ordered map is determined by its lookups.\<close>

lemma om_ext:
  assumes "om_wf m" and "om_wf n" and "map_of m = map_of n"
  shows "m = n"
proof -
  have wf: "distinct xs \<and> sorted (map fst xs) \<and> distinct (map fst xs)" if "om_wf xs" for xs :: "('a \<times> 'b) list"
    using that om_wf_distinct [OF that] by (auto simp: om_wf_def strict_sorted_iff distinct_map)
  have "set m = set n"
    using om_in_set [OF assms(1)] om_in_set [OF assms(2)] assms(3) by auto
  then show ?thesis
    using wf [OF assms(1)] wf [OF assms(2)]
    by (intro map_sorted_distinct_set_unique [where f = fst]) (auto simp: distinct_map)
qed

text \<open>The contract a client of a keyed store relies on.\<close>

locale ordered_store =
  fixes find :: "'m \<Rightarrow> 'k \<Rightarrow> 'v option"
    and put :: "'k \<Rightarrow> 'v \<Rightarrow> 'm \<Rightarrow> 'm"
    and erase :: "'k \<Rightarrow> 'm \<Rightarrow> 'm"
    and wf :: "'m \<Rightarrow> bool"
  assumes find_put: "find (put k v m) = (find m)(k \<mapsto> v)"
    and find_erase: "find (erase k m) = (find m)(k := None)"
    and wf_put: "wf m \<Longrightarrow> wf (put k v m)"
    and wf_erase: "wf m \<Longrightarrow> wf (erase k m)"
begin

lemma find_move:
  "find (put k v (erase j m)) i = (if i = k then Some v else if i = j then None else find m i)"
  by (simp add: find_put find_erase)

lemma wf_move: "wf m \<Longrightarrow> wf (put k v (erase j m))"
  by (intro wf_put wf_erase)

lemma values_after_put:
  "(\<forall>i x. find m i = Some x \<longrightarrow> P i x) \<Longrightarrow> P k v \<Longrightarrow> find (put k v m) i = Some x \<Longrightarrow> P i x"
  by (simp add: find_put split: if_splits)

end

interpretation om: ordered_store map_of om_put om_erase om_wf
  by unfold_locales (simp_all add: store)

section \<open>Mutexes\<close>

text \<open>
  \<^verbatim>\<open>Mutex\<close> of sync.h wraps \<^verbatim>\<open>std::mutex\<close>, which is not recursive: a thread that
  locks a mutex it already holds never gets past the lock. An operation is a function to
  \<open>option\<close>; \<^const>\<open>None\<close> is a call that does not return. \<open>LOCK\<close> is the body of a
  member function that begins with \<^verbatim>\<open>LOCK(cs)\<close>: the flag says that the calling thread holds
  the mutex, and it is cleared when the function returns. \<open>LOCK_const\<close> is the same for a
  function that only reads. Operations of other threads run before or after the whole body.
\<close>

definition LOCK :: "('s \<Rightarrow> bool) \<Rightarrow> (bool \<Rightarrow> 's \<Rightarrow> 's) \<Rightarrow> ('s \<Rightarrow> ('r \<times> 's) option) \<Rightarrow> 's \<Rightarrow> ('r \<times> 's) option" where
  "LOCK held set_held body s =
     (if held s then None
      else Option.bind (body (set_held True s)) (\<lambda>(r, t). Some (r, set_held False t)))"

definition LOCK_const :: "('s \<Rightarrow> bool) \<Rightarrow> 's \<Rightarrow> 'r \<Rightarrow> 'r option" where
  "LOCK_const held s r = (if held s then None else Some r)"

locale mutex =
  fixes held :: "'s \<Rightarrow> bool"
    and set_held :: "bool \<Rightarrow> 's \<Rightarrow> 's"
  assumes held_set: "held (set_held b s) = b"
    and set_set: "set_held b (set_held c s) = set_held b s"
    and set_same: "held s = b \<Longrightarrow> set_held b s = s"
begin

lemma relock_blocks: "held s \<Longrightarrow> LOCK held set_held body s = None"
  by (simp add: LOCK_def)

lemma relock_const_blocks: "held s \<Longrightarrow> LOCK_const held s r = None"
  by (simp add: LOCK_const_def)

lemma LOCK_runs:
  assumes "\<not> held s" and "body (set_held True s) = Some (r, t)"
  shows "LOCK held set_held body s = Some (r, set_held False t)"
  using assms by (simp add: LOCK_def)

lemma LOCK_releases: "LOCK held set_held body s = Some (r, t) \<Longrightarrow> \<not> held t"
  by (auto simp: LOCK_def held_set Option.bind_eq_Some_conv split: if_splits prod.splits)

lemma LOCK_preserves:
  assumes "LOCK held set_held body s = Some (r, t)" and "P s"
    and "\<And>b s. P (set_held b s) = P s"
    and "\<And>s r t. body s = Some (r, t) \<Longrightarrow> P s \<Longrightarrow> P t"
  shows "P t"
proof -
  from assms(1) obtain u where u: "body (set_held True s) = Some (r, u)" and t: "t = set_held False u"
    by (auto simp: LOCK_def Option.bind_eq_Some_conv split: if_splits prod.splits)
  from u assms(2-4) have "P u" by blast
  with t assms(3) show ?thesis by simp
qed

lemma LOCK_total:
  "\<not> held s \<Longrightarrow> (\<And>s. body s \<noteq> None) \<Longrightarrow> \<exists>r t. LOCK held set_held body s = Some (r, t)"
  by (force simp: LOCK_def Option.bind_eq_Some_conv split: prod.splits)

lemma LOCK_unchanged:
  assumes "\<not> held s" and "body (set_held True s) = Some (r, set_held True s)"
  shows "LOCK held set_held body s = Some (r, s)"
  using assms by (simp add: LOCK_def set_set set_same)

lemma nested_lock_blocks:
  assumes "\<And>t. held t \<Longrightarrow> body t = None"
  shows "LOCK held set_held body s = None"
  using assms by (simp add: LOCK_def held_set)

end

section \<open>Secondary indexes\<close>

text \<open>
  Both databases keep, beside the primary map, an index from the output that holds the stake to
  the identifier of the entry. \<open>index_sound\<close> says that every index entry leads to an entry
  with exactly that output; \<open>index_complete\<close> that every entry with an output is found.
\<close>

definition index_sound :: "('e \<Rightarrow> COutPoint) \<Rightarrow> ('id \<rightharpoonup> 'e) \<Rightarrow> (COutPoint \<rightharpoonup> 'id) \<Rightarrow> bool" where
  "index_sound outp prim idx \<longleftrightarrow>
     (\<forall>p i. idx p = Some i \<longrightarrow> \<not> COutPoint_IsNull p \<and> map_option outp (prim i) = Some p)"

lemma index_soundI:
  "(\<And>p i. idx p = Some i \<Longrightarrow> \<not> COutPoint_IsNull p \<and> map_option outp (prim i) = Some p)
   \<Longrightarrow> index_sound outp prim idx"
  by (simp add: index_sound_def)

lemma index_soundD:
  "index_sound outp prim idx \<Longrightarrow> idx p = Some i \<Longrightarrow>
   \<not> COutPoint_IsNull p \<and> map_option outp (prim i) = Some p"
  by (simp add: index_sound_def)

definition index_complete :: "('e \<Rightarrow> COutPoint) \<Rightarrow> ('id \<rightharpoonup> 'e) \<Rightarrow> (COutPoint \<rightharpoonup> 'id) \<Rightarrow> bool" where
  "index_complete outp prim idx \<longleftrightarrow>
     (\<forall>i e. prim i = Some e \<longrightarrow> \<not> COutPoint_IsNull (outp e) \<longrightarrow> idx (outp e) = Some i)"

text \<open>Moving an entry to another output, the way both \<^verbatim>\<open>Update...Outpoint\<close> functions do.\<close>

definition reindex :: "COutPoint \<Rightarrow> COutPoint \<Rightarrow> 'id \<Rightarrow> (COutPoint, 'id) omap \<Rightarrow> (COutPoint, 'id) omap" where
  "reindex old new i idx =
     (let idx1 = (if COutPoint_IsNull old then idx else om_erase old idx)
      in if COutPoint_IsNull new then idx1 else om_put new i idx1)"

text \<open>
  Rebuilding the index after reading a database back: the loop over the primary map that both
  \<^verbatim>\<open>Unserialize\<close> functions end with.
\<close>

definition rebuild :: "('e \<Rightarrow> COutPoint) \<Rightarrow> ('id, 'e) omap \<Rightarrow> (COutPoint, 'id) omap" where
  "rebuild outp m =
     fold (\<lambda>e idx. if COutPoint_IsNull (outp (snd e)) then idx else om_put (outp (snd e)) (fst e) idx) m []"

lemma om_wf_rebuild [store]: "om_wf (rebuild outp m)"
proof -
  have "om_wf idx \<Longrightarrow> om_wf (fold (\<lambda>e idx. if COutPoint_IsNull (outp (snd e)) then idx
      else om_put (outp (snd e)) (fst e) idx) m idx)" for idx :: "(COutPoint, 'a) omap"
    by (induction m arbitrary: idx) (auto simp: store)
  then show ?thesis by (simp add: rebuild_def)
qed

lemma rebuild_snoc:
  "map_of (rebuild outp (m @ [e])) =
     (if COutPoint_IsNull (outp (snd e)) then map_of (rebuild outp m)
      else (map_of (rebuild outp m))(outp (snd e) \<mapsto> fst e))"
  by (simp add: rebuild_def store)

lemma rebuild_holds:
  "map_of (rebuild outp m) p = Some i \<Longrightarrow>
   \<not> COutPoint_IsNull p \<and> (\<exists>e. (i, e) \<in> set m \<and> outp e = p)"
proof (induction m rule: rev_induct)
  case Nil
  then show ?case by (simp add: rebuild_def)
next
  case (snoc x xs)
  then show ?case by (cases x) (auto simp: rebuild_snoc split: if_splits)
qed

lemma rebuild_finds:
  "(i, e) \<in> set m \<Longrightarrow> \<not> COutPoint_IsNull (outp e) \<Longrightarrow> map_of (rebuild outp m) (outp e) \<noteq> None"
proof (induction m rule: rev_induct)
  case Nil
  then show ?case by simp
next
  case (snoc x xs)
  show ?case
  proof (cases "x = (i, e)")
    case True
    then show ?thesis using snoc.prems by (simp add: rebuild_snoc)
  next
    case False
    then have "(i, e) \<in> set xs" using snoc.prems(1) by auto
    then have "map_of (rebuild outp xs) (outp e) \<noteq> None" using snoc.IH snoc.prems(2) by blast
    then show ?thesis by (simp add: rebuild_snoc)
  qed
qed

lemma om_wf_reindex [store]: "om_wf idx \<Longrightarrow> om_wf (reindex old new i idx)"
  by (auto simp: reindex_def Let_def store)

locale outpoint_index =
  fixes outp :: "'e \<Rightarrow> COutPoint"
    and set_outp :: "COutPoint \<Rightarrow> 'e \<Rightarrow> 'e"
  assumes outp_set: "outp (set_outp p e) = p"
begin

lemma sound_insert:
  assumes "index_sound outp prim idx" and "prim i = None"
  shows "index_sound outp (prim(i \<mapsto> e))
           (if COutPoint_IsNull (outp e) then idx else idx(outp e \<mapsto> i))"
  using assms by (intro index_soundI) (auto dest: index_soundD split: if_splits)

lemma sound_update_same:
  assumes "index_sound outp prim idx" and "prim i = Some e" and "outp e' = outp e"
  shows "index_sound outp (prim(i \<mapsto> e')) idx"
  using assms by (intro index_soundI) (auto dest: index_soundD split: if_splits)

lemma sound_map:
  assumes "index_sound outp prim idx" and "\<And>e. outp (f e) = outp e"
  shows "index_sound outp (\<lambda>i. map_option f (prim i)) idx"
  using assms by (intro index_soundI) (auto simp: option.map_comp comp_def dest: index_soundD)

lemma sound_vals:
  assumes "index_sound outp (map_of m) idx" and "\<And>e. outp (f e) = outp e"
  shows "index_sound outp (map_of (om_vals f m)) idx"
  using sound_map [OF assms] by (simp add: map_of_om_vals [abs_def])

lemma sound_reindex:
  assumes "index_sound outp prim (map_of idx)" and "prim i = Some e"
  shows "index_sound outp (prim(i \<mapsto> set_outp p e)) (map_of (reindex (outp e) p i idx))"
  using assms
  by (intro index_soundI) (auto simp: outp_set store reindex_def Let_def dest: index_soundD split: if_splits)

lemma sound_rebuild: "om_wf m \<Longrightarrow> index_sound outp (map_of m) (map_of (rebuild outp m))"
  by (intro index_soundI) (auto dest!: rebuild_holds simp: om_in_set)

lemma rebuild_restores:
  assumes "om_wf m" and "om_wf idx"
    and "index_sound outp (map_of m) (map_of idx)" and "index_complete outp (map_of m) (map_of idx)"
  shows "rebuild outp m = idx"
proof (rule om_ext [OF om_wf_rebuild assms(2)], rule ext)
  fix p
  have sub: "map_of idx p = Some i" if "map_of (rebuild outp m) p = Some i" for i
    using rebuild_holds [OF that] assms(1,4) by (auto simp: om_in_set index_complete_def)
  have "map_of (rebuild outp m) p \<noteq> None" if "map_of idx p = Some i" for i
    using index_soundD [OF assms(3) that] rebuild_finds [of i _ m outp] assms(1)
    by (auto simp: om_in_set)
  with sub show "map_of (rebuild outp m) p = map_of idx p"
    by (cases "map_of idx p"; cases "map_of (rebuild outp m) p") auto
qed

lemma complete_insert:
  assumes "index_complete outp prim idx"
    and "\<And>j f. prim j = Some f \<Longrightarrow> outp f = outp e \<Longrightarrow> COutPoint_IsNull (outp e)"
  shows "index_complete outp (prim(i \<mapsto> e))
           (if COutPoint_IsNull (outp e) then idx else idx(outp e \<mapsto> i))"
  using assms unfolding index_complete_def by (auto split: if_splits)

lemma complete_reindex:
  assumes "index_complete outp prim (map_of idx)" and "prim i = Some e"
    and "\<And>j f. prim j = Some f \<Longrightarrow> j \<noteq> i \<Longrightarrow> \<not> COutPoint_IsNull (outp f) \<Longrightarrow> outp f \<noteq> outp e \<and> outp f \<noteq> p"
  shows "index_complete outp (prim(i \<mapsto> set_outp p e)) (map_of (reindex (outp e) p i idx))"
  using assms unfolding index_complete_def reindex_def Let_def
  by (auto simp: outp_set store)

end

section \<open>Lists and sums\<close>

lemma sum_list_map_filter_split:
  "(\<Sum>x\<leftarrow>xs. f x) = (\<Sum>x\<leftarrow>filter P xs. f x) + (\<Sum>x\<leftarrow>filter (\<lambda>x. \<not> P x) xs. (f x :: int))"
  by (induction xs) auto

lemma sum_list_nonneg_int: "(\<And>x. x \<in> set xs \<Longrightarrow> 0 \<le> f x) \<Longrightarrow> 0 \<le> (\<Sum>x\<leftarrow>xs. (f x :: int))"
  by (induction xs) auto

lemma member_le_sum_list_int:
  "x \<in> set xs \<Longrightarrow> (\<And>y. y \<in> set xs \<Longrightarrow> 0 \<le> (f y :: int)) \<Longrightarrow> f x \<le> (\<Sum>y\<leftarrow>xs. f y)"
proof (induction xs)
  case Nil
  then show ?case by simp
next
  case (Cons a xs)
  have "0 \<le> (\<Sum>y\<leftarrow>xs. f y)" using Cons.prems by (intro sum_list_nonneg_int) auto
  then show ?case using Cons by (cases "x = a") (auto intro: add_increasing)
qed

end
