(* ===== verification/Params.thy ===== *)
theory Params
  imports Prelude
begin

text \<open>
  The consensus parameters (consensus/params.h), the values the three public networks give them
  (kernel/chainparams.cpp), and the block subsidy computed from them (validation.cpp). Only the
  parameters the modelled components read are fields of the record.
\<close>

section \<open>Parameters\<close>

definition COIN :: CAmount where
  "COIN = 100000000"

definition MAX_MONEY :: CAmount where
  "MAX_MONEY = 107822406 * COIN + 25 * (COIN div 100)"

record Params =
  nSubsidyHalvingInterval :: int
  nSubsidyHalvingIntervalV2 :: int
  QIP9Height :: int
  nOfflineStakeHeight :: int
  nReduceBlocktimeHeight :: int
  nPowTargetSpacing :: int
  nRBTPowTargetSpacing :: int
  nPowTargetTimespan :: int
  nPowTargetTimespanV2 :: int
  nRBTPowTargetTimespan :: int
  nCheckpointSpan :: int
  nRBTCheckpointSpan :: int
  nLastBigReward :: int
  nMPoSRewardRecipients :: int
  nStakeTimestampMask :: int
  nRBTStakeTimestampMask :: int
  nBlocktimeDownscaleFactor :: int
  nCoinbaseMaturity :: int
  nRBTCoinbaseMaturity :: int
  nMinValidatorStake :: CAmount
  nHeartbeatInterval :: int
  nUptimeWindow :: int
  nBronzeUptimeThreshold :: int
  nSilverUptimeThreshold :: int
  nGoldUptimeThreshold :: int
  nPlatinumUptimeThreshold :: int
  nBronzeRewardMultiplier :: int
  nSilverRewardMultiplier :: int
  nGoldRewardMultiplier :: int
  nPlatinumRewardMultiplier :: int
  nBaseBlockReward :: CAmount
  nTrustTierActivationHeight :: int

section \<open>Networks\<close>

definition CMainParams :: Params where
  "CMainParams = \<lparr>
     nSubsidyHalvingInterval = 126000000, nSubsidyHalvingIntervalV2 = 126000000,
     QIP9Height = 0, nOfflineStakeHeight = 1, nReduceBlocktimeHeight = 0,
     nPowTargetSpacing = 1, nRBTPowTargetSpacing = 1,
     nPowTargetTimespan = 600, nPowTargetTimespanV2 = 600, nRBTPowTargetTimespan = 600,
     nCheckpointSpan = 600, nRBTCheckpointSpan = 600,
     nLastBigReward = 0, nMPoSRewardRecipients = 10,
     nStakeTimestampMask = 0, nRBTStakeTimestampMask = 0,
     nBlocktimeDownscaleFactor = 1, nCoinbaseMaturity = 600, nRBTCoinbaseMaturity = 600,
     nMinValidatorStake = 100000 * COIN, nHeartbeatInterval = 600, nUptimeWindow = 2592000,
     nBronzeUptimeThreshold = 950, nSilverUptimeThreshold = 970,
     nGoldUptimeThreshold = 990, nPlatinumUptimeThreshold = 999,
     nBronzeRewardMultiplier = 100, nSilverRewardMultiplier = 125,
     nGoldRewardMultiplier = 150, nPlatinumRewardMultiplier = 200,
     nBaseBlockReward = 8333333, nTrustTierActivationHeight = 1001\<rparr>"

definition CTestNetParams :: Params where
  "CTestNetParams = CMainParams\<lparr>
     nSubsidyHalvingInterval := 985500, nSubsidyHalvingIntervalV2 := 4 * 985500,
     nOfflineStakeHeight := 0,
     nPowTargetTimespan := 16 * 60, nPowTargetTimespanV2 := 4000, nRBTPowTargetTimespan := 1000,
     nCheckpointSpan := 500, nRBTCheckpointSpan := 100,
     nLastBigReward := 500, nMPoSRewardRecipients := 1,
     nBlocktimeDownscaleFactor := 4, nCoinbaseMaturity := 500, nRBTCoinbaseMaturity := 100,
     nMinValidatorStake := 0\<rparr>"

definition CRegTestParams :: Params where
  "CRegTestParams = CMainParams\<lparr>
     nSubsidyHalvingInterval := 985500, nSubsidyHalvingIntervalV2 := 4 * 985500,
     nPowTargetSpacing := 2 * 64, nRBTPowTargetSpacing := 32,
     nPowTargetTimespan := 16 * 60, nPowTargetTimespanV2 := 4000, nRBTPowTargetTimespan := 1000,
     nCheckpointSpan := 500, nRBTCheckpointSpan := 2000,
     nLastBigReward := 5000, nMPoSRewardRecipients := 10,
     nStakeTimestampMask := 15, nRBTStakeTimestampMask := 3,
     nBlocktimeDownscaleFactor := 4, nCoinbaseMaturity := 500, nRBTCoinbaseMaturity := 4 * 500,
     nMinValidatorStake := 100 * COIN\<rparr>"

lemmas network_defs = CMainParams_def CTestNetParams_def CRegTestParams_def COIN_def

lemma main_stake_reward:
  "nMinValidatorStake CMainParams = 10000000000000" "nBaseBlockReward CMainParams = 8333333"
  by (simp_all add: CMainParams_def COIN_def)

text \<open>What every network guarantees of the trust parameters.\<close>

definition params_ok :: "Params \<Rightarrow> bool" where
  "params_ok p \<longleftrightarrow>
     0 < nHeartbeatInterval p \<and> 0 < nUptimeWindow p \<and> 0 \<le> nMinValidatorStake p \<and>
     nBronzeUptimeThreshold p \<le> nSilverUptimeThreshold p \<and>
     nSilverUptimeThreshold p \<le> nGoldUptimeThreshold p \<and>
     nGoldUptimeThreshold p \<le> nPlatinumUptimeThreshold p \<and>
     0 \<le> nBronzeRewardMultiplier p \<and>
     nBronzeRewardMultiplier p \<le> nSilverRewardMultiplier p \<and>
     nSilverRewardMultiplier p \<le> nGoldRewardMultiplier p \<and>
     nGoldRewardMultiplier p \<le> nPlatinumRewardMultiplier p \<and>
     nPlatinumRewardMultiplier p \<le> 200"

lemma networks_ok [simp]:
  "params_ok CMainParams" "params_ok CTestNetParams" "params_ok CRegTestParams"
  by (simp_all add: params_ok_def network_defs)

section \<open>Height-dependent parameters\<close>

definition StakeTimestampMask :: "Params \<Rightarrow> int \<Rightarrow> int" where
  "StakeTimestampMask p h =
     (if h < nReduceBlocktimeHeight p then nStakeTimestampMask p else nRBTStakeTimestampMask p)"

definition SubsidyHalvingInterval :: "Params \<Rightarrow> int \<Rightarrow> int" where
  "SubsidyHalvingInterval p h =
     (if h < nReduceBlocktimeHeight p then nSubsidyHalvingInterval p else nSubsidyHalvingIntervalV2 p)"

definition BlocktimeDownscaleFactor :: "Params \<Rightarrow> int \<Rightarrow> int" where
  "BlocktimeDownscaleFactor p h =
     (if h < nReduceBlocktimeHeight p then 1 else nBlocktimeDownscaleFactor p)"

definition TargetSpacing :: "Params \<Rightarrow> int \<Rightarrow> int" where
  "TargetSpacing p h =
     (if h < nReduceBlocktimeHeight p then nPowTargetSpacing p else nRBTPowTargetSpacing p)"

definition SubsidyHalvingWeight :: "Params \<Rightarrow> int \<Rightarrow> int" where
  "SubsidyHalvingWeight p h =
     (if h \<le> nLastBigReward p then 0
      else
        let blocktimeDownscaleFactor = s32 (BlocktimeDownscaleFactor p h);
            blockCount = s32 (h - nLastBigReward p);
            beforeDownscale =
              (if blocktimeDownscaleFactor = 1 then 0
               else s32 (s32 (nReduceBlocktimeHeight p - nLastBigReward p) - 1))
        in s32 (s32 (blockCount - beforeDownscale) + s32 (beforeDownscale * blocktimeDownscaleFactor)))"

definition TargetTimespan :: "Params \<Rightarrow> int \<Rightarrow> int" where
  "TargetTimespan p h =
     (if h < QIP9Height p then nPowTargetTimespan p
      else if h < nReduceBlocktimeHeight p then nPowTargetTimespanV2 p
      else nRBTPowTargetTimespan p)"

definition CheckpointSpan :: "Params \<Rightarrow> int \<Rightarrow> int" where
  "CheckpointSpan p h =
     (if h < nReduceBlocktimeHeight p then nCheckpointSpan p else nRBTCheckpointSpan p)"

definition CoinbaseMaturity :: "Params \<Rightarrow> int \<Rightarrow> int" where
  "CoinbaseMaturity p h =
     (if h < nReduceBlocktimeHeight p then nCoinbaseMaturity p else nRBTCoinbaseMaturity p)"

definition MaxCheckpointSpan :: "Params \<Rightarrow> int" where
  "MaxCheckpointSpan p =
     (if nCheckpointSpan p \<le> nRBTCheckpointSpan p then nRBTCheckpointSpan p else nCheckpointSpan p)"

lemma CheckpointSpan_le_Max: "CheckpointSpan p h \<le> MaxCheckpointSpan p"
  by (simp add: CheckpointSpan_def MaxCheckpointSpan_def)

section \<open>Block subsidy\<close>

text \<open>
  \<^verbatim>\<open>GetBlockSubsidy\<close>. A division by a zero halving interval traps and a shift by a negative
  count is undefined; both are \<^const>\<open>None\<close>. The arithmetic right shift of a signed value is
  division by a power of two rounding down.
\<close>

definition GetBlockSubsidy :: "int \<Rightarrow> Params \<Rightarrow> CAmount option" where
  "GetBlockSubsidy nHeight p =
     (if nHeight \<le> nLastBigReward p then Some (20000 * COIN)
      else
        let nBaseReward = nBaseBlockReward p;
            subsidyHalvingInterval = SubsidyHalvingInterval p nHeight;
            subsidyHalvingWeight = SubsidyHalvingWeight p nHeight
        in if subsidyHalvingInterval = 0 then None
           else let halvings = cdiv (s32 (subsidyHalvingWeight - 1)) subsidyHalvingInterval
                in if 7 \<le> halvings then Some 0
                   else if halvings < 0 then None
                   else Some (nBaseReward div 2 ^ nat halvings))"

definition GetTieredBlockSubsidy :: "int \<Rightarrow> Params \<Rightarrow> int \<Rightarrow> CAmount option" where
  "GetTieredBlockSubsidy nHeight p tierMultiplier =
     Option.bind (GetBlockSubsidy nHeight p) (\<lambda>nBaseSubsidy.
       Some (if 0 < tierMultiplier \<and> nTrustTierActivationHeight p \<le> nHeight
             then cdiv (s64 (nBaseSubsidy * tierMultiplier)) 100
             else nBaseSubsidy))"

text \<open>The mainnet subsidy in closed form, on the heights an \<^verbatim>\<open>int\<close> holds.\<close>

lemma main_subsidy:
  assumes "0 < h" and "h < 2147483648"
  shows "GetBlockSubsidy h CMainParams =
    Some (if 882000000 < h then 0 else 8333333 div 2 ^ nat ((h - 1) div 126000000))"
proof -
  have w: "SubsidyHalvingWeight CMainParams h = h"
    using assms by (simp add: SubsidyHalvingWeight_def BlocktimeDownscaleFactor_def CMainParams_def cint)
  have i: "SubsidyHalvingInterval CMainParams h = 126000000"
    using assms by (simp add: SubsidyHalvingInterval_def CMainParams_def)
  have hv: "cdiv (s32 (h - 1)) 126000000 = (h - 1) div 126000000"
    using assms by (simp add: cint)
  have seven: "7 \<le> (h - 1) div 126000000 \<longleftrightarrow> 882000000 < h" by linarith
  have pos: "\<not> (h - 1) div 126000000 < 0" using assms by (simp add: pos_imp_zdiv_neg_iff)
  show ?thesis
    using assms
    by (simp add: GetBlockSubsidy_def w i hv seven pos) (simp add: CMainParams_def)
qed

end
