(* ===== verification/Serial.thy ===== *)
theory Serial
  imports Prelude
begin

text \<open>
  The byte format of serialize.h as far as the validator, delegation and trust messages use it:
  little-endian integers, \<^verbatim>\<open>CompactSize\<close> lengths, strings, byte vectors, fixed-size blobs,
  public keys, and the element loops of \<^verbatim>\<open>std::vector\<close> and \<^verbatim>\<open>std::map\<close>. A writer
  returns the bytes it appends; a reader consumes a prefix of the stream or throws. The locale
  \<open>codec\<close> is the contract between the two; every format below is shown to meet it.
\<close>

section \<open>Readers\<close>

datatype ser_error = EndOfData | NonCanonicalSize | SizeTooLarge

type_synonym 'a reader = "byte list \<Rightarrow> ser_error + ('a \<times> byte list)"

definition rd_bind :: "'a reader \<Rightarrow> ('a \<Rightarrow> 'b reader) \<Rightarrow> 'b reader" where
  "rd_bind p f bs = (case p bs of Inl e \<Rightarrow> Inl e | Inr (x, r) \<Rightarrow> f x r)"

definition rd_ret :: "'a \<Rightarrow> 'a reader" where
  "rd_ret x bs = Inr (x, bs)"

text \<open>\<^verbatim>\<open>DataStream::read\<close> and \<^verbatim>\<open>DataStream::ignore\<close> (streams.h).\<close>

definition rd_bytes :: "nat \<Rightarrow> byte list reader" where
  "rd_bytes n bs = (if length bs < n then Inl EndOfData else Inr (take n bs, drop n bs))"

lemma rd_bytes_append [simp]: "length xs = n \<Longrightarrow> rd_bytes n (xs @ r) = Inr (xs, r)"
  by (auto simp: rd_bytes_def)

section \<open>The codec contract\<close>

locale codec =
  fixes ser :: "'a \<Rightarrow> byte list"
    and unser :: "'a reader"
    and ok :: "'a \<Rightarrow> bool"
  assumes read_back: "ok x \<Longrightarrow> unser (ser x @ r) = Inr (x, r)"
begin

lemma read_all: "ok x \<Longrightarrow> unser (ser x) = Inr (x, [])"
  using read_back [of x "[]"] by simp

lemma prefix_free:
  assumes "ok x" and "ok y" and "ser x @ r = ser y @ s"
  shows "x = y \<and> r = s"
proof -
  from assms have "Inr (x, r) = unser (ser y @ s)" by (metis read_back)
  with assms show ?thesis by (simp add: read_back)
qed

lemma ser_inj: "ok x \<Longrightarrow> ok y \<Longrightarrow> ser x = ser y \<Longrightarrow> x = y"
  using prefix_free [of x y "[]" "[]"] by simp

end

section \<open>Integers\<close>

primrec le_enc :: "nat \<Rightarrow> nat \<Rightarrow> byte list" where
  "le_enc 0 x = []"
| "le_enc (Suc n) x = of_nat x # le_enc n (x div 256)"

fun le_dec :: "byte list \<Rightarrow> nat" where
  "le_dec [] = 0"
| "le_dec (b # bs) = unat b + 256 * le_dec bs"

lemma length_le_enc [simp]: "length (le_enc n x) = n"
  by (induction n arbitrary: x) auto

lemma le_dec_enc: "le_dec (le_enc n x) = x mod 256 ^ n"
proof (induction n arbitrary: x)
  case 0
  then show ?case by simp
next
  case (Suc n)
  have "x mod 256 + 256 * (x div 256 mod 256 ^ n) = x mod 256 ^ Suc n"
    by (simp add: mod_mult2_eq)
  with Suc show ?case by (simp add: unat_of_nat)
qed

lemma le_dec_enc_id [simp]: "x < 256 ^ n \<Longrightarrow> le_dec (le_enc n x) = x"
  by (simp add: le_dec_enc)

text \<open>\<^verbatim>\<open>ser_writedata\<close> and \<^verbatim>\<open>ser_readdata\<close> for unsigned and signed integers of \<open>n\<close> bytes.\<close>

definition ser_uint :: "nat \<Rightarrow> nat \<Rightarrow> byte list" where
  "ser_uint n x = le_enc n x"

definition unser_uint :: "nat \<Rightarrow> nat reader" where
  "unser_uint n = rd_bind (rd_bytes n) (\<lambda>bs. rd_ret (le_dec bs))"

definition ser_int :: "nat \<Rightarrow> int \<Rightarrow> byte list" where
  "ser_int n x = le_enc n (nat (x mod 2 ^ (8 * n)))"

definition unser_int :: "nat \<Rightarrow> int reader" where
  "unser_int n = rd_bind (rd_bytes n) (\<lambda>bs. rd_ret (wrap (8 * n) (int (le_dec bs))))"

lemma pow256: "(256::nat) ^ n = 2 ^ (8 * n)"
  by (simp add: power_mult)

lemma length_ser_uint [simp]: "length (ser_uint n x) = n"
  by (simp add: ser_uint_def)

lemma length_ser_int [simp]: "length (ser_int n x) = n"
  by (simp add: ser_int_def)

lemma wrap_mod: "0 < w \<Longrightarrow> wrap w (x mod 2 ^ w) = wrap w x"
  by (simp add: wrap_def mod_add_left_eq)

lemma unser_uint_back: "x < 2 ^ (8 * n) \<Longrightarrow> unser_uint n (ser_uint n x @ r) = Inr (x, r)"
  by (simp add: unser_uint_def rd_bind_def rd_ret_def ser_uint_def pow256)

lemma unser_int_back:
  assumes "0 < n" and "fits (8 * n) x"
  shows "unser_int n (ser_int n x @ r) = Inr (x, r)"
proof -
  have "nat (x mod 2 ^ (8 * n)) < 2 ^ (8 * n)"
    by (simp add: nat_less_iff)
  then have "int (le_dec (ser_int n x)) = x mod 2 ^ (8 * n)"
    by (simp add: ser_int_def pow256)
  then show ?thesis
    using assms by (simp add: unser_int_def rd_bind_def rd_ret_def wrap_mod wrap_id)
qed

definition ser_u8 :: "nat \<Rightarrow> byte list" where
  "ser_u8 x = ser_uint 1 x"

definition unser_u8 :: "nat reader" where
  "unser_u8 = unser_uint 1"

lemma length_ser_u8 [simp]: "length (ser_u8 x) = 1"
  by (simp add: ser_u8_def)

interpretation u8: codec ser_u8 unser_u8 "\<lambda>x. x < 2 ^ 8"
  by unfold_locales (use unser_uint_back [of _ 1] in \<open>simp add: ser_u8_def unser_u8_def\<close>)

interpretation u16: codec "ser_uint 2" "unser_uint 2" "\<lambda>x. x < 2 ^ 16"
  by unfold_locales (use unser_uint_back [of _ 2] in simp)

interpretation u32: codec "ser_uint 4" "unser_uint 4" "\<lambda>x. x < 2 ^ 32"
  by unfold_locales (use unser_uint_back [of _ 4] in simp)

interpretation u64: codec "ser_uint 8" "unser_uint 8" "\<lambda>x. x < 2 ^ 64"
  by unfold_locales (use unser_uint_back [of _ 8] in simp)

interpretation i32: codec "ser_int 4" "unser_int 4" "fits 32"
  by unfold_locales (use unser_int_back [of 4] in simp)

interpretation i64: codec "ser_int 8" "unser_int 8" "fits 64"
  by unfold_locales (use unser_int_back [of 8] in simp)

text \<open>\<^verbatim>\<open>bool\<close> is one byte; any non-zero byte reads as true.\<close>

definition ser_bool :: "bool \<Rightarrow> byte list" where
  "ser_bool b = ser_u8 (if b then 1 else 0)"

definition unser_bool :: "bool reader" where
  "unser_bool = rd_bind unser_u8 (\<lambda>f. rd_ret (f \<noteq> 0))"

interpretation boolc: codec ser_bool unser_bool "\<lambda>_. True"
  by unfold_locales (simp add: ser_bool_def unser_bool_def rd_bind_def rd_ret_def u8.read_back)

section \<open>Blobs\<close>

text \<open>A blob is written as its bytes in memory order.\<close>

definition ser_blob :: "nat \<Rightarrow> 'n::len word \<Rightarrow> byte list" where
  "ser_blob n w = rev (le_enc n (unat w))"

definition unser_blob :: "nat \<Rightarrow> 'n::len word reader" where
  "unser_blob n = rd_bind (rd_bytes n) (\<lambda>bs. rd_ret (of_nat (le_dec (rev bs))))"

lemma length_ser_blob [simp]: "length (ser_blob n w) = n"
  by (simp add: ser_blob_def)

lemma unser_blob_back:
  fixes w :: "'n::len word"
  assumes "LENGTH('n) = 8 * n"
  shows "unser_blob n (ser_blob n w @ r) = Inr (w, r)"
proof -
  have "unat w < 2 ^ (8 * n)" using unsigned_less [of w] assms by simp
  then have "le_dec (rev (ser_blob n w)) = unat w" by (simp add: ser_blob_def pow256)
  then show ?thesis by (simp add: unser_blob_def rd_bind_def rd_ret_def)
qed

interpretation b160: codec "ser_blob 20 :: uint160 \<Rightarrow> byte list" "unser_blob 20" "\<lambda>_. True"
  by unfold_locales (simp add: unser_blob_back)

interpretation b256: codec "ser_blob 32 :: uint256 \<Rightarrow> byte list" "unser_blob 32" "\<lambda>_. True"
  by unfold_locales (simp add: unser_blob_back)

interpretation w32: codec "\<lambda>w :: 32 word. ser_uint 4 (unat w)"
    "rd_bind (unser_uint 4) (\<lambda>x. rd_ret (of_nat x))" "\<lambda>_. True"
proof unfold_locales
  fix x :: "32 word" and r
  have "unat x < 2 ^ 32" using unsigned_less [of x] by simp
  then show "rd_bind (unser_uint 4) (\<lambda>x. rd_ret (word_of_nat x)) (ser_uint 4 (unat x) @ r) = Inr (x, r)"
    by (simp add: rd_bind_def rd_ret_def u32.read_back)
qed

section \<open>Lengths, strings and vectors\<close>

definition MAX_SIZE :: nat where
  "MAX_SIZE = 0x10000000"

definition WriteCompactSize :: "nat \<Rightarrow> byte list" where
  "WriteCompactSize n =
     (if n < 253 then ser_u8 n
      else if n \<le> 0xFFFF then ser_u8 253 @ ser_uint 2 n
      else if n \<le> 0xFFFFFFFF then ser_u8 254 @ ser_uint 4 n
      else ser_u8 255 @ ser_uint 8 n)"

definition rd_guard :: "bool \<Rightarrow> ser_error \<Rightarrow> 'a reader \<Rightarrow> 'a reader" where
  "rd_guard bad e p bs = (if bad then Inl e else p bs)"

definition ReadCompactSize :: "nat reader" where
  "ReadCompactSize =
     rd_bind unser_u8 (\<lambda>ch.
       rd_bind
         (if ch < 253 then rd_ret ch
          else if ch = 253 then
            rd_bind (unser_uint 2) (\<lambda>n. rd_guard (n < 253) NonCanonicalSize (rd_ret n))
          else if ch = 254 then
            rd_bind (unser_uint 4) (\<lambda>n. rd_guard (n < 0x10000) NonCanonicalSize (rd_ret n))
          else
            rd_bind (unser_uint 8) (\<lambda>n. rd_guard (n < 0x100000000) NonCanonicalSize (rd_ret n)))
         (\<lambda>n. rd_guard (MAX_SIZE < n) SizeTooLarge (rd_ret n)))"

lemmas rd_defs = rd_bind_def rd_ret_def rd_guard_def

interpretation csize: codec WriteCompactSize ReadCompactSize "\<lambda>n. n \<le> MAX_SIZE"
proof unfold_locales
  fix n :: nat and r
  assume n: "n \<le> MAX_SIZE"
  consider "n < 253" | "253 \<le> n \<and> n \<le> 0xFFFF" | "0xFFFF < n" by linarith
  then show "ReadCompactSize (WriteCompactSize n @ r) = Inr (n, r)"
    using n
    by cases
      (simp_all add: WriteCompactSize_def ReadCompactSize_def rd_defs MAX_SIZE_def
        u8.read_back u16.read_back u32.read_back)
qed

text \<open>\<^verbatim>\<open>std::vector<unsigned char>\<close>.\<close>

definition ser_vec :: "byte list \<Rightarrow> byte list" where
  "ser_vec v = WriteCompactSize (length v) @ v"

definition unser_vec :: "byte list reader" where
  "unser_vec = rd_bind ReadCompactSize rd_bytes"

interpretation vec: codec ser_vec unser_vec "\<lambda>v. length v \<le> MAX_SIZE"
  by unfold_locales (simp add: ser_vec_def unser_vec_def rd_bind_def csize.read_back)

text \<open>\<^verbatim>\<open>std::string\<close>: the same bytes, one per \<^typ>\<open>char\<close>.\<close>

definition byte_of_char :: "char \<Rightarrow> byte" where
  "byte_of_char c = of_nat (of_char c)"

definition char_of_byte :: "byte \<Rightarrow> char" where
  "char_of_byte b = char_of (unat b)"

lemma char_of_byte_of_char [simp]: "char_of_byte (byte_of_char c) = c"
proof -
  have "(of_char c :: nat) < 256" by (cases c) (simp add: of_char_def)
  then have "unat (of_nat (of_char c) :: byte) = of_char c" by (simp add: unat_of_nat)
  then show ?thesis by (simp add: char_of_byte_def byte_of_char_def)
qed

definition ser_str :: "string \<Rightarrow> byte list" where
  "ser_str s = ser_vec (map byte_of_char s)"

definition unser_str :: "string reader" where
  "unser_str = rd_bind unser_vec (\<lambda>v. rd_ret (map char_of_byte v))"

interpretation str: codec ser_str unser_str "\<lambda>s. length s \<le> MAX_SIZE"
  by unfold_locales (simp add: ser_str_def unser_str_def rd_bind_def rd_ret_def vec.read_back comp_def)

text \<open>
  \<^verbatim>\<open>CPubKey\<close> (pubkey.h): the key bytes with their length; a length that does not match the
  header byte leaves an invalid key, which has no bytes.
\<close>

definition CPubKey_GetLen :: "byte \<Rightarrow> nat" where
  "CPubKey_GetLen h =
     (if h = 2 \<or> h = 3 then 33 else if h = 4 \<or> h = 6 \<or> h = 7 then 65 else 0)"

definition CPubKey_ok :: "CPubKey \<Rightarrow> bool" where
  "CPubKey_ok k \<longleftrightarrow> (case k of [] \<Rightarrow> True | h # _ \<Rightarrow> length k = CPubKey_GetLen h)"

definition ser_pubkey :: "CPubKey \<Rightarrow> byte list" where
  "ser_pubkey k = WriteCompactSize (length k) @ k"

definition unser_pubkey :: "CPubKey reader" where
  "unser_pubkey =
     rd_bind ReadCompactSize (\<lambda>len.
       rd_bind (rd_bytes len) (\<lambda>k.
         rd_ret (if len \<le> 65 \<and> CPubKey_ok k then k else [])))"

lemma CPubKey_ok_length: "CPubKey_ok k \<Longrightarrow> length k \<le> 65"
  by (auto simp: CPubKey_ok_def CPubKey_GetLen_def split: list.splits if_splits)

interpretation pubk: codec ser_pubkey unser_pubkey CPubKey_ok
proof unfold_locales
  fix k :: CPubKey and r
  assume k: "CPubKey_ok k"
  then have "length k \<le> 65" by (rule CPubKey_ok_length)
  with k show "unser_pubkey (ser_pubkey k @ r) = Inr (k, r)"
    by (simp add: ser_pubkey_def unser_pubkey_def rd_bind_def rd_ret_def csize.read_back MAX_SIZE_def)
qed

text \<open>\<^verbatim>\<open>COutPoint\<close>: the transaction hash and the 32-bit output number.\<close>

definition ser_outpoint :: "COutPoint \<Rightarrow> byte list" where
  "ser_outpoint p = ser_blob 32 (op_hash p) @ ser_uint 4 (unat (op_n p))"

definition unser_outpoint :: "COutPoint reader" where
  "unser_outpoint =
     rd_bind (unser_blob 32) (\<lambda>h. rd_bind (unser_uint 4) (\<lambda>n. rd_ret (COutPoint h (of_nat n))))"

interpretation outpt: codec ser_outpoint unser_outpoint "\<lambda>_. True"
proof unfold_locales
  fix p :: COutPoint and r
  have "unat (op_n p) < 2 ^ 32" using unsigned_less [of "op_n p"] by simp
  then show "unser_outpoint (ser_outpoint p @ r) = Inr (p, r)"
    by (simp add: ser_outpoint_def unser_outpoint_def rd_bind_def rd_ret_def b256.read_back u32.read_back)
qed

lemmas read_backs = b160.read_back b256.read_back pubk.read_back i64.read_back i32.read_back u8.read_back
  str.read_back outpt.read_back vec.read_back boolc.read_back csize.read_back u32.read_back u64.read_back
  u16.read_back

section \<open>Element loops\<close>

text \<open>\<^verbatim>\<open>VectorFormatter\<close>: the length, then every element with the element's formatter.\<close>

definition ser_list :: "('a \<Rightarrow> byte list) \<Rightarrow> 'a list \<Rightarrow> byte list" where
  "ser_list ser xs = WriteCompactSize (length xs) @ concat (map ser xs)"

primrec rd_times :: "nat \<Rightarrow> 'a reader \<Rightarrow> 'a list reader" where
  "rd_times 0 p = rd_ret []"
| "rd_times (Suc n) p = rd_bind p (\<lambda>x. rd_bind (rd_times n p) (\<lambda>xs. rd_ret (x # xs)))"

definition unser_list :: "'a reader \<Rightarrow> 'a list reader" where
  "unser_list p = rd_bind ReadCompactSize (\<lambda>n. rd_times n p)"

text \<open>
  \<^verbatim>\<open>std::map\<close>: the pairs in key order; reading inserts each pair, and \<^verbatim>\<open>insert\<close> keeps
  the first value of a key that occurs twice.
\<close>

definition om_insert :: "'k::linorder \<times> 'v \<Rightarrow> ('k, 'v) omap \<Rightarrow> ('k, 'v) omap" where
  "om_insert e m = (case map_of m (fst e) of None \<Rightarrow> om_put (fst e) (snd e) m | Some _ \<Rightarrow> m)"

definition ser_map :: "('k \<Rightarrow> byte list) \<Rightarrow> ('v \<Rightarrow> byte list) \<Rightarrow> ('k, 'v) omap \<Rightarrow> byte list" where
  "ser_map sk sv m = ser_list (\<lambda>e. sk (fst e) @ sv (snd e)) m"

definition unser_map :: "'k::linorder reader \<Rightarrow> 'v reader \<Rightarrow> ('k, 'v) omap reader" where
  "unser_map uk uv =
     rd_bind (unser_list (rd_bind uk (\<lambda>k. rd_bind uv (\<lambda>v. rd_ret (k, v)))))
       (\<lambda>es. rd_ret (fold om_insert es []))"

lemma om_put_snoc: "om_wf (m @ [(k, v)]) \<Longrightarrow> om_put k v m = m @ [(k, v)]"
  by (induction m) (auto simp: om_wf_def)

lemma om_insert_snoc: "om_wf (m @ [e]) \<Longrightarrow> om_insert e m = m @ [e]"
proof -
  assume wf: "om_wf (m @ [e])"
  then have "map_of m (fst e) = None"
    by (fastforce simp: om_wf_def sorted_wrt_append map_of_eq_None_iff)
  then show ?thesis
    using wf by (cases e) (simp add: om_insert_def om_put_snoc)
qed

lemma fold_om_insert: "om_wf (m @ es) \<Longrightarrow> fold om_insert es m = m @ es"
proof (induction es arbitrary: m)
  case Nil
  then show ?case by simp
next
  case (Cons e es)
  then have "om_wf (m @ [e])" by (simp add: om_wf_def sorted_wrt_append)
  with Cons show ?case by (simp add: om_insert_snoc)
qed

context codec
begin

lemma times_back:
  "\<forall>x \<in> set xs. ok x \<Longrightarrow> rd_times (length xs) unser (concat (map ser xs) @ r) = Inr (xs, r)"
  by (induction xs) (simp_all add: rd_bind_def rd_ret_def read_back)

lemma list_back:
  assumes "length xs \<le> MAX_SIZE" and "\<forall>x \<in> set xs. ok x"
  shows "unser_list unser (ser_list ser xs @ r) = Inr (xs, r)"
  using assms by (simp add: unser_list_def ser_list_def rd_bind_def csize.read_back times_back)

end

locale codec_pair = k: codec sk uk okk + v: codec sv uv okv
  for sk :: "'k::linorder \<Rightarrow> byte list" and uk :: "'k reader" and okk :: "'k \<Rightarrow> bool"
    and sv :: "'v \<Rightarrow> byte list" and uv :: "'v reader" and okv :: "'v \<Rightarrow> bool"
begin

sublocale kv: codec "\<lambda>e. sk (fst e) @ sv (snd e)"
    "rd_bind uk (\<lambda>k. rd_bind uv (\<lambda>v. rd_ret (k, v)))" "\<lambda>e. okk (fst e) \<and> okv (snd e)"
  by unfold_locales (simp add: rd_bind_def rd_ret_def k.read_back v.read_back)

lemma map_back:
  assumes "om_wf m" and "length m \<le> MAX_SIZE" and "\<forall>e \<in> set m. okk (fst e) \<and> okv (snd e)"
  shows "unser_map uk uv (ser_map sk sv m @ r) = Inr (m, r)"
  using kv.list_back [OF assms(2,3), of r] fold_om_insert [of "[]" m] assms(1)
  by (simp add: unser_map_def ser_map_def rd_bind_def [of "unser_list _"] rd_ret_def [of m])

end

end
