(* ===== verification/Signing.thy ===== *)
theory Signing
  imports Serial
begin

text \<open>
  Hashing and signatures. \<^verbatim>\<open>HashWriter\<close> (hash.h) collects the serialized fields and hashes
  them; \<^verbatim>\<open>CKey\<close> and \<^verbatim>\<open>CPubKey\<close> sign and verify that hash through libsecp256k1. The
  hash, the curve operations and the address hash are parameters of the model, collected in a
  record; nothing is assumed of them unless a theorem says so. What the development proves about
  a signed message is that its preimage determines the signed fields: two different requests
  never share a preimage.
\<close>

type_synonym CKey = "byte list"

record Crypto =
  Hash :: "byte list \<Rightarrow> uint256"
  Hash160 :: "byte list \<Rightarrow> uint160"
  CPubKey_Verify :: "CPubKey \<Rightarrow> uint256 \<Rightarrow> byte list \<Rightarrow> bool"
  CKey_Sign :: "CKey \<Rightarrow> uint256 \<Rightarrow> byte list option"
  CKey_GetPubKey :: "CKey \<Rightarrow> CPubKey"

definition CPubKey_GetID :: "Crypto \<Rightarrow> CPubKey \<Rightarrow> CKeyID" where
  "CPubKey_GetID C k = Hash160 C k"

text \<open>
  The documented behaviour of the signature scheme: what a key signs, its public key verifies.
\<close>

definition sign_correct :: "Crypto \<Rightarrow> bool" where
  "sign_correct C \<longleftrightarrow>
     (\<forall>k h s. CKey_Sign C k h = Some s \<longrightarrow> CPubKey_Verify C (CKey_GetPubKey C k) h s)"

text \<open>A toy scheme that shows the hypothesis can hold: the signature is the hash itself.\<close>

definition toy_crypto :: Crypto where
  "toy_crypto = \<lparr>Hash = (\<lambda>bs. of_nat (le_dec bs)), Hash160 = (\<lambda>bs. of_nat (le_dec bs)),
     CPubKey_Verify = (\<lambda>pk h s. s = ser_blob 32 h @ pk),
     CKey_Sign = (\<lambda>k h. Some (ser_blob 32 h @ k)), CKey_GetPubKey = (\<lambda>k. k)\<rparr>"

lemma toy_sign_correct: "sign_correct toy_crypto"
  by (simp add: sign_correct_def toy_crypto_def)

text \<open>
  The contract of a signed message: the bytes that are hashed, and the fields they are meant to
  bind. The laws are the ones of a codec, so equal preimages bind equal fields, and a preimage
  is never a proper prefix of another.
\<close>

locale signed_message = codec ser unser ok
  for ser :: "'f \<Rightarrow> byte list" and unser :: "'f reader" and ok :: "'f \<Rightarrow> bool" +
  fixes fields :: "'m \<Rightarrow> 'f"
    and preimage :: "'m \<Rightarrow> byte list"
  assumes preimage_fields: "preimage m = ser (fields m)"
begin

lemma preimage_binds:
  "ok (fields m) \<Longrightarrow> ok (fields n) \<Longrightarrow> preimage m = preimage n \<Longrightarrow> fields m = fields n"
  by (simp add: preimage_fields ser_inj)

lemma preimage_no_extension:
  "ok (fields m) \<Longrightarrow> ok (fields n) \<Longrightarrow> preimage m = preimage n @ r \<Longrightarrow> r = []"
  using prefix_free [of "fields m" "fields n" "[]" r] by (simp add: preimage_fields)

end

end
