(* ===== verification/ValidatorDB.thy ===== *)
theory ValidatorDB
  imports Params Signing
begin

text \<open>
  The validator database (validators/validatordb.h and .cpp): the registered validators, their
  stake, fee, status and delegated total, indexed by the output that holds the stake. The state
  is the class's fields; every member function is a definition of its own, run under
  \<^verbatim>\<open>cs_validators\<close>.
\<close>

section \<open>Entries\<close>

text \<open>
  Both enumerations are one byte on the wire and are read back without a range check
  (\<^verbatim>\<open>CustomUintFormatter<1>\<close>), so a stored value may be none of the named ones.
\<close>

datatype ValidatorStatus =
  VS_PENDING | VS_ACTIVE | VS_INACTIVE | VS_JAILED | VS_UNBONDING | VS_OTHER byte

definition ValidatorStatusToString :: "ValidatorStatus \<Rightarrow> string" where
  "ValidatorStatusToString st =
     (case st of VS_PENDING \<Rightarrow> ''pending'' | VS_ACTIVE \<Rightarrow> ''active'' | VS_INACTIVE \<Rightarrow> ''inactive''
      | VS_JAILED \<Rightarrow> ''jailed'' | VS_UNBONDING \<Rightarrow> ''unbonding'' | VS_OTHER _ \<Rightarrow> ''unknown'')"

record ValidatorEntry =
  ve_validatorId :: CKeyID
  ve_validatorPubKey :: CPubKey
  ve_stakeAmount :: CAmount
  ve_poolFeeRate :: int
  ve_registrationHeight :: int
  ve_lastActiveHeight :: int
  ve_status :: ValidatorStatus
  ve_validatorName :: string
  ve_stakeOutpoint :: COutPoint
  ve_jailReleaseHeight :: int
  ve_totalDelegated :: int
  ve_delegatorCount :: int

text \<open>The default constructor.\<close>

definition ValidatorEntry_new :: ValidatorEntry where
  "ValidatorEntry_new = \<lparr>ve_validatorId = 0, ve_validatorPubKey = [], ve_stakeAmount = 0,
     ve_poolFeeRate = 0, ve_registrationHeight = 0, ve_lastActiveHeight = 0,
     ve_status = VS_PENDING, ve_validatorName = [], ve_stakeOutpoint = COutPoint_Null,
     ve_jailReleaseHeight = 0, ve_totalDelegated = 0, ve_delegatorCount = 0\<rparr>"

definition MIN_POOL_FEE :: int where
  "MIN_POOL_FEE = 0"

definition MAX_POOL_FEE :: int where
  "MAX_POOL_FEE = 10000"

definition DEFAULT_POOL_FEE :: int where
  "DEFAULT_POOL_FEE = 1000"

definition MAX_VALIDATOR_NAME :: nat where
  "MAX_VALIDATOR_NAME = 64"

definition DEFAULT_JAIL_BLOCKS :: int where
  "DEFAULT_JAIL_BLOCKS = 86400"

definition UNBONDING_PERIOD :: int where
  "UNBONDING_PERIOD = 259200"

lemmas vdb_consts = MIN_POOL_FEE_def MAX_POOL_FEE_def MAX_VALIDATOR_NAME_def UNBONDING_PERIOD_def

definition GetTotalStake :: "ValidatorEntry \<Rightarrow> CAmount" where
  "GetTotalStake e = s64 (ve_stakeAmount e + ve_totalDelegated e)"

definition ValidatorEntry_MeetsMinimumStake :: "Params \<Rightarrow> ValidatorEntry \<Rightarrow> bool" where
  "ValidatorEntry_MeetsMinimumStake p e \<longleftrightarrow> nMinValidatorStake p \<le> GetTotalStake e"

definition ValidatorEntry_IsEligibleForStaking :: "Params \<Rightarrow> int \<Rightarrow> ValidatorEntry \<Rightarrow> bool" where
  "ValidatorEntry_IsEligibleForStaking p currentHeight e =
     (if ve_status e \<noteq> VS_ACTIVE then False
      else if \<not> ValidatorEntry_MeetsMinimumStake p e then False
      else if s32 (currentHeight - ve_registrationHeight e) < 2000 then False
      else True)"

section \<open>Reward split\<close>

text \<open>
  The products of the split are taken in \<^verbatim>\<open>CAmount\<close>, a signed 64-bit type. A signed result that
  does not fit has no defined value in C++, and the quotient of the least value by \<^verbatim>\<open>-1\<close> traps:
  an expression whose result leaves 64 bits makes the calculation \<^term>\<open>None\<close>.
\<close>

definition amount64 :: "int \<Rightarrow> (CAmount \<Rightarrow> 'a option) \<Rightarrow> 'a option" where
  "amount64 x k = (if fits 64 x then k x else None)"

definition CalculateValidatorReward :: "ValidatorEntry \<Rightarrow> CAmount \<Rightarrow> CAmount option" where
  "CalculateValidatorReward e blockReward =
     (if ve_totalDelegated e = 0 then Some blockReward
      else amount64 (ve_stakeAmount e + ve_totalDelegated e) (\<lambda>totalStake.
           if totalStake = 0 then Some 0
           else amount64 (blockReward * ve_stakeAmount e) (\<lambda>product.
                amount64 (cdiv product totalStake) (\<lambda>validatorStakeShare.
                amount64 (blockReward - validatorStakeShare) (\<lambda>delegatorsShare.
                amount64 (delegatorsShare * ve_poolFeeRate e) (\<lambda>feeProduct.
                amount64 (validatorStakeShare + cdiv feeProduct 10000) Some))))))"

definition CalculateDelegatorsReward :: "ValidatorEntry \<Rightarrow> CAmount \<Rightarrow> CAmount option" where
  "CalculateDelegatorsReward e blockReward =
     (if ve_totalDelegated e = 0 then Some 0
      else amount64 (ve_stakeAmount e + ve_totalDelegated e) (\<lambda>totalStake.
           if totalStake = 0 then Some 0
           else amount64 (blockReward * ve_totalDelegated e) (\<lambda>product.
                amount64 (cdiv product totalStake) (\<lambda>delegatorsShare.
                amount64 (delegatorsShare * ve_poolFeeRate e) (\<lambda>feeProduct.
                amount64 (delegatorsShare - cdiv feeProduct 10000) Some)))))"

section \<open>Updates\<close>

datatype ValidatorUpdateType =
  UPDATE_FEE | UPDATE_NAME | DEACTIVATE | REACTIVATE | INCREASE_STAKE | DECREASE_STAKE
  | OTHER_UPDATE byte

record ValidatorUpdate =
  vu_validatorId :: CKeyID
  vu_updateType :: ValidatorUpdateType
  vu_newValue :: int
  vu_newName :: string
  vu_updateHeight :: int
  vu_signature :: "byte list"

definition updateType_byte :: "ValidatorUpdateType \<Rightarrow> nat" where
  "updateType_byte t =
     (case t of UPDATE_FEE \<Rightarrow> 1 | UPDATE_NAME \<Rightarrow> 2 | DEACTIVATE \<Rightarrow> 3 | REACTIVATE \<Rightarrow> 4
      | INCREASE_STAKE \<Rightarrow> 5 | DECREASE_STAKE \<Rightarrow> 6 | OTHER_UPDATE b \<Rightarrow> unat b)"

text \<open>\<^verbatim>\<open>ValidatorUpdate::GetHash\<close>: the fields in the order they are streamed.\<close>

definition ValidatorUpdate_preimage :: "ValidatorUpdate \<Rightarrow> byte list" where
  "ValidatorUpdate_preimage u =
     ser_blob 20 (vu_validatorId u) @ ser_u8 (updateType_byte (vu_updateType u)) @
     ser_int 8 (vu_newValue u) @ ser_str (vu_newName u) @ ser_int 4 (vu_updateHeight u)"

definition ValidatorUpdate_GetHash :: "Crypto \<Rightarrow> ValidatorUpdate \<Rightarrow> uint256" where
  "ValidatorUpdate_GetHash C u = Hash C (ValidatorUpdate_preimage u)"

definition ValidatorUpdate_Sign :: "Crypto \<Rightarrow> CKey \<Rightarrow> ValidatorUpdate \<Rightarrow> bool \<times> ValidatorUpdate" where
  "ValidatorUpdate_Sign C key u =
     (case CKey_Sign C key (ValidatorUpdate_GetHash C u) of
        None \<Rightarrow> (False, u) | Some s \<Rightarrow> (True, u\<lparr>vu_signature := s\<rparr>))"

definition ValidatorUpdate_Verify :: "Crypto \<Rightarrow> CPubKey \<Rightarrow> ValidatorUpdate \<Rightarrow> bool" where
  "ValidatorUpdate_Verify C pubkey u \<longleftrightarrow>
     CPubKey_Verify C pubkey (ValidatorUpdate_GetHash C u) (vu_signature u)"

section \<open>The database\<close>

record ValidatorDB =
  cs_validators :: bool
  validators :: "(CKeyID, ValidatorEntry) omap"
  vdb_params :: Params
  vdb_currentHeight :: int
  vdb_outpointIndex :: "(COutPoint, CKeyID) omap"

abbreviation vdb_lock :: "(ValidatorDB \<Rightarrow> ('r \<times> ValidatorDB) option) \<Rightarrow> ValidatorDB \<Rightarrow> ('r \<times> ValidatorDB) option" where
  "vdb_lock \<equiv> LOCK cs_validators (\<lambda>b. cs_validators_update (\<lambda>_. b))"

interpretation vdbm: mutex cs_validators "\<lambda>b. cs_validators_update (\<lambda>_. b)"
  by unfold_locales auto

text \<open>The constructor \<^verbatim>\<open>ValidatorDB(params)\<close>, as \<^verbatim>\<open>InitValidatorDB\<close> calls it.\<close>

definition ValidatorDB_new :: "Params \<Rightarrow> ValidatorDB" where
  "ValidatorDB_new p = \<lparr>cs_validators = False, validators = [], vdb_params = p,
     vdb_currentHeight = 0, vdb_outpointIndex = []\<rparr>"

definition put_validator :: "CKeyID \<Rightarrow> ValidatorEntry \<Rightarrow> ValidatorDB \<Rightarrow> ValidatorDB" where
  "put_validator k e db = db\<lparr>validators := om_put k e (validators db)\<rparr>"

definition ValidatorDB_RegisterValidator :: "ValidatorEntry \<Rightarrow> ValidatorDB \<Rightarrow> (bool \<times> ValidatorDB) option" where
  "ValidatorDB_RegisterValidator entry = vdb_lock (\<lambda>db. Some
     (if map_of (validators db) (ve_validatorId entry) \<noteq> None then (False, db)
      else if ve_poolFeeRate entry < MIN_POOL_FEE \<or> MAX_POOL_FEE < ve_poolFeeRate entry then (False, db)
      else if ve_stakeAmount entry < nMinValidatorStake (vdb_params db) then (False, db)
      else if MAX_VALIDATOR_NAME < length (ve_validatorName entry) then (False, db)
      else let db1 = put_validator (ve_validatorId entry) entry db;
               db2 = (if COutPoint_IsNull (ve_stakeOutpoint entry) then db1
                      else db1\<lparr>vdb_outpointIndex :=
                             om_put (ve_stakeOutpoint entry) (ve_validatorId entry) (vdb_outpointIndex db1)\<rparr>)
           in (True, db2)))"

text \<open>
  The \<^verbatim>\<open>switch\<close> of \<^verbatim>\<open>ProcessUpdate\<close> on the entry the update names; \<^const>\<open>None\<close> is an
  early \<^verbatim>\<open>return false\<close>, none of which has changed the entry before.
\<close>

definition apply_update :: "Params \<Rightarrow> int \<Rightarrow> ValidatorUpdate \<Rightarrow> ValidatorEntry \<Rightarrow> ValidatorEntry option" where
  "apply_update p currentHeight update entry =
     (case vu_updateType update of
        UPDATE_FEE \<Rightarrow>
          (if vu_newValue update < MIN_POOL_FEE \<or> MAX_POOL_FEE < vu_newValue update then None
           else Some (entry\<lparr>ve_poolFeeRate := vu_newValue update\<rparr>))
      | UPDATE_NAME \<Rightarrow>
          (if MAX_VALIDATOR_NAME < length (vu_newName update) then None
           else Some (entry\<lparr>ve_validatorName := vu_newName update\<rparr>))
      | DEACTIVATE \<Rightarrow> Some (entry\<lparr>ve_status := VS_UNBONDING\<rparr>)
      | REACTIVATE \<Rightarrow>
          (if ve_status entry = VS_JAILED \<and> currentHeight < ve_jailReleaseHeight entry then None
           else if ve_status entry = VS_INACTIVE \<or> ve_status entry = VS_JAILED
           then Some (entry\<lparr>ve_status := VS_ACTIVE\<rparr>)
           else Some entry)
      | INCREASE_STAKE \<Rightarrow>
          Some (entry\<lparr>ve_stakeAmount := s64 (ve_stakeAmount entry + vu_newValue update)\<rparr>)
      | DECREASE_STAKE \<Rightarrow>
          (if ve_stakeAmount entry < vu_newValue update then None
           else if s64 (ve_stakeAmount entry - vu_newValue update) < nMinValidatorStake p then None
           else Some (entry\<lparr>ve_stakeAmount := s64 (ve_stakeAmount entry - vu_newValue update)\<rparr>))
      | OTHER_UPDATE _ \<Rightarrow> Some entry)"

definition ValidatorDB_ProcessUpdate :: "Crypto \<Rightarrow> ValidatorUpdate \<Rightarrow> ValidatorDB \<Rightarrow> (bool \<times> ValidatorDB) option" where
  "ValidatorDB_ProcessUpdate C update = vdb_lock (\<lambda>db. Some
     (case map_of (validators db) (vu_validatorId update) of
        None \<Rightarrow> (False, db)
      | Some entry \<Rightarrow>
          if \<not> ValidatorUpdate_Verify C (ve_validatorPubKey entry) update then (False, db)
          else (case apply_update (vdb_params db) (vdb_currentHeight db) update entry of
                  None \<Rightarrow> (False, db)
                | Some entry' \<Rightarrow> (True, put_validator (vu_validatorId update) entry' db))))"

definition UpdateStakeOutpoint :: "CKeyID \<Rightarrow> COutPoint \<Rightarrow> ValidatorDB \<Rightarrow> (bool \<times> ValidatorDB) option" where
  "UpdateStakeOutpoint validatorId newOutpoint = vdb_lock (\<lambda>db. Some
     (case map_of (validators db) validatorId of
        None \<Rightarrow> (False, db)
      | Some entry \<Rightarrow>
          (True, put_validator validatorId (entry\<lparr>ve_stakeOutpoint := newOutpoint\<rparr>) db
             \<lparr>vdb_outpointIndex :=
                reindex (ve_stakeOutpoint entry) newOutpoint validatorId (vdb_outpointIndex db)\<rparr>)))"

section \<open>Queries\<close>

definition ValidatorDB_GetValidator :: "CKeyID \<Rightarrow> ValidatorDB \<Rightarrow> ValidatorEntry option option" where
  "ValidatorDB_GetValidator validatorId db =
     LOCK_const cs_validators db (map_of (validators db) validatorId)"

definition GetValidatorByOutpoint :: "COutPoint \<Rightarrow> ValidatorDB \<Rightarrow> ValidatorEntry option option" where
  "GetValidatorByOutpoint outpoint db = LOCK_const cs_validators db
     (case map_of (vdb_outpointIndex db) outpoint of
        None \<Rightarrow> None | Some i \<Rightarrow> map_of (validators db) i)"

definition IsValidatorStake :: "COutPoint \<Rightarrow> ValidatorDB \<Rightarrow> bool option" where
  "IsValidatorStake outpoint db =
     LOCK_const cs_validators db (map_of (vdb_outpointIndex db) outpoint \<noteq> None)"

definition active_entries :: "ValidatorDB \<Rightarrow> ValidatorEntry list" where
  "active_entries db = filter (\<lambda>e. ve_status e = VS_ACTIVE) (map snd (validators db))"

definition ValidatorDB_GetActiveValidators :: "ValidatorDB \<Rightarrow> ValidatorEntry list option" where
  "ValidatorDB_GetActiveValidators db = LOCK_const cs_validators db (active_entries db)"

text \<open>
  \<^verbatim>\<open>std::sort\<close> leaves the order of equal elements open; the model takes the one that keeps
  their map order.
\<close>

definition GetValidatorsByStake :: "ValidatorDB \<Rightarrow> ValidatorEntry list option" where
  "GetValidatorsByStake db =
     LOCK_const cs_validators db (sort_key (\<lambda>e. - GetTotalStake e) (active_entries db))"

definition GetValidatorsByMaxFee :: "int \<Rightarrow> ValidatorDB \<Rightarrow> ValidatorEntry list option" where
  "GetValidatorsByMaxFee maxFeeRate db = LOCK_const cs_validators db
     (sort_key ve_poolFeeRate (filter (\<lambda>e. ve_poolFeeRate e \<le> maxFeeRate) (active_entries db)))"

definition GetValidatorCount :: "ValidatorDB \<Rightarrow> nat option" where
  "GetValidatorCount db = LOCK_const cs_validators db (length (validators db))"

definition GetActiveValidatorCount :: "ValidatorDB \<Rightarrow> nat option" where
  "GetActiveValidatorCount db = LOCK_const cs_validators db
     (fold (\<lambda>e count. if ve_status (snd e) = VS_ACTIVE then count + 1 else count) (validators db) 0)"

section \<open>Status, jail and delegation totals\<close>

definition modify_validator ::
  "CKeyID \<Rightarrow> (ValidatorDB \<Rightarrow> ValidatorEntry \<Rightarrow> ValidatorEntry option) \<Rightarrow> ValidatorDB \<Rightarrow> (bool \<times> ValidatorDB) option" where
  "modify_validator validatorId f = vdb_lock (\<lambda>db. Some
     (case map_of (validators db) validatorId of
        None \<Rightarrow> (False, db)
      | Some entry \<Rightarrow>
          (case f db entry of
             None \<Rightarrow> (False, db)
           | Some entry' \<Rightarrow> (True, put_validator validatorId entry' db))))"

definition SetValidatorStatus :: "CKeyID \<Rightarrow> ValidatorStatus \<Rightarrow> ValidatorDB \<Rightarrow> (bool \<times> ValidatorDB) option" where
  "SetValidatorStatus validatorId st = modify_validator validatorId (\<lambda>db entry.
     let entry1 = entry\<lparr>ve_status := st\<rparr>
     in Some (if st = VS_ACTIVE then entry1\<lparr>ve_lastActiveHeight := vdb_currentHeight db\<rparr> else entry1))"

definition JailValidator :: "CKeyID \<Rightarrow> int \<Rightarrow> ValidatorDB \<Rightarrow> (bool \<times> ValidatorDB) option" where
  "JailValidator validatorId jailBlocks = modify_validator validatorId (\<lambda>db entry.
     Some (entry\<lparr>ve_status := VS_JAILED,
                 ve_jailReleaseHeight := s32 (vdb_currentHeight db + jailBlocks)\<rparr>))"

definition UnjailValidator :: "CKeyID \<Rightarrow> ValidatorDB \<Rightarrow> (bool \<times> ValidatorDB) option" where
  "UnjailValidator validatorId = modify_validator validatorId (\<lambda>db entry.
     if ve_status entry \<noteq> VS_JAILED then None
     else if vdb_currentHeight db < ve_jailReleaseHeight entry then None
     else Some (entry\<lparr>ve_status := VS_ACTIVE, ve_jailReleaseHeight := 0\<rparr>))"

definition ValidatorDB_SetHeight :: "int \<Rightarrow> ValidatorDB \<Rightarrow> ValidatorDB" where
  "ValidatorDB_SetHeight height db = db\<lparr>vdb_currentHeight := height\<rparr>"

definition AddDelegation :: "CKeyID \<Rightarrow> CAmount \<Rightarrow> ValidatorDB \<Rightarrow> (bool \<times> ValidatorDB) option" where
  "AddDelegation validatorId amount = modify_validator validatorId (\<lambda>db entry.
     Some (entry\<lparr>ve_totalDelegated := s64 (ve_totalDelegated entry + amount),
                 ve_delegatorCount := s32 (ve_delegatorCount entry + 1)\<rparr>))"

definition RemoveDelegation :: "CKeyID \<Rightarrow> CAmount \<Rightarrow> ValidatorDB \<Rightarrow> (bool \<times> ValidatorDB) option" where
  "RemoveDelegation validatorId amount = modify_validator validatorId (\<lambda>db entry.
     if ve_totalDelegated entry < amount then None
     else Some (entry\<lparr>ve_totalDelegated := s64 (ve_totalDelegated entry - amount),
                      ve_delegatorCount := (if 0 < ve_delegatorCount entry
                                            then s32 (ve_delegatorCount entry - 1)
                                            else ve_delegatorCount entry)\<rparr>))"

text \<open>
  \<^verbatim>\<open>ProcessBlock\<close>: the loop over the entries. Its second branch only logs that a jail term
  has ended.
\<close>

definition finish_unbonding :: "int \<Rightarrow> ValidatorEntry \<Rightarrow> ValidatorEntry" where
  "finish_unbonding height entry =
     (if ve_status entry = VS_UNBONDING \<and> UNBONDING_PERIOD \<le> s32 (height - ve_lastActiveHeight entry)
      then entry\<lparr>ve_status := VS_INACTIVE\<rparr> else entry)"

definition ValidatorDB_ProcessBlock :: "int \<Rightarrow> ValidatorDB \<Rightarrow> (unit \<times> ValidatorDB) option" where
  "ValidatorDB_ProcessBlock height = vdb_lock (\<lambda>db. Some ((),
     db\<lparr>vdb_currentHeight := height,
        validators := om_vals (finish_unbonding height) (validators db)\<rparr>))"

section \<open>Invariant\<close>

text \<open>
  A validator is stored under its own identifier, its fee is a proportion and its name fits; the
  maps are ordered; every indexed output leads to the validator that holds it.
\<close>

definition ValidatorEntry_ok :: "ValidatorEntry \<Rightarrow> bool" where
  "ValidatorEntry_ok e \<longleftrightarrow>
     0 \<le> ve_poolFeeRate e \<and> ve_poolFeeRate e \<le> 10000 \<and> length (ve_validatorName e) \<le> 64"

definition vdb_inv :: "ValidatorDB \<Rightarrow> bool" where
  "vdb_inv db \<longleftrightarrow>
     om_wf (validators db) \<and> om_wf (vdb_outpointIndex db) \<and>
     (\<forall>k e. map_of (validators db) k = Some e \<longrightarrow> ve_validatorId e = k \<and> ValidatorEntry_ok e) \<and>
     index_sound ve_stakeOutpoint (map_of (validators db)) (map_of (vdb_outpointIndex db))"

interpretation veidx: outpoint_index ve_stakeOutpoint "\<lambda>p. ve_stakeOutpoint_update (\<lambda>_. p)"
  by unfold_locales simp

lemma vdb_inv_lock_flag [simp]: "vdb_inv (db\<lparr>cs_validators := b\<rparr>) = vdb_inv db"
  by (simp add: vdb_inv_def)

lemma vdb_inv_height [simp]: "vdb_inv (db\<lparr>vdb_currentHeight := h\<rparr>) = vdb_inv db"
  by (simp add: vdb_inv_def)

lemma vdb_inv_new: "vdb_inv (ValidatorDB_new p)"
  by (simp add: vdb_inv_def ValidatorDB_new_def index_sound_def)

lemma vdb_inv_put:
  assumes "vdb_inv db" and "map_of (validators db) k = Some e"
    and "ve_validatorId e' = k" and "ValidatorEntry_ok e'" and "ve_stakeOutpoint e' = ve_stakeOutpoint e"
  shows "vdb_inv (put_validator k e' db)"
  using assms by (auto simp: vdb_inv_def put_validator_def store intro: veidx.sound_update_same)

lemma vdb_inv_insert:
  assumes "vdb_inv db" and "map_of (validators db) (ve_validatorId e) = None" and "ValidatorEntry_ok e"
  shows "vdb_inv (put_validator (ve_validatorId e) e db\<lparr>vdb_outpointIndex :=
     (if COutPoint_IsNull (ve_stakeOutpoint e) then vdb_outpointIndex db
      else om_put (ve_stakeOutpoint e) (ve_validatorId e) (vdb_outpointIndex db))\<rparr>)"
  using assms
    veidx.sound_insert [of "map_of (validators db)" "map_of (vdb_outpointIndex db)" "ve_validatorId e" e]
  by (auto simp: vdb_inv_def put_validator_def store)

text \<open>
  The entry updates the member functions make through \<open>modify_validator\<close> or
  \<open>ProcessUpdate\<close> keep the identity and the output and respect the limits.
\<close>

definition keeps_entry :: "ValidatorEntry \<Rightarrow> ValidatorEntry \<Rightarrow> bool" where
  "keeps_entry e e' \<longleftrightarrow> ve_validatorId e' = ve_validatorId e \<and>
     ve_stakeOutpoint e' = ve_stakeOutpoint e \<and> (ValidatorEntry_ok e \<longrightarrow> ValidatorEntry_ok e')"

lemma apply_update_keeps: "apply_update p h u e = Some e' \<Longrightarrow> keeps_entry e e'"
  by (auto simp: apply_update_def keeps_entry_def ValidatorEntry_ok_def vdb_consts
      split: ValidatorUpdateType.splits if_splits)

lemma vdb_inv_keeps:
  "vdb_inv db \<Longrightarrow> map_of (validators db) k = Some e \<Longrightarrow> keeps_entry e e' \<Longrightarrow> vdb_inv (put_validator k e' db)"
  by (rule vdb_inv_put) (auto simp: vdb_inv_def keeps_entry_def)

lemma vdb_inv_modify:
  assumes "modify_validator k f db = Some (r, db')" and "vdb_inv db"
    and "\<And>d e e'. f d e = Some e' \<Longrightarrow> keeps_entry e e'"
  shows "vdb_inv db'"
  using assms unfolding modify_validator_def
  by (elim vdbm.LOCK_preserves [where P = vdb_inv])
    (auto split: option.splits intro: vdb_inv_keeps)

lemmas modify_defs =
  SetValidatorStatus_def JailValidator_def UnjailValidator_def AddDelegation_def RemoveDelegation_def

lemma vdb_inv_RegisterValidator:
  "ValidatorDB_RegisterValidator e db = Some (r, db') \<Longrightarrow> vdb_inv db \<Longrightarrow> vdb_inv db'"
  unfolding ValidatorDB_RegisterValidator_def
  by (elim vdbm.LOCK_preserves [where P = vdb_inv])
    (auto simp: vdb_consts ValidatorEntry_ok_def put_validator_def split: if_splits
      dest: vdb_inv_insert)

lemma vdb_inv_ProcessUpdate:
  "ValidatorDB_ProcessUpdate C u db = Some (r, db') \<Longrightarrow> vdb_inv db \<Longrightarrow> vdb_inv db'"
  unfolding ValidatorDB_ProcessUpdate_def
  by (elim vdbm.LOCK_preserves [where P = vdb_inv])
    (auto split: option.splits if_splits intro: vdb_inv_keeps apply_update_keeps)

lemma vdb_inv_UpdateStakeOutpoint:
  "UpdateStakeOutpoint k p db = Some (r, db') \<Longrightarrow> vdb_inv db \<Longrightarrow> vdb_inv db'"
  unfolding UpdateStakeOutpoint_def
  by (elim vdbm.LOCK_preserves [where P = vdb_inv])
    (auto simp: vdb_inv_def put_validator_def store ValidatorEntry_ok_def
      split: option.splits if_splits dest: veidx.sound_reindex)

lemma vdb_inv_ProcessBlock:
  "ValidatorDB_ProcessBlock h db = Some (r, db') \<Longrightarrow> vdb_inv db \<Longrightarrow> vdb_inv db'"
  unfolding ValidatorDB_ProcessBlock_def
  by (elim vdbm.LOCK_preserves [where P = vdb_inv])
    (auto simp: vdb_inv_def store finish_unbonding_def ValidatorEntry_ok_def
      intro!: veidx.sound_vals)

section \<open>Steps and reachable states\<close>

text \<open>
  A step is one call of a member function that changes the database and returns. Reachable
  states start at the constructor.
\<close>

inductive vdb_step :: "Crypto \<Rightarrow> ValidatorDB \<Rightarrow> ValidatorDB \<Rightarrow> bool" for C :: Crypto where
  register: "ValidatorDB_RegisterValidator e db = Some (r, db') \<Longrightarrow> vdb_step C db db'"
| update: "ValidatorDB_ProcessUpdate C u db = Some (r, db') \<Longrightarrow> vdb_step C db db'"
| move_stake: "UpdateStakeOutpoint k p db = Some (r, db') \<Longrightarrow> vdb_step C db db'"
| set_status: "SetValidatorStatus k st db = Some (r, db') \<Longrightarrow> vdb_step C db db'"
| jail: "JailValidator k n db = Some (r, db') \<Longrightarrow> vdb_step C db db'"
| unjail: "UnjailValidator k db = Some (r, db') \<Longrightarrow> vdb_step C db db'"
| set_height: "vdb_step C db (ValidatorDB_SetHeight h db)"
| add_delegation: "AddDelegation k a db = Some (r, db') \<Longrightarrow> vdb_step C db db'"
| remove_delegation: "RemoveDelegation k a db = Some (r, db') \<Longrightarrow> vdb_step C db db'"
| process_block: "ValidatorDB_ProcessBlock h db = Some (r2, db') \<Longrightarrow> vdb_step C db db'"

inductive vdb_reachable :: "Crypto \<Rightarrow> Params \<Rightarrow> ValidatorDB \<Rightarrow> bool" for C :: Crypto and p :: Params where
  init: "vdb_reachable C p (ValidatorDB_new p)"
| step: "vdb_reachable C p db \<Longrightarrow> vdb_step C db db' \<Longrightarrow> vdb_reachable C p db'"

lemma vdb_step_inv: "vdb_step C db db' \<Longrightarrow> vdb_inv db \<Longrightarrow> vdb_inv db'"
proof (induction rule: vdb_step.induct)
  case (set_status k st db r db')
  then show ?case
    unfolding SetValidatorStatus_def
    by (elim vdb_inv_modify) (auto simp: keeps_entry_def ValidatorEntry_ok_def Let_def split: if_splits)
next
  case (jail k n db r db')
  then show ?case
    unfolding JailValidator_def
    by (elim vdb_inv_modify) (auto simp: keeps_entry_def ValidatorEntry_ok_def)
next
  case (unjail k db r db')
  then show ?case
    unfolding UnjailValidator_def
    by (elim vdb_inv_modify) (auto simp: keeps_entry_def ValidatorEntry_ok_def split: if_splits)
next
  case (add_delegation k a db r db')
  then show ?case
    unfolding AddDelegation_def
    by (elim vdb_inv_modify) (auto simp: keeps_entry_def ValidatorEntry_ok_def)
next
  case (remove_delegation k a db r db')
  then show ?case
    unfolding RemoveDelegation_def
    by (elim vdb_inv_modify) (auto simp: keeps_entry_def ValidatorEntry_ok_def split: if_splits)
qed (auto simp: ValidatorDB_SetHeight_def intro: vdb_inv_RegisterValidator vdb_inv_ProcessUpdate
      vdb_inv_UpdateStakeOutpoint vdb_inv_ProcessBlock)

lemma modify_releases: "modify_validator k f db = Some (r, db') \<Longrightarrow> \<not> cs_validators db'"
  unfolding modify_validator_def by (rule vdbm.LOCK_releases)

lemma vdb_step_unlocked: "vdb_step C db db' \<Longrightarrow> \<not> cs_validators db \<Longrightarrow> \<not> cs_validators db'"
  by (induction rule: vdb_step.induct)
    (auto simp: ValidatorDB_SetHeight_def modify_defs ValidatorDB_RegisterValidator_def
      ValidatorDB_ProcessUpdate_def UpdateStakeOutpoint_def ValidatorDB_ProcessBlock_def
      dest: modify_releases vdbm.LOCK_releases)

lemma vdb_reachable_unlocked: "vdb_reachable C p db \<Longrightarrow> \<not> cs_validators db"
  by (induction rule: vdb_reachable.induct)
    (auto simp: ValidatorDB_new_def dest: vdb_step_unlocked)

text \<open>
  C24. In every state the validator database can reach by its operations from the empty database
  (reading a saved file is not among them, see \<^verbatim>\<open>ValidatorDB_roundtrip\<close>), each validator is stored under its own
  identifier with a pool fee between 0 and 10000 basis points and a name of at most 64
  characters, and a lookup by stake output that finds a validator finds the one whose stake is
  that output.
\<close>

theorem ValidatorDB_reachable_invariant:
  assumes "vdb_reachable C p db"
  shows "vdb_inv db"
  using assms
proof (induction rule: vdb_reachable.induct)
  case init
  show ?case by (rule vdb_inv_new)
next
  case (step db db')
  then show ?case by (blast intro: vdb_step_inv)
qed

section \<open>The reward split\<close>

lemma floor_parts:
  fixes R s d :: int
  assumes "0 \<le> R" and "0 \<le> s" and "0 < d"
  shows "R - 1 \<le> R * s div (s + d) + R * d div (s + d)"
    and "R * s div (s + d) + R * d div (s + d) \<le> R"
proof -
  let ?t = "s + d"
  have t: "0 < ?t" using assms by simp
  have "R * s = ?t * (R * s div ?t) + R * s mod ?t" and "R * d = ?t * (R * d div ?t) + R * d mod ?t"
    by simp_all
  then have sum: "?t * R = ?t * (R * s div ?t + R * d div ?t) + (R * s mod ?t + R * d mod ?t)"
    by (simp add: algebra_simps)
  have m: "0 \<le> R * s mod ?t + R * d mod ?t" "R * s mod ?t + R * d mod ?t < ?t + ?t"
    by (rule add_nonneg_nonneg [OF pos_mod_sign [OF t] pos_mod_sign [OF t]],
        rule add_strict_mono [OF pos_mod_bound [OF t] pos_mod_bound [OF t]])
  from sum m have "?t * (R * s div ?t + R * d div ?t) \<le> ?t * R" by linarith
  then show "R * s div ?t + R * d div ?t \<le> R" using t by (simp only: mult_le_cancel_left_pos)
  have "?t * (R * s div ?t + R * d div ?t + 2) = ?t * (R * s div ?t + R * d div ?t) + (?t + ?t)"
    by (simp add: distrib_left)
  with sum m have "?t * R < ?t * (R * s div ?t + R * d div ?t + 2)" by linarith
  then have "R < R * s div ?t + R * d div ?t + 2" using t by (simp only: mult_less_cancel_left_pos)
  then show "R - 1 \<le> R * s div ?t + R * d div ?t" by simp
qed

lemma fee_step:
  fixes x f :: int
  assumes "0 \<le> f" and "f \<le> 10000"
  shows "x * f div 10000 \<le> (x + 1) * f div 10000"
    and "(x + 1) * f div 10000 \<le> x * f div 10000 + 1"
proof -
  show "x * f div 10000 \<le> (x + 1) * f div 10000"
    using assms by (intro zdiv_mono1) (auto simp: algebra_simps)
  have "(x + 1) * f \<le> x * f + 10000" using assms by (simp add: algebra_simps)
  then have "(x + 1) * f div 10000 \<le> (x * f + 10000) div 10000" by (intro zdiv_mono1) auto
  then show "(x + 1) * f div 10000 \<le> x * f div 10000 + 1" by simp
qed

lemma split_arith:
  fixes R v w a b :: int
  assumes "b \<le> a" and "a + w \<le> b + (R - v)" and "0 \<le> a" and "b \<le> w" and "R - 1 \<le> v + w" and "0 \<le> v"
  shows "0 \<le> v + a \<and> 0 \<le> w - b \<and> R - 1 \<le> v + a + (w - b) \<and> v + a + (w - b) \<le> R"
  using assms by linarith

text \<open>Where no product leaves 64 bits, the two functions are the exact proportional split.\<close>

definition split_fits :: "ValidatorEntry \<Rightarrow> CAmount \<Rightarrow> bool" where
  "split_fits e R \<longleftrightarrow> 0 \<le> ve_stakeAmount e \<and> 0 < ve_totalDelegated e \<and> 0 \<le> R \<and>
     0 \<le> ve_poolFeeRate e \<and> ve_poolFeeRate e \<le> 10000 \<and>
     ve_stakeAmount e + ve_totalDelegated e < 2 ^ 63 \<and>
     R * (ve_stakeAmount e + ve_totalDelegated e) < 2 ^ 63 \<and> R * 10000 < 2 ^ 63"

lemma amount64_fits: "fits 64 x \<Longrightarrow> amount64 x k = k x"
  by (simp add: amount64_def)

lemma fits64_between: "- 9223372036854775808 \<le> x \<Longrightarrow> x < 9223372036854775808 \<Longrightarrow> fits 64 x"
  by (simp add: fits_def)

lemma reward_exact:
  assumes "split_fits e R"
  defines "s \<equiv> ve_stakeAmount e" and "d \<equiv> ve_totalDelegated e" and "f \<equiv> ve_poolFeeRate e"
  shows "CalculateValidatorReward e R =
           Some (R * s div (s + d) + (R - R * s div (s + d)) * f div 10000)"
    and "CalculateDelegatorsReward e R =
           Some (R * d div (s + d) - (R * d div (s + d)) * f div 10000)"
proof -
  note b = assms(1) [unfolded split_fits_def, folded s_def d_def f_def]
  have R: "0 \<le> R" "R < 9223372036854775808" and t: "0 < s + d" "fits 64 (s + d)"
    using b by (auto intro: fits64_between)
  have part: "fits 64 (R * x)" "0 \<le> R * x div (s + d)" "R * x div (s + d) \<le> R"
    "cdiv (R * x) (s + d) = R * x div (s + d)" if "0 \<le> x" "x \<le> s + d" for x
  proof -
    have p: "0 \<le> R * x" "R * x \<le> R * (s + d)" using R that by (auto intro: mult_left_mono)
    with b show "fits 64 (R * x)" by (intro fits64_between) auto
    show "0 \<le> R * x div (s + d)" "R * x div (s + d) \<le> R" "cdiv (R * x) (s + d) = R * x div (s + d)"
      using R t that p div_mult_le_mono [of R "s + d" x] by (simp_all add: cdiv_nonneg)
  qed
  have fee: "fits 64 (x * f)" "0 \<le> x * f div 10000" "x * f div 10000 \<le> x"
    "cdiv (x * f) 10000 = x * f div 10000" if "0 \<le> x" "x \<le> R" for x
  proof -
    have p: "0 \<le> x * f" "x * f \<le> R * 10000" using b that by (auto intro: mult_mono)
    with b show "fits 64 (x * f)" by (intro fits64_between) auto
    show "0 \<le> x * f div 10000" "x * f div 10000 \<le> x" "cdiv (x * f) 10000 = x * f div 10000"
      using b that p div_mult_le_mono [of x 10000 f] by (simp_all add: cdiv_nonneg)
  qed
  have nz: "d \<noteq> 0" "s + d \<noteq> 0" "0 \<le> s" "s \<le> s + d" "0 \<le> d" "d \<le> s + d" using b by auto
  let ?v = "R * s div (s + d)" and ?w = "R * d div (s + d)"
  note v = part [OF nz(3,4)] and w = part [OF nz(5,6)]
  have vr: "0 \<le> R - ?v" "R - ?v \<le> R" using v by auto
  have last: "fits 64 ?v" "fits 64 (R - ?v)" "fits 64 (?v + (R - ?v) * f div 10000)"
    "fits 64 ?w" "fits 64 (?w - ?w * f div 10000)"
    using v w fee [OF vr] fee [OF w(2,3)] R vr by (auto intro!: fits64_between)
  show "CalculateValidatorReward e R = Some (?v + (R - ?v) * f div 10000)"
    unfolding CalculateValidatorReward_def s_def [symmetric] d_def [symmetric] f_def [symmetric]
    using nz by (simp add: amount64_fits t v fee [OF vr] last)
  show "CalculateDelegatorsReward e R = Some (?w - ?w * f div 10000)"
    unfolding CalculateDelegatorsReward_def s_def [symmetric] d_def [symmetric] f_def [symmetric]
    using nz by (simp add: amount64_fits t w fee [OF w(2,3)] last)
qed

text \<open>
  C26. For a non-negative stake, a positive delegated total, a non-negative reward and a fee of at
  most 100 percent whose products all fit 64 bits, both shares of a block reward are computed
  without overflow, are non-negative, and together pay out the whole reward up to at most one
  satoshi, and never more than the reward.
\<close>

theorem reward_split_conserves:
  assumes "split_fits e R"
  shows "\<exists>v d. CalculateValidatorReward e R = Some v \<and> CalculateDelegatorsReward e R = Some d \<and>
    0 \<le> v \<and> 0 \<le> d \<and> R - 1 \<le> v + d \<and> v + d \<le> R"
proof -
  let ?s = "ve_stakeAmount e" and ?d = "ve_totalDelegated e" and ?f = "ve_poolFeeRate e"
  let ?v = "R * ?s div (?s + ?d)" and ?w = "R * ?d div (?s + ?d)"
  note b = assms [unfolded split_fits_def]
  have parts: "R - 1 \<le> ?v + ?w" "?v + ?w \<le> R" using floor_parts [of R ?s ?d] b by auto
  have v: "0 \<le> ?v" "?v \<le> R" and w: "0 \<le> ?w" "?w \<le> R"
    using div_mult_le_mono [of R "?s + ?d" ?s] div_mult_le_mono [of R "?s + ?d" ?d] b by auto
  have "R - ?v = ?w \<or> R - ?v = ?w + 1" using parts by linarith
  then have fees: "?w * ?f div 10000 \<le> (R - ?v) * ?f div 10000"
    "(R - ?v) * ?f div 10000 + ?w \<le> ?w * ?f div 10000 + (R - ?v)"
    using fee_step [of ?f ?w] b by auto
  have fw: "0 \<le> (R - ?v) * ?f div 10000" "?w * ?f div 10000 \<le> ?w"
    using div_mult_le_mono [of "R - ?v" 10000 ?f] div_mult_le_mono [of ?w 10000 ?f] b v w by auto
  show ?thesis
    using split_arith [OF fees fw parts(1) v(1)] unfolding reward_exact [OF assms] by blast
qed

definition sample_entry :: ValidatorEntry where
  "sample_entry = ValidatorEntry_new\<lparr>ve_validatorId := 7, ve_stakeAmount := 600 * COIN,
     ve_totalDelegated := 400 * COIN, ve_poolFeeRate := 1000\<rparr>"

theorem reward_split_conserves_witness:
  "\<exists>v d. CalculateValidatorReward sample_entry 8333333 = Some v \<and>
     CalculateDelegatorsReward sample_entry 8333333 = Some d \<and> v + d \<in> {8333332, 8333333}"
proof -
  have "split_fits sample_entry 8333333"
    by (simp add: split_fits_def sample_entry_def ValidatorEntry_new_def COIN_def)
  from reward_split_conserves [OF this] show ?thesis by fastforce
qed

text \<open>
  The subsidy of the main network stays above 922337 satoshi for its first four halving periods,
  and such a reward times the minimum validator stake is beyond 64 bits.
\<close>

lemma main_subsidy_large:
  assumes "0 < h" and "h \<le> 504000000" and "GetBlockSubsidy h CMainParams = Some R"
  shows "922337 < R"
proof -
  have "0 \<le> (h - 1) div 126000000" "(h - 1) div 126000000 \<le> 3"
    using assms(1,2) by (auto simp: pos_imp_zdiv_nonneg_iff)
  then have "(h - 1) div 126000000 \<in> {0, 1, 2, 3}" by auto
  then show ?thesis using assms by (auto simp: main_subsidy)
qed

lemma stake_product_large:
  assumes "922337 < R" and "10000000000000 \<le> s"
  shows "\<not> fits 64 (R * s)"
proof -
  have "922338 * 10000000000000 \<le> R * s" using assms by (intro mult_mono) auto
  then show ?thesis by (simp add: fits_def)
qed

text \<open>
  C27. On the main network the split of a block reward overflows for every validator that the
  minimum stake admits. For every block of the first four halving periods, every stake of at least
  \<^verbatim>\<open>nMinValidatorStake\<close> and every positive delegated total, the product of the block subsidy and the
  stake does not fit a 64-bit \<^verbatim>\<open>CAmount\<close>, and \<^verbatim>\<open>CalculateValidatorReward\<close> has no defined value.
\<close>

theorem reward_split_overflows_mainnet:
  assumes "0 < h" and "h \<le> 504000000" and "GetBlockSubsidy h CMainParams = Some R"
    and "nMinValidatorStake CMainParams \<le> ve_stakeAmount e" and "0 < ve_totalDelegated e"
  shows "\<not> fits 64 (R * ve_stakeAmount e) \<and> CalculateValidatorReward e R = None"
proof -
  have s: "10000000000000 \<le> ve_stakeAmount e" using assms(4) by (simp add: main_stake_reward)
  with main_subsidy_large [OF assms(1-3)] have "\<not> fits 64 (R * ve_stakeAmount e)"
    by (rule stake_product_large)
  then show ?thesis using assms(5) s by (simp add: CalculateValidatorReward_def amount64_def)
qed

theorem reward_split_overflows_mainnet_witness:
  "\<exists>R. GetBlockSubsidy 504000000 CMainParams = Some R \<and>
     CalculateValidatorReward (sample_entry\<lparr>ve_stakeAmount := 100000 * COIN\<rparr>) R = None"
proof -
  obtain R where R: "GetBlockSubsidy 504000000 CMainParams = Some R" by (simp add: main_subsidy)
  then show ?thesis
    using reward_split_overflows_mainnet [of 504000000 R "sample_entry\<lparr>ve_stakeAmount := 100000 * COIN\<rparr>"]
    by (simp add: main_stake_reward sample_entry_def ValidatorEntry_new_def COIN_def)
qed

section \<open>Effect of the operations\<close>

lemma vdb_run: "\<not> cs_validators db \<Longrightarrow> vdb_lock (\<lambda>d. Some (F d)) db =
   Some (fst (F (db\<lparr>cs_validators := True\<rparr>)), snd (F (db\<lparr>cs_validators := True\<rparr>))\<lparr>cs_validators := False\<rparr>)"
  by (simp add: LOCK_def split: prod.splits)

lemma vdb_runE:
  assumes "vdb_lock (\<lambda>d. Some (F d)) db = Some (r, db')"
  obtains "\<not> cs_validators db" and "r = fst (F (db\<lparr>cs_validators := True\<rparr>))"
    and "db' = snd (F (db\<lparr>cs_validators := True\<rparr>))\<lparr>cs_validators := False\<rparr>"
  using assms by (auto simp: LOCK_def split: if_splits prod.splits)

lemma vdb_unlock [simp]: "\<not> cs_validators db \<Longrightarrow> db\<lparr>cs_validators := False\<rparr> = db"
  by simp

text \<open>The database after one entry is replaced; nothing else changes.\<close>

definition set_entry :: "CKeyID \<Rightarrow> ValidatorEntry \<Rightarrow> ValidatorDB \<Rightarrow> ValidatorDB" where
  "set_entry k e db = db\<lparr>validators := om_put k e (validators db)\<rparr>"

lemma set_entry_lookup [simp]:
  "map_of (validators (set_entry k e db)) i = (if i = k then Some e else map_of (validators db) i)"
  "cs_validators (set_entry k e db) = cs_validators db" "vdb_currentHeight (set_entry k e db) = vdb_currentHeight db"
  "vdb_params (set_entry k e db) = vdb_params db" "vdb_outpointIndex (set_entry k e db) = vdb_outpointIndex db"
  by (simp_all add: set_entry_def store)

lemma ProcessUpdate_spec:
  assumes "\<not> cs_validators db"
  shows "ValidatorDB_ProcessUpdate C u db = Some
    (case map_of (validators db) (vu_validatorId u) of
       None \<Rightarrow> (False, db)
     | Some e \<Rightarrow>
         (if ValidatorUpdate_Verify C (ve_validatorPubKey e) u
          then (case apply_update (vdb_params db) (vdb_currentHeight db) u e of
                  None \<Rightarrow> (False, db) | Some e' \<Rightarrow> (True, set_entry (vu_validatorId u) e' db))
          else (False, db)))"
  using assms
  by (simp add: ValidatorDB_ProcessUpdate_def vdb_run put_validator_def set_entry_def split: option.split)

lemma modify_spec:
  assumes "\<not> cs_validators db" and "\<And>d b. f (d\<lparr>cs_validators := b\<rparr>) = f d"
  shows "modify_validator k f db = Some
    (case map_of (validators db) k of
       None \<Rightarrow> (False, db)
     | Some e \<Rightarrow> (case f db e of None \<Rightarrow> (False, db) | Some e' \<Rightarrow> (True, set_entry k e' db)))"
  using assms
  by (simp add: modify_validator_def vdb_run put_validator_def set_entry_def split: option.split)

lemma RegisterValidator_key_unchecked:
  "map_option fst (ValidatorDB_RegisterValidator (e\<lparr>ve_validatorPubKey := k\<rparr>) db) =
     map_option fst (ValidatorDB_RegisterValidator e db)"
  by (simp add: ValidatorDB_RegisterValidator_def LOCK_def Let_def)

text \<open>
  C28. An update must be signed with the key the registered entry stores: a call of
  \<^verbatim>\<open>ProcessUpdate\<close> that changes the database at all names a registered validator, carries a
  signature that verifies under the \<^verbatim>\<open>validatorPubKey\<close> of its entry over the hash of all fields of the
  update, and changes no other entry, no index and no height. Whether that key belongs to the
  identifier of the entry is not compared anywhere, see \<^verbatim>\<open>RegisterValidator_key_unchecked\<close>.
\<close>

theorem ProcessUpdate_authorised:
  assumes "ValidatorDB_ProcessUpdate C u db = Some (r, db')" and "db' \<noteq> db"
  shows "\<exists>e e'. map_of (validators db) (vu_validatorId u) = Some e \<and> r \<and>
    CPubKey_Verify C (ve_validatorPubKey e) (Hash C (ValidatorUpdate_preimage u)) (vu_signature u) \<and>
    validators db' = om_put (vu_validatorId u) e' (validators db) \<and>
    ve_validatorId e' = ve_validatorId e \<and> ve_validatorPubKey e' = ve_validatorPubKey e \<and>
    ve_totalDelegated e' = ve_totalDelegated e \<and>
    vdb_outpointIndex db' = vdb_outpointIndex db \<and> vdb_currentHeight db' = vdb_currentHeight db"
proof -
  have free: "\<not> cs_validators db"
    using assms(1) by (auto simp: ValidatorDB_ProcessUpdate_def elim: vdb_runE)
  from assms obtain e e' where e: "map_of (validators db) (vu_validatorId u) = Some e"
    and v: "ValidatorUpdate_Verify C (ve_validatorPubKey e) u"
    and a: "apply_update (vdb_params db) (vdb_currentHeight db) u e = Some e'"
    and r: "r" "db' = set_entry (vu_validatorId u) e' db"
    unfolding ProcessUpdate_spec [OF free] by (auto split: option.splits if_splits)
  from a have "ve_validatorId e' = ve_validatorId e \<and> ve_validatorPubKey e' = ve_validatorPubKey e \<and>
    ve_totalDelegated e' = ve_totalDelegated e"
    by (auto simp: apply_update_def split: ValidatorUpdateType.splits if_splits)
  with e v r show ?thesis
    by (auto simp: set_entry_def ValidatorUpdate_Verify_def ValidatorUpdate_GetHash_def)
qed

text \<open>A database with one registered validator and a signed change of its fee.\<close>

definition sample_validator :: ValidatorEntry where
  "sample_validator = ValidatorEntry_new\<lparr>ve_validatorId := 7, ve_stakeAmount := 100000 * COIN,
     ve_poolFeeRate := 1000, ve_stakeOutpoint := COutPoint 5 0\<rparr>"

definition sample_vdb :: ValidatorDB where
  "sample_vdb = (ValidatorDB_new CMainParams)\<lparr>validators := [(7, sample_validator)],
     vdb_outpointIndex := [(COutPoint 5 0, 7)]\<rparr>"

definition any_crypto :: Crypto where
  "any_crypto = toy_crypto\<lparr>CPubKey_Verify := \<lambda>pk h s. s = [1]\<rparr>"

definition sample_update :: "ValidatorUpdateType \<Rightarrow> int \<Rightarrow> ValidatorUpdate" where
  "sample_update t x = \<lparr>vu_validatorId = 7, vu_updateType = t, vu_newValue = x, vu_newName = [],
     vu_updateHeight = 0, vu_signature = [1]\<rparr>"

lemmas sample_defs = sample_vdb_def sample_validator_def ValidatorDB_new_def ValidatorEntry_new_def
  any_crypto_def sample_update_def

lemma sample_registered: "ValidatorDB_RegisterValidator sample_validator (ValidatorDB_new CMainParams) =
    Some (True, sample_vdb)"
  by (simp add: ValidatorDB_RegisterValidator_def vdb_run put_validator_def vdb_consts main_stake_reward
      COutPoint_IsNull_def sample_defs COIN_def)

lemma sample_fee_update:
  "ValidatorDB_ProcessUpdate any_crypto (sample_update UPDATE_FEE 250) sample_vdb =
     Some (True, set_entry 7 (sample_validator\<lparr>ve_poolFeeRate := 250\<rparr>) sample_vdb)"
  by (simp add: ProcessUpdate_spec ValidatorUpdate_Verify_def apply_update_def vdb_consts sample_defs)

theorem ProcessUpdate_authorised_witness:
  "\<exists>e. map_of (validators sample_vdb) 7 = Some e \<and>
     CPubKey_Verify any_crypto (ve_validatorPubKey e)
       (Hash any_crypto (ValidatorUpdate_preimage (sample_update UPDATE_FEE 250))) [1]"
proof -
  have "set_entry 7 (sample_validator\<lparr>ve_poolFeeRate := 250\<rparr>) sample_vdb \<noteq> sample_vdb"
    by (simp add: set_entry_def sample_defs)
  from ProcessUpdate_authorised [OF sample_fee_update this] show ?thesis
    by (simp add: sample_update_def) blast
qed

theorem ValidatorDB_reachable_invariant_witness:
  "vdb_reachable toy_crypto CMainParams sample_vdb \<and> vdb_inv sample_vdb"
proof -
  have "vdb_reachable toy_crypto CMainParams sample_vdb"
    by (rule vdb_reachable.step [OF vdb_reachable.init vdb_step.register [OF sample_registered]])
  then show ?thesis using ValidatorDB_reachable_invariant [of toy_crypto CMainParams sample_vdb] by simp
qed

section \<open>Status, jail and stake\<close>

definition status_of :: "ValidatorDB \<Rightarrow> CKeyID \<Rightarrow> ValidatorStatus option" where
  "status_of db k = map_option ve_status (map_of (validators db) k)"

lemma status_of_set_entry [simp]:
  "status_of (set_entry k e db) i = (if i = k then Some (ve_status e) else status_of db i)"
  by (simp add: status_of_def)

lemma apply_update_activates:
  assumes "apply_update p h u e = Some e'" and "ve_status e \<noteq> VS_ACTIVE" and "ve_status e' = VS_ACTIVE"
  shows "vu_updateType u = REACTIVATE \<and>
    (ve_status e = VS_INACTIVE \<or> ve_status e = VS_JAILED \<and> ve_jailReleaseHeight e \<le> h)"
  using assms by (auto simp: apply_update_def split: ValidatorUpdateType.splits if_splits)

text \<open>
  A signed update makes a validator active only by \<^verbatim>\<open>REACTIVATE\<close>, only for the
  validator it names, and only from the inactive status or from jail once the release height is
  reached; in particular a pending validator is never activated by an update.
\<close>

theorem ProcessUpdate_activation_guard:
  assumes "ValidatorDB_ProcessUpdate C u db = Some (r, db')"
    and "map_of (validators db) k = Some e" and "ve_status e \<noteq> VS_ACTIVE"
    and "status_of db' k = Some VS_ACTIVE"
  shows "vu_validatorId u = k \<and> vu_updateType u = REACTIVATE \<and> ValidatorUpdate_Verify C (ve_validatorPubKey e) u \<and>
    (ve_status e = VS_INACTIVE \<or> ve_status e = VS_JAILED \<and> ve_jailReleaseHeight e \<le> vdb_currentHeight db)"
proof -
  have free: "\<not> cs_validators db"
    using assms(1) by (auto simp: ValidatorDB_ProcessUpdate_def elim: vdb_runE)
  from assms show ?thesis
    unfolding ProcessUpdate_spec [OF free]
    by (auto simp: status_of_def split: option.splits if_splits dest: apply_update_activates)
qed

definition jailed_vdb :: "int \<Rightarrow> int \<Rightarrow> ValidatorDB" where
  "jailed_vdb height release = set_entry 7
     (sample_validator\<lparr>ve_status := VS_JAILED, ve_jailReleaseHeight := release\<rparr>)
     (sample_vdb\<lparr>vdb_currentHeight := height\<rparr>)"

theorem ProcessUpdate_activation_guard_witness:
  "\<exists>db'. ValidatorDB_ProcessUpdate any_crypto (sample_update REACTIVATE 0) (jailed_vdb 500 400) = Some (True, db') \<and>
     status_of db' 7 = Some VS_ACTIVE \<and> (400::int) \<le> vdb_currentHeight (jailed_vdb 500 400)"
proof -
  let ?e = "sample_validator\<lparr>ve_status := VS_JAILED, ve_jailReleaseHeight := 400\<rparr>"
  let ?db' = "set_entry 7 (?e\<lparr>ve_status := VS_ACTIVE\<rparr>) (jailed_vdb 500 400)"
  have run: "ValidatorDB_ProcessUpdate any_crypto (sample_update REACTIVATE 0) (jailed_vdb 500 400) = Some (True, ?db')"
    by (simp add: ProcessUpdate_spec ValidatorUpdate_Verify_def apply_update_def jailed_vdb_def sample_defs)
  have pre: "map_of (validators (jailed_vdb 500 400)) 7 = Some ?e" "ve_status ?e \<noteq> VS_ACTIVE"
    "status_of ?db' 7 = Some VS_ACTIVE"
    by (simp_all add: jailed_vdb_def)
  from ProcessUpdate_activation_guard [OF run pre] run pre(3) show ?thesis by auto
qed

text \<open>
  The jail term can be escaped all the same. A validator whose last activity lies at least the
  unbonding period back deactivates, is moved to inactive by the next block, and reactivates: the
  three calls succeed and leave it active below its release height, whatever that height is.
\<close>

theorem jail_escape:
  assumes free: "\<not> cs_validators db" and e: "map_of (validators db) k = Some e"
    and jailed: "ve_status e = VS_JAILED" and locked: "h < ve_jailReleaseHeight e"
    and old: "UNBONDING_PERIOD \<le> h - ve_lastActiveHeight e" "h - ve_lastActiveHeight e < 2 ^ 31"
    and u1: "vu_validatorId u1 = k" "vu_updateType u1 = DEACTIVATE" "ValidatorUpdate_Verify C (ve_validatorPubKey e) u1"
    and u2: "vu_validatorId u2 = k" "vu_updateType u2 = REACTIVATE" "ValidatorUpdate_Verify C (ve_validatorPubKey e) u2"
  shows "\<exists>d1 d2 d3 e3. ValidatorDB_ProcessUpdate C u1 db = Some (True, d1) \<and>
    ValidatorDB_ProcessBlock h d1 = Some ((), d2) \<and> ValidatorDB_ProcessUpdate C u2 d2 = Some (True, d3) \<and>
    map_of (validators d3) k = Some e3 \<and> ve_status e3 = VS_ACTIVE \<and> vdb_currentHeight d3 < ve_jailReleaseHeight e3"
proof -
  let ?e1 = "e\<lparr>ve_status := VS_UNBONDING\<rparr>"
  let ?e2 = "e\<lparr>ve_status := VS_INACTIVE\<rparr>"
  let ?d1 = "set_entry k ?e1 db"
  let ?d2 = "?d1\<lparr>vdb_currentHeight := h, validators := om_vals (finish_unbonding h) (validators ?d1)\<rparr>"
  let ?d3 = "set_entry k (e\<lparr>ve_status := VS_ACTIVE\<rparr>) ?d2"
  have s1: "ValidatorDB_ProcessUpdate C u1 db = Some (True, ?d1)"
    using e u1 by (simp add: ProcessUpdate_spec free apply_update_def)
  have s2: "ValidatorDB_ProcessBlock h ?d1 = Some ((), ?d2)"
    using free by (simp add: ValidatorDB_ProcessBlock_def vdb_run)
  have wait: "UNBONDING_PERIOD \<le> s32 (h - ve_lastActiveHeight e)"
    using old by (subst s32_id) (auto simp: UNBONDING_PERIOD_def)
  have e2: "map_of (validators ?d2) k = Some ?e2"
    using wait by (simp add: map_of_om_vals finish_unbonding_def)
  have s3: "ValidatorDB_ProcessUpdate C u2 ?d2 = Some (True, ?d3)"
    using e2 u2 free by (simp add: ProcessUpdate_spec apply_update_def ValidatorUpdate_Verify_def)
  have "map_of (validators ?d3) k = Some (e\<lparr>ve_status := VS_ACTIVE\<rparr>)" by simp
  moreover have "vdb_currentHeight ?d3 < ve_jailReleaseHeight (e\<lparr>ve_status := VS_ACTIVE\<rparr>)" using locked by simp
  moreover have "ve_status (e\<lparr>ve_status := VS_ACTIVE\<rparr>) = VS_ACTIVE" by simp
  ultimately show ?thesis using s1 s2 s3 by blast
qed

theorem jail_escape_witness:
  "\<exists>d1 d2 d3 e3. ValidatorDB_ProcessUpdate any_crypto (sample_update DEACTIVATE 0) (jailed_vdb 299999 999999) = Some (True, d1) \<and>
    ValidatorDB_ProcessBlock 300000 d1 = Some ((), d2) \<and>
    ValidatorDB_ProcessUpdate any_crypto (sample_update REACTIVATE 0) d2 = Some (True, d3) \<and>
    map_of (validators d3) 7 = Some e3 \<and> ve_status e3 = VS_ACTIVE \<and> vdb_currentHeight d3 < ve_jailReleaseHeight e3"
  by (rule jail_escape [of _ _ "sample_validator\<lparr>ve_status := VS_JAILED, ve_jailReleaseHeight := 999999\<rparr>"])
    (simp_all add: jailed_vdb_def sample_defs UNBONDING_PERIOD_def ValidatorUpdate_Verify_def)

text \<open>
  A signed update never takes the stake of a validator below the network minimum, provided an
  \<^verbatim>\<open>INCREASE_STAKE\<close> really increases: its amount is not negative and the sum fits 64 bits.
\<close>

theorem ProcessUpdate_stake_floor:
  assumes "ValidatorDB_ProcessUpdate C u db = Some (r, db')"
    and "map_of (validators db) k = Some e" and "nMinValidatorStake (vdb_params db) \<le> ve_stakeAmount e"
    and "vu_updateType u = INCREASE_STAKE \<Longrightarrow>
      0 \<le> vu_newValue u \<and> fits 64 (ve_stakeAmount e) \<and> fits 64 (ve_stakeAmount e + vu_newValue u)"
    and "map_of (validators db') k = Some e'"
  shows "nMinValidatorStake (vdb_params db) \<le> ve_stakeAmount e'"
proof -
  have free: "\<not> cs_validators db"
    using assms(1) by (auto simp: ValidatorDB_ProcessUpdate_def elim: vdb_runE)
  have "nMinValidatorStake (vdb_params db) \<le> ve_stakeAmount e'"
    if "apply_update (vdb_params db) (vdb_currentHeight db) u e = Some e'"
    using that assms(3,4)
    by (auto simp: apply_update_def wrap_id split: ValidatorUpdateType.splits if_splits)
  with assms(1,2,3,5) show ?thesis
    unfolding ProcessUpdate_spec [OF free] by (auto split: option.splits if_splits)
qed

theorem ProcessUpdate_stake_floor_witness:
  "\<exists>db' e'. ValidatorDB_ProcessUpdate any_crypto (sample_update INCREASE_STAKE 5) sample_vdb = Some (True, db') \<and>
     map_of (validators db') 7 = Some e' \<and> nMinValidatorStake CMainParams \<le> ve_stakeAmount e'"
proof -
  let ?e' = "sample_validator\<lparr>ve_stakeAmount := 10000000000005\<rparr>"
  have run: "ValidatorDB_ProcessUpdate any_crypto (sample_update INCREASE_STAKE 5) sample_vdb =
      Some (True, set_entry 7 ?e' sample_vdb)"
    by (simp add: ProcessUpdate_spec ValidatorUpdate_Verify_def apply_update_def sample_defs COIN_def s64_id)
  have "nMinValidatorStake (vdb_params sample_vdb) \<le> ve_stakeAmount ?e'"
    by (rule ProcessUpdate_stake_floor [OF run, of 7 sample_validator])
      (simp_all add: sample_defs main_stake_reward COIN_def fits_def set_entry_def)
  with run show ?thesis by (auto simp: sample_vdb_def ValidatorDB_new_def set_entry_def)
qed

text \<open>
  Without that proviso the stake can be set to anything: \<^verbatim>\<open>INCREASE_STAKE\<close> does not
  check the sign of its amount, so a signed update takes a validator to any target stake, zero
  and negative ones included, and is accepted.
\<close>

theorem INCREASE_STAKE_reaches_any_value:
  assumes "\<not> cs_validators db" and "map_of (validators db) k = Some e" and "fits 64 target"
    and "vu_validatorId u = k" and "vu_updateType u = INCREASE_STAKE"
    and "vu_newValue u = target - ve_stakeAmount e"
    and "ValidatorUpdate_Verify C (ve_validatorPubKey e) u"
  shows "ValidatorDB_ProcessUpdate C u db = Some (True, set_entry k (e\<lparr>ve_stakeAmount := target\<rparr>) db)"
  using assms by (simp add: ProcessUpdate_spec apply_update_def wrap_id)

theorem INCREASE_STAKE_reaches_any_value_witness:
  "ValidatorDB_ProcessUpdate any_crypto (sample_update INCREASE_STAKE (- 10000000000001)) sample_vdb =
     Some (True, set_entry 7 (sample_validator\<lparr>ve_stakeAmount := - 1\<rparr>) sample_vdb)"
  by (rule INCREASE_STAKE_reaches_any_value)
    (simp_all add: sample_defs COIN_def fits_def ValidatorUpdate_Verify_def)

section \<open>Lookups and listings\<close>

text \<open>
  When the stake of a validator moves to another output, the lookup by the new output returns
  the validator with that output, the lookup by the old one finds nothing, every other output
  leads to the same validator identifier as before, and no other entry changes.
\<close>

theorem UpdateStakeOutpoint_moves:
  assumes "\<not> cs_validators db" and "map_of (validators db) k = Some e"
    and "\<not> COutPoint_IsNull p" and "\<not> COutPoint_IsNull (ve_stakeOutpoint e)" and "p \<noteq> ve_stakeOutpoint e"
  shows "\<exists>db'. UpdateStakeOutpoint k p db = Some (True, db') \<and>
    GetValidatorByOutpoint p db' = Some (Some (e\<lparr>ve_stakeOutpoint := p\<rparr>)) \<and>
    GetValidatorByOutpoint (ve_stakeOutpoint e) db' = Some None \<and>
    IsValidatorStake p db' = Some True \<and> IsValidatorStake (ve_stakeOutpoint e) db' = Some False \<and>
    (\<forall>q. q \<noteq> p \<longrightarrow> q \<noteq> ve_stakeOutpoint e \<longrightarrow> map_of (vdb_outpointIndex db') q = map_of (vdb_outpointIndex db) q) \<and>
    (\<forall>i. i \<noteq> k \<longrightarrow> map_of (validators db') i = map_of (validators db) i)"
  using assms
  by (simp add: UpdateStakeOutpoint_def vdb_run put_validator_def reindex_def store Let_def
      GetValidatorByOutpoint_def IsValidatorStake_def LOCK_const_def)

theorem UpdateStakeOutpoint_moves_witness:
  "\<exists>db'. UpdateStakeOutpoint 7 (COutPoint 6 1) sample_vdb = Some (True, db') \<and>
     IsValidatorStake (COutPoint 6 1) db' = Some True \<and> IsValidatorStake (COutPoint 5 0) db' = Some False"
  using UpdateStakeOutpoint_moves [of sample_vdb 7 sample_validator "COutPoint 6 1"]
  by (auto simp: sample_defs COutPoint_IsNull_def)

lemma active_count_fold:
  "fold (\<lambda>e count. if P (snd e) then count + 1 else count) m n = n + length (filter P (map snd m))"
  by (induction m arbitrary: n) auto

lemma sorted_desc: "sorted (map (\<lambda>e. - f e) xs) \<longleftrightarrow> sorted_wrt (\<lambda>a b. f b \<le> (f a :: int)) xs"
  by (simp add: sorted_map)

text \<open>
  The two listings return exactly the active validators, the second restricted to a maximum
  fee, each as often as it is stored, ordered by descending total stake and by ascending fee;
  and the count of active validators is the length of the list of active ones.
\<close>

theorem validator_listings:
  assumes "\<not> cs_validators db"
  shows "\<exists>xs ys zs. GetValidatorsByStake db = Some xs \<and> GetValidatorsByMaxFee fee db = Some ys \<and>
    ValidatorDB_GetActiveValidators db = Some zs \<and>
    mset xs = {# e \<in># mset (map snd (validators db)). ve_status e = VS_ACTIVE #} \<and>
    mset ys = {# e \<in># mset (map snd (validators db)). ve_status e = VS_ACTIVE \<and> ve_poolFeeRate e \<le> fee #} \<and>
    sorted_wrt (\<lambda>a b. GetTotalStake b \<le> GetTotalStake a) xs \<and>
    sorted_wrt (\<lambda>a b. ve_poolFeeRate a \<le> ve_poolFeeRate b) ys \<and>
    mset zs = mset xs \<and> GetActiveValidatorCount db = Some (length zs)"
proof -
  let ?xs = "sort_key (\<lambda>e. - GetTotalStake e) (active_entries db)"
  let ?ys = "sort_key ve_poolFeeRate (filter (\<lambda>e. ve_poolFeeRate e \<le> fee) (active_entries db))"
  have "sorted (map (\<lambda>e. - GetTotalStake e) ?xs)" "sorted (map ve_poolFeeRate ?ys)"
    by (rule sorted_sort_key)+
  then have "sorted_wrt (\<lambda>a b. GetTotalStake b \<le> GetTotalStake a) ?xs"
    "sorted_wrt (\<lambda>a b. ve_poolFeeRate a \<le> ve_poolFeeRate b) ?ys"
    by (simp_all only: sorted_desc sorted_map)
  moreover have "GetActiveValidatorCount db = Some (length (active_entries db))"
    using assms active_count_fold [of "\<lambda>e. ve_status e = VS_ACTIVE" "validators db" 0]
    by (simp add: GetActiveValidatorCount_def LOCK_const_def active_entries_def del: filter_map)
  ultimately show ?thesis
    using assms
    by (simp add: GetValidatorsByStake_def GetValidatorsByMaxFee_def ValidatorDB_GetActiveValidators_def
        LOCK_const_def active_entries_def conj_commute filter_filter_mset del: filter_map)
qed

theorem validator_listings_witness:
  "\<exists>xs. GetValidatorsByStake sample_vdb = Some xs \<and> sorted_wrt (\<lambda>a b. GetTotalStake b \<le> GetTotalStake a) xs"
  using validator_listings [of sample_vdb 0] by (auto simp: sample_defs)

section \<open>Persistence\<close>

definition status_byte :: "ValidatorStatus \<Rightarrow> nat" where
  "status_byte st = (case st of VS_PENDING \<Rightarrow> 0 | VS_ACTIVE \<Rightarrow> 1 | VS_INACTIVE \<Rightarrow> 2 | VS_JAILED \<Rightarrow> 3
     | VS_UNBONDING \<Rightarrow> 4 | VS_OTHER b \<Rightarrow> unat b)"

definition status_of_byte :: "nat \<Rightarrow> ValidatorStatus" where
  "status_of_byte n = (if n = 0 then VS_PENDING else if n = 1 then VS_ACTIVE else if n = 2 then VS_INACTIVE
     else if n = 3 then VS_JAILED else if n = 4 then VS_UNBONDING else VS_OTHER (of_nat n))"

definition status_ok :: "ValidatorStatus \<Rightarrow> bool" where
  "status_ok st \<longleftrightarrow> (case st of VS_OTHER b \<Rightarrow> 5 \<le> unat b | _ \<Rightarrow> True)"

lemma status_byte_less: "status_byte st < 2 ^ 8"
proof (cases st)
  case (VS_OTHER b)
  then show ?thesis using unsigned_less [of b] by (simp add: status_byte_def)
qed (simp_all add: status_byte_def)

lemma status_of_byte_of: "status_ok st \<Longrightarrow> status_of_byte (status_byte st) = st"
  by (cases st) (auto simp: status_byte_def status_of_byte_def status_ok_def)

text \<open>\<^verbatim>\<open>SERIALIZE_METHODS(ValidatorEntry, obj)\<close>.\<close>

definition ser_ValidatorEntry :: "ValidatorEntry \<Rightarrow> byte list" where
  "ser_ValidatorEntry e =
     ser_blob 20 (ve_validatorId e) @ ser_pubkey (ve_validatorPubKey e) @ ser_int 8 (ve_stakeAmount e) @
     ser_int 8 (ve_poolFeeRate e) @ ser_int 4 (ve_registrationHeight e) @ ser_int 4 (ve_lastActiveHeight e) @
     ser_u8 (status_byte (ve_status e)) @ ser_str (ve_validatorName e) @
     ser_outpoint (ve_stakeOutpoint e) @ ser_int 4 (ve_jailReleaseHeight e) @ ser_int 8 (ve_totalDelegated e) @
     ser_int 4 (ve_delegatorCount e)"

definition unser_ValidatorEntry :: "ValidatorEntry reader" where
  "unser_ValidatorEntry =
     rd_bind (unser_blob 20) (\<lambda>vid. rd_bind unser_pubkey (\<lambda>pk. rd_bind (unser_int 8) (\<lambda>stake.
     rd_bind (unser_int 8) (\<lambda>fee. rd_bind (unser_int 4) (\<lambda>reg. rd_bind (unser_int 4) (\<lambda>act.
     rd_bind unser_u8 (\<lambda>st. rd_bind unser_str (\<lambda>name. rd_bind unser_outpoint (\<lambda>outp.
     rd_bind (unser_int 4) (\<lambda>jail. rd_bind (unser_int 8) (\<lambda>del. rd_bind (unser_int 4) (\<lambda>cnt.
     rd_ret \<lparr>ve_validatorId = vid, ve_validatorPubKey = pk, ve_stakeAmount = stake, ve_poolFeeRate = fee,
       ve_registrationHeight = reg, ve_lastActiveHeight = act, ve_status = status_of_byte st,
       ve_validatorName = name, ve_stakeOutpoint = outp, ve_jailReleaseHeight = jail,
       ve_totalDelegated = del, ve_delegatorCount = cnt\<rparr>))))))))))))"

text \<open>The values the C++ types of the fields can hold.\<close>

definition ValidatorEntry_typed :: "ValidatorEntry \<Rightarrow> bool" where
  "ValidatorEntry_typed e \<longleftrightarrow> CPubKey_ok (ve_validatorPubKey e) \<and> fits 64 (ve_stakeAmount e) \<and>
     fits 64 (ve_poolFeeRate e) \<and> fits 32 (ve_registrationHeight e) \<and> fits 32 (ve_lastActiveHeight e) \<and>
     status_ok (ve_status e) \<and> length (ve_validatorName e) \<le> MAX_SIZE \<and> fits 32 (ve_jailReleaseHeight e) \<and>
     fits 64 (ve_totalDelegated e) \<and> fits 32 (ve_delegatorCount e)"

interpretation ventry: codec ser_ValidatorEntry unser_ValidatorEntry ValidatorEntry_typed
  by unfold_locales
    (simp add: ser_ValidatorEntry_def unser_ValidatorEntry_def ValidatorEntry_typed_def rd_bind_def rd_ret_def
      read_backs status_byte_less [simplified] status_of_byte_of)

interpretation ventries: codec_pair "ser_blob 20 :: CKeyID \<Rightarrow> byte list" "unser_blob 20" "\<lambda>_. True"
    ser_ValidatorEntry unser_ValidatorEntry ValidatorEntry_typed
  by unfold_locales

text \<open>
  \<^verbatim>\<open>Serialize\<close> writes the map; \<^verbatim>\<open>Unserialize\<close> reads it and rebuilds the index. An
  exception of the stream leaves the function; the state it leaves behind is not described.
\<close>

definition ValidatorDB_Serialize :: "ValidatorDB \<Rightarrow> byte list option" where
  "ValidatorDB_Serialize db =
     LOCK_const cs_validators db (ser_map (ser_blob 20) ser_ValidatorEntry (validators db))"

definition ValidatorDB_Unserialize :: "byte list \<Rightarrow> ValidatorDB \<Rightarrow> (ser_error + (ValidatorDB \<times> byte list)) option" where
  "ValidatorDB_Unserialize s db = LOCK_const cs_validators db
     (case unser_map (unser_blob 20) unser_ValidatorEntry s of
        Inl err \<Rightarrow> Inl err
      | Inr (m, rest) \<Rightarrow>
          Inr (db\<lparr>validators := m, vdb_outpointIndex := rebuild ve_stakeOutpoint m\<rparr>, rest))"

text \<open>
  A database that is written and read back is restored with its index: for a state that
  satisfies the invariant, whose outputs each belong to one validator and are all indexed, and
  whose fields are in the range of their types, reading what was written into any database with
  the same parameters gives the original validators and index.
\<close>

theorem ValidatorDB_roundtrip:
  assumes "vdb_inv db" and "\<not> cs_validators db" and "\<not> cs_validators db0"
    and "index_complete ve_stakeOutpoint (map_of (validators db)) (map_of (vdb_outpointIndex db))"
    and "\<forall>e \<in> set (validators db). ValidatorEntry_typed (snd e)" and "length (validators db) \<le> MAX_SIZE"
  shows "\<exists>s. ValidatorDB_Serialize db = Some s \<and>
    ValidatorDB_Unserialize (s @ rest) db0 =
      Some (Inr (db0\<lparr>validators := validators db, vdb_outpointIndex := vdb_outpointIndex db\<rparr>, rest))"
proof -
  have "unser_map (unser_blob 20) unser_ValidatorEntry
      (ser_map (ser_blob 20) ser_ValidatorEntry (validators db) @ rest) = Inr (validators db, rest)"
    using assms by (intro ventries.map_back) (auto simp: vdb_inv_def)
  moreover have "rebuild ve_stakeOutpoint (validators db) = vdb_outpointIndex db"
    using assms by (intro veidx.rebuild_restores) (auto simp: vdb_inv_def)
  ultimately show ?thesis
    using assms by (simp add: ValidatorDB_Serialize_def ValidatorDB_Unserialize_def LOCK_const_def)
qed

lemma sample_vdb_inv: "vdb_inv sample_vdb"
  by (auto simp: vdb_inv_def sample_defs om_wf_def ValidatorEntry_ok_def index_sound_def COutPoint_IsNull_def
      split: if_splits)

theorem ValidatorDB_roundtrip_witness:
  "\<exists>s. ValidatorDB_Serialize sample_vdb = Some s \<and>
    ValidatorDB_Unserialize (s @ [9]) (ValidatorDB_new CMainParams) = Some (Inr (sample_vdb, [9]))"
proof -
  have "\<exists>s. ValidatorDB_Serialize sample_vdb = Some s \<and>
    ValidatorDB_Unserialize (s @ [9]) (ValidatorDB_new CMainParams) =
      Some (Inr ((ValidatorDB_new CMainParams)\<lparr>validators := validators sample_vdb,
        vdb_outpointIndex := vdb_outpointIndex sample_vdb\<rparr>, [9]))"
    by (rule ValidatorDB_roundtrip [OF sample_vdb_inv])
      (simp_all add: sample_defs index_complete_def ValidatorEntry_typed_def CPubKey_ok_def fits_def COIN_def
        status_ok_def MAX_SIZE_def)
  then show ?thesis by (simp add: sample_vdb_def ValidatorDB_new_def)
qed

section \<open>Signed updates\<close>

definition ValidatorUpdate_fields :: "ValidatorUpdate \<Rightarrow> CKeyID \<times> nat \<times> int \<times> string \<times> int" where
  "ValidatorUpdate_fields u =
     (vu_validatorId u, updateType_byte (vu_updateType u), vu_newValue u, vu_newName u, vu_updateHeight u)"

definition ser_update_fields :: "CKeyID \<times> nat \<times> int \<times> string \<times> int \<Rightarrow> byte list" where
  "ser_update_fields = (\<lambda>(i, t, v, n, h).
     ser_blob 20 i @ ser_u8 t @ ser_int 8 v @ ser_str n @ ser_int 4 h)"

definition unser_update_fields :: "(CKeyID \<times> nat \<times> int \<times> string \<times> int) reader" where
  "unser_update_fields =
     rd_bind (unser_blob 20) (\<lambda>i. rd_bind unser_u8 (\<lambda>t. rd_bind (unser_int 8) (\<lambda>v.
     rd_bind unser_str (\<lambda>n. rd_bind (unser_int 4) (\<lambda>h. rd_ret (i, t, v, n, h))))))"

definition update_fields_ok :: "CKeyID \<times> nat \<times> int \<times> string \<times> int \<Rightarrow> bool" where
  "update_fields_ok = (\<lambda>(i, t, v, n, h). t < 2 ^ 8 \<and> fits 64 v \<and> length n \<le> MAX_SIZE \<and> fits 32 h)"

interpretation vumsg: signed_message ser_update_fields unser_update_fields update_fields_ok
    ValidatorUpdate_fields ValidatorUpdate_preimage
  by unfold_locales
    (auto simp: ser_update_fields_def unser_update_fields_def update_fields_ok_def rd_bind_def rd_ret_def
      read_backs [simplified] ValidatorUpdate_fields_def ValidatorUpdate_preimage_def)

text \<open>
  A signed update verifies under the signer's public key, and its signature commits to every
  field: another update, with fields in the range of their types, that hashes the same bytes has
  the same validator, type, value, name and height.
\<close>

theorem ValidatorUpdate_signature:
  assumes "sign_correct C" and "ValidatorUpdate_Sign C key u = (True, u')"
    and "update_fields_ok (ValidatorUpdate_fields u)" and "update_fields_ok (ValidatorUpdate_fields v)"
  shows "ValidatorUpdate_Verify C (CKey_GetPubKey C key) u' \<and>
    (ValidatorUpdate_preimage v = ValidatorUpdate_preimage u' \<longleftrightarrow>
       ValidatorUpdate_fields v = ValidatorUpdate_fields u)"
proof -
  from assms(2) obtain s where s: "CKey_Sign C key (ValidatorUpdate_GetHash C u) = Some s"
    and u': "u' = u\<lparr>vu_signature := s\<rparr>"
    by (auto simp: ValidatorUpdate_Sign_def split: option.splits)
  have pre: "ValidatorUpdate_preimage u' = ValidatorUpdate_preimage u"
    by (simp add: u' ValidatorUpdate_preimage_def)
  from assms(1) s have "ValidatorUpdate_Verify C (CKey_GetPubKey C key) u'"
    unfolding ValidatorUpdate_Verify_def ValidatorUpdate_GetHash_def pre by (simp add: u' sign_correct_def)
  moreover have "ValidatorUpdate_preimage v = ValidatorUpdate_preimage u \<longleftrightarrow>
      ValidatorUpdate_fields v = ValidatorUpdate_fields u"
    using vumsg.preimage_binds [OF assms(4,3)] by (auto simp: vumsg.preimage_fields)
  ultimately show ?thesis by (simp add: pre)
qed

theorem ValidatorUpdate_signature_witness:
  "ValidatorUpdate_Verify toy_crypto [2]
     (snd (ValidatorUpdate_Sign toy_crypto [2] (sample_update UPDATE_FEE 250)))"
proof -
  have "ValidatorUpdate_Sign toy_crypto [2] (sample_update UPDATE_FEE 250) =
      (True, snd (ValidatorUpdate_Sign toy_crypto [2] (sample_update UPDATE_FEE 250)))"
    by (simp add: ValidatorUpdate_Sign_def toy_crypto_def)
  from ValidatorUpdate_signature [OF toy_sign_correct this, of "sample_update UPDATE_FEE 250"]
  show ?thesis
    by (simp add: update_fields_ok_def ValidatorUpdate_fields_def sample_update_def updateType_byte_def
        fits_def MAX_SIZE_def) (simp add: toy_crypto_def)
qed

section \<open>Delegation totals\<close>

text \<open>
  Removing a delegation that was just added gives back the database as it was, as long as the
  totals stay in the range of their types and are not negative.
\<close>

theorem RemoveDelegation_undoes_AddDelegation:
  assumes "\<not> cs_validators db" and "om_wf (validators db)" and "map_of (validators db) k = Some e"
    and "0 \<le> ve_totalDelegated e" and "0 \<le> a" and "fits 64 (ve_totalDelegated e + a)"
    and "0 \<le> ve_delegatorCount e" and "fits 32 (ve_delegatorCount e + 1)"
  shows "\<exists>db1. AddDelegation k a db = Some (True, db1) \<and> db1 \<noteq> db \<and> RemoveDelegation k a db1 = Some (True, db)"
proof -
  let ?e1 = "e\<lparr>ve_totalDelegated := ve_totalDelegated e + a, ve_delegatorCount := ve_delegatorCount e + 1\<rparr>"
  have f: "fits 64 (ve_totalDelegated e)" "fits 32 (ve_delegatorCount e)"
    using assms by (auto simp: fits_def)
  have add: "AddDelegation k a db = Some (True, set_entry k ?e1 db)"
    using assms by (simp add: AddDelegation_def modify_spec wrap_id)
  have remv: "RemoveDelegation k a (set_entry k ?e1 db) = Some (True, set_entry k e (set_entry k ?e1 db))"
    using assms f by (simp add: RemoveDelegation_def modify_spec wrap_id)
  have restore: "om_put k e (om_put k ?e1 (validators db)) = validators db"
    using assms(2,3) by (intro om_ext) (auto simp: store)
  have "validators (set_entry k ?e1 db) \<noteq> validators db"
  proof
    assume "validators (set_entry k ?e1 db) = validators db"
    then have "map_of (validators (set_entry k ?e1 db)) k = map_of (validators db) k" by simp
    then have "ve_delegatorCount ?e1 = ve_delegatorCount e" using assms(3) by simp
    then show False by simp
  qed
  then have "set_entry k ?e1 db \<noteq> db" by metis
  moreover have "set_entry k e (set_entry k ?e1 db) = db"
    by (simp add: set_entry_def restore)
  ultimately show ?thesis using add remv by (metis (no_types, lifting))
qed

theorem RemoveDelegation_undoes_AddDelegation_witness:
  "\<exists>db1. AddDelegation 7 500 sample_vdb = Some (True, db1) \<and> RemoveDelegation 7 500 db1 = Some (True, sample_vdb)"
  using RemoveDelegation_undoes_AddDelegation [of sample_vdb 7 sample_validator 500]
  by (auto simp: sample_defs om_wf_def fits_def)

section \<open>Termination of the calls\<close>

text \<open>
  No member function of the validator database deadlocks on its own mutex: every one of them
  returns when its caller does not hold it, and releases it again.
\<close>

theorem ValidatorDB_calls_return:
  assumes "\<not> cs_validators db"
  shows "(\<exists>r d. ValidatorDB_RegisterValidator entry db = Some (r, d) \<and> \<not> cs_validators d) \<and>
    (\<exists>r d. ValidatorDB_ProcessUpdate C u db = Some (r, d) \<and> \<not> cs_validators d) \<and>
    (\<exists>r d. UpdateStakeOutpoint k p db = Some (r, d) \<and> \<not> cs_validators d) \<and>
    (\<exists>r d. SetValidatorStatus k st db = Some (r, d) \<and> \<not> cs_validators d) \<and>
    (\<exists>r d. JailValidator k n db = Some (r, d) \<and> \<not> cs_validators d) \<and>
    (\<exists>r d. UnjailValidator k db = Some (r, d) \<and> \<not> cs_validators d) \<and>
    (\<exists>r d. AddDelegation k a db = Some (r, d) \<and> \<not> cs_validators d) \<and>
    (\<exists>r d. RemoveDelegation k a db = Some (r, d) \<and> \<not> cs_validators d) \<and>
    (\<exists>r d. ValidatorDB_ProcessBlock h db = Some (r, d) \<and> \<not> cs_validators d)"
proof -
  have runs: "\<exists>r d. vdb_lock (\<lambda>d. Some (F d)) db = Some (r, d) \<and> \<not> cs_validators d"
    for F :: "ValidatorDB \<Rightarrow> 'x \<times> ValidatorDB"
    using vdb_run [OF assms, of F] by auto
  show ?thesis
    unfolding ValidatorDB_RegisterValidator_def ValidatorDB_ProcessUpdate_def UpdateStakeOutpoint_def
      modify_defs modify_validator_def ValidatorDB_ProcessBlock_def
    by (intro conjI runs)
qed

theorem ValidatorDB_calls_return_witness:
  "\<exists>r d. JailValidator 7 DEFAULT_JAIL_BLOCKS sample_vdb = Some (r, d) \<and> \<not> cs_validators d"
  using ValidatorDB_calls_return [of sample_vdb ValidatorEntry_new any_crypto "sample_update DEACTIVATE 0" 7]
  by (simp add: sample_defs)

end
