(* ===== verification/DelegationDB.thy ===== *)
theory DelegationDB
  imports ValidatorDB
begin

text \<open>
  The delegation database (validators/delegation.h and .cpp): stake that holders of coins lend to
  validators, indexed by delegator, by validator and by the output that holds it, with the rewards
  each delegation has earned. \<^verbatim>\<open>ProcessDelegation\<close> and \<^verbatim>\<open>ProcessUndelegation\<close>
  also adjust the validator's totals in the global validator database, which may be absent; their
  state is the pair of both databases.
\<close>

section \<open>Entries and requests\<close>

datatype DelegationStatus = DS_PENDING | DS_ACTIVE | DS_UNBONDING | DS_WITHDRAWN | DS_OTHER byte

definition DelegationStatusToString :: "DelegationStatus \<Rightarrow> string" where
  "DelegationStatusToString st =
     (case st of DS_PENDING \<Rightarrow> ''pending'' | DS_ACTIVE \<Rightarrow> ''active'' | DS_UNBONDING \<Rightarrow> ''unbonding''
      | DS_WITHDRAWN \<Rightarrow> ''withdrawn'' | DS_OTHER _ \<Rightarrow> ''unknown'')"

record DelegationEntry =
  de_delegatorId :: CKeyID
  de_validatorId :: CKeyID
  de_amount :: CAmount
  de_delegationHeight :: int
  de_lastRewardHeight :: int
  de_status :: DelegationStatus
  de_delegationOutpoint :: COutPoint
  de_unbondingStartHeight :: int
  de_pendingRewards :: CAmount


definition DelegationEntry_preimage :: "DelegationEntry \<Rightarrow> byte list" where
  "DelegationEntry_preimage e =
     ser_blob 20 (de_delegatorId e) @ ser_blob 20 (de_validatorId e) @ ser_int 4 (de_delegationHeight e)"

definition GetDelegationId :: "Crypto \<Rightarrow> DelegationEntry \<Rightarrow> uint256" where
  "GetDelegationId C e = Hash C (DelegationEntry_preimage e)"

record DelegationRequest =
  dr_delegatorId :: CKeyID
  dr_delegatorPubKey :: CPubKey
  dr_validatorId :: CKeyID
  dr_amount :: CAmount
  dr_height :: int
  dr_signature :: "byte list"

definition DelegationRequest_preimage :: "DelegationRequest \<Rightarrow> byte list" where
  "DelegationRequest_preimage r =
     ser_blob 20 (dr_delegatorId r) @ ser_pubkey (dr_delegatorPubKey r) @ ser_blob 20 (dr_validatorId r) @
     ser_int 8 (dr_amount r) @ ser_int 4 (dr_height r)"

definition DelegationRequest_GetHash :: "Crypto \<Rightarrow> DelegationRequest \<Rightarrow> uint256" where
  "DelegationRequest_GetHash C r = Hash C (DelegationRequest_preimage r)"

definition DelegationRequest_Sign :: "Crypto \<Rightarrow> CKey \<Rightarrow> DelegationRequest \<Rightarrow> bool \<times> DelegationRequest" where
  "DelegationRequest_Sign C key r =
     (case CKey_Sign C key (DelegationRequest_GetHash C r) of
        None \<Rightarrow> (False, r) | Some s \<Rightarrow> (True, r\<lparr>dr_signature := s\<rparr>))"

definition DelegationRequest_Verify :: "Crypto \<Rightarrow> DelegationRequest \<Rightarrow> bool" where
  "DelegationRequest_Verify C r \<longleftrightarrow>
     CPubKey_Verify C (dr_delegatorPubKey r) (DelegationRequest_GetHash C r) (dr_signature r)"

record UndelegationRequest =
  ur_delegatorId :: CKeyID
  ur_validatorId :: CKeyID
  ur_amount :: CAmount
  ur_height :: int
  ur_signature :: "byte list"

definition UndelegationRequest_preimage :: "UndelegationRequest \<Rightarrow> byte list" where
  "UndelegationRequest_preimage r =
     ser_blob 20 (ur_delegatorId r) @ ser_blob 20 (ur_validatorId r) @ ser_int 8 (ur_amount r) @
     ser_int 4 (ur_height r)"

definition UndelegationRequest_GetHash :: "Crypto \<Rightarrow> UndelegationRequest \<Rightarrow> uint256" where
  "UndelegationRequest_GetHash C r = Hash C (UndelegationRequest_preimage r)"

definition UndelegationRequest_Sign :: "Crypto \<Rightarrow> CKey \<Rightarrow> UndelegationRequest \<Rightarrow> bool \<times> UndelegationRequest" where
  "UndelegationRequest_Sign C key r =
     (case CKey_Sign C key (UndelegationRequest_GetHash C r) of
        None \<Rightarrow> (False, r) | Some s \<Rightarrow> (True, r\<lparr>ur_signature := s\<rparr>))"

definition UndelegationRequest_Verify :: "Crypto \<Rightarrow> CPubKey \<Rightarrow> UndelegationRequest \<Rightarrow> bool" where
  "UndelegationRequest_Verify C pubkey r \<longleftrightarrow>
     CPubKey_Verify C pubkey (UndelegationRequest_GetHash C r) (ur_signature r)"

record RewardClaimRequest =
  rr_delegatorId :: CKeyID
  rr_validatorId :: CKeyID
  rr_height :: int
  rr_signature :: "byte list"

definition RewardClaimRequest_preimage :: "RewardClaimRequest \<Rightarrow> byte list" where
  "RewardClaimRequest_preimage r =
     ser_blob 20 (rr_delegatorId r) @ ser_blob 20 (rr_validatorId r) @ ser_int 4 (rr_height r)"

definition RewardClaimRequest_GetHash :: "Crypto \<Rightarrow> RewardClaimRequest \<Rightarrow> uint256" where
  "RewardClaimRequest_GetHash C r = Hash C (RewardClaimRequest_preimage r)"

definition RewardClaimRequest_Sign :: "Crypto \<Rightarrow> CKey \<Rightarrow> RewardClaimRequest \<Rightarrow> bool \<times> RewardClaimRequest" where
  "RewardClaimRequest_Sign C key r =
     (case CKey_Sign C key (RewardClaimRequest_GetHash C r) of
        None \<Rightarrow> (False, r) | Some s \<Rightarrow> (True, r\<lparr>rr_signature := s\<rparr>))"

definition RewardClaimRequest_Verify :: "Crypto \<Rightarrow> CPubKey \<Rightarrow> RewardClaimRequest \<Rightarrow> bool" where
  "RewardClaimRequest_Verify C pubkey r \<longleftrightarrow>
     CPubKey_Verify C pubkey (RewardClaimRequest_GetHash C r) (rr_signature r)"

definition MIN_DELEGATION_AMOUNT :: CAmount where
  "MIN_DELEGATION_AMOUNT = 1000 * 100000000"

definition DELEGATION_MATURITY :: int where
  "DELEGATION_MATURITY = 500"

definition DELEGATION_UNBONDING_PERIOD :: int where
  "DELEGATION_UNBONDING_PERIOD = 259200"

lemmas ddb_consts = MIN_DELEGATION_AMOUNT_def DELEGATION_MATURITY_def DELEGATION_UNBONDING_PERIOD_def

section \<open>The database\<close>

record DelegationDB =
  cs_delegations :: bool
  delegations :: "(uint256, DelegationEntry) omap"
  delegatorIndex :: "(CKeyID, uint256 list) omap"
  validatorIndex :: "(CKeyID, uint256 list) omap"
  ddb_outpointIndex :: "(COutPoint, uint256) omap"
  ddb_params :: Params
  ddb_currentHeight :: int

abbreviation ddb_lock :: "(DelegationDB \<Rightarrow> ('r \<times> DelegationDB) option) \<Rightarrow> DelegationDB \<Rightarrow> ('r \<times> DelegationDB) option" where
  "ddb_lock \<equiv> LOCK cs_delegations (\<lambda>b. cs_delegations_update (\<lambda>_. b))"

interpretation ddbm: mutex cs_delegations "\<lambda>b. cs_delegations_update (\<lambda>_. b)"
  by unfold_locales auto

type_synonym Stores = "DelegationDB \<times> ValidatorDB option"

abbreviation stores_lock :: "(Stores \<Rightarrow> ('r \<times> Stores) option) \<Rightarrow> Stores \<Rightarrow> ('r \<times> Stores) option" where
  "stores_lock \<equiv> LOCK (\<lambda>s. cs_delegations (fst s)) (\<lambda>b. apfst (cs_delegations_update (\<lambda>_. b)))"

interpretation stm: mutex "\<lambda>s :: Stores. cs_delegations (fst s)" "\<lambda>b. apfst (cs_delegations_update (\<lambda>_. b))"
  by unfold_locales auto

definition DelegationDB_new :: "Params \<Rightarrow> DelegationDB" where
  "DelegationDB_new p = \<lparr>cs_delegations = False, delegations = [], delegatorIndex = [], validatorIndex = [],
     ddb_outpointIndex = [], ddb_params = p, ddb_currentHeight = 0\<rparr>"

text \<open>
  \<^verbatim>\<open>index[key].push_back(id)\<close>, where \<^verbatim>\<open>operator[]\<close> starts a missing list as empty, and
  the list found by \<^verbatim>\<open>find\<close>.
\<close>

definition ids_at :: "('k, 'id list) omap \<Rightarrow> 'k \<Rightarrow> 'id list" where
  "ids_at idx k = (case map_of idx k of None \<Rightarrow> [] | Some l \<Rightarrow> l)"

definition push_id :: "'k::linorder \<Rightarrow> 'id \<Rightarrow> ('k, 'id list) omap \<Rightarrow> ('k, 'id list) omap" where
  "push_id k i idx = om_put k (ids_at idx k @ [i]) idx"

text \<open>The calls into the global validator database, skipped where it does not exist.\<close>

definition delegation_target_ok :: "CKeyID \<Rightarrow> ValidatorDB option \<Rightarrow> bool option" where
  "delegation_target_ok k g =
     (case g of
        None \<Rightarrow> Some True
      | Some vdb \<Rightarrow> Option.bind (ValidatorDB_GetValidator k vdb) (\<lambda>v.
          Some (case v of None \<Rightarrow> False | Some validator \<Rightarrow> ve_status validator = VS_ACTIVE)))"

definition with_validators ::
  "(ValidatorDB \<Rightarrow> (bool \<times> ValidatorDB) option) \<Rightarrow> ValidatorDB option \<Rightarrow> ValidatorDB option option" where
  "with_validators f g =
     (case g of None \<Rightarrow> Some None | Some vdb \<Rightarrow> Option.bind (f vdb) (\<lambda>(r, vdb'). Some (Some vdb')))"

definition new_delegation :: "DelegationRequest \<Rightarrow> COutPoint \<Rightarrow> DelegationEntry" where
  "new_delegation request outpoint =
     \<lparr>de_delegatorId = dr_delegatorId request, de_validatorId = dr_validatorId request,
      de_amount = dr_amount request, de_delegationHeight = dr_height request,
      de_lastRewardHeight = dr_height request, de_status = DS_PENDING,
      de_delegationOutpoint = outpoint, de_unbondingStartHeight = 0, de_pendingRewards = 0\<rparr>"

definition add_delegation_entry :: "uint256 \<Rightarrow> DelegationEntry \<Rightarrow> DelegationDB \<Rightarrow> DelegationDB" where
  "add_delegation_entry i e db =
     db\<lparr>delegations := om_put i e (delegations db),
        delegatorIndex := push_id (de_delegatorId e) i (delegatorIndex db),
        validatorIndex := push_id (de_validatorId e) i (validatorIndex db),
        ddb_outpointIndex := (if COutPoint_IsNull (de_delegationOutpoint e) then ddb_outpointIndex db
                              else om_put (de_delegationOutpoint e) i (ddb_outpointIndex db))\<rparr>"

definition ProcessDelegation :: "Crypto \<Rightarrow> DelegationRequest \<Rightarrow> COutPoint \<Rightarrow> Stores \<Rightarrow> (bool \<times> Stores) option" where
  "ProcessDelegation C request outpoint = stores_lock (\<lambda>(db, g).
     if \<not> DelegationRequest_Verify C request then Some (False, db, g)
     else if dr_amount request < MIN_DELEGATION_AMOUNT then Some (False, db, g)
     else Option.bind (delegation_target_ok (dr_validatorId request) g) (\<lambda>ok.
       if \<not> ok then Some (False, db, g)
       else let entry = new_delegation request outpoint;
                delegationId = GetDelegationId C entry
            in if map_of (delegations db) delegationId \<noteq> None then Some (False, db, g)
               else let db1 = add_delegation_entry delegationId entry db
                    in Option.bind (with_validators (AddDelegation (dr_validatorId request) (dr_amount request)) g)
                         (\<lambda>g'. Some (True, db1, g'))))"

text \<open>The loop of \<^verbatim>\<open>ProcessUndelegation\<close> over the delegator's list of identifiers.\<close>

fun undelegate_loop ::
  "UndelegationRequest \<Rightarrow> int \<Rightarrow> uint256 list \<Rightarrow> CAmount \<Rightarrow> bool \<Rightarrow> (uint256, DelegationEntry) omap \<Rightarrow> ValidatorDB option
   \<Rightarrow> (bool \<times> (uint256, DelegationEntry) omap \<times> ValidatorDB option) option" where
  "undelegate_loop request height [] remaining anyUndelegated ds g = Some (anyUndelegated, ds, g)"
| "undelegate_loop request height (i # ids) remaining anyUndelegated ds g =
     (case map_of ds i of
        None \<Rightarrow> undelegate_loop request height ids remaining anyUndelegated ds g
      | Some entry \<Rightarrow>
          if de_validatorId entry \<noteq> ur_validatorId request
          then undelegate_loop request height ids remaining anyUndelegated ds g
          else if de_status entry \<noteq> DS_ACTIVE
          then undelegate_loop request height ids remaining anyUndelegated ds g
          else let (toUndelegate, remaining') =
                     (if ur_amount request = 0 then (de_amount entry, remaining)
                      else if de_amount entry \<le> remaining then (de_amount entry, s64 (remaining - de_amount entry))
                      else (remaining, 0));
                   ds' = om_put i (entry\<lparr>de_status := DS_UNBONDING, de_unbondingStartHeight := height\<rparr>) ds
               in Option.bind (with_validators (RemoveDelegation (ur_validatorId request) toUndelegate) g) (\<lambda>g'.
                    if remaining' = 0 then Some (True, ds', g')
                    else undelegate_loop request height ids remaining' True ds' g'))"

definition ProcessUndelegation :: "UndelegationRequest \<Rightarrow> Stores \<Rightarrow> (bool \<times> Stores) option" where
  "ProcessUndelegation request = stores_lock (\<lambda>(db, g).
     case map_of (delegatorIndex db) (ur_delegatorId request) of
       None \<Rightarrow> Some (False, db, g)
     | Some ids \<Rightarrow>
         Option.bind (undelegate_loop request (ddb_currentHeight db) ids (ur_amount request) False (delegations db) g)
           (\<lambda>(anyUndelegated, ds, g'). Some (anyUndelegated, db\<lparr>delegations := ds\<rparr>, g')))"

text \<open>The loop of \<^verbatim>\<open>ProcessRewardClaim\<close>.\<close>

fun claim_loop ::
  "RewardClaimRequest \<Rightarrow> int \<Rightarrow> uint256 list \<Rightarrow> CAmount \<Rightarrow> (uint256, DelegationEntry) omap
   \<Rightarrow> CAmount \<times> (uint256, DelegationEntry) omap" where
  "claim_loop request height [] totalClaimed ds = (totalClaimed, ds)"
| "claim_loop request height (i # ids) totalClaimed ds =
     (case map_of ds i of
        None \<Rightarrow> claim_loop request height ids totalClaimed ds
      | Some entry \<Rightarrow>
          if rr_validatorId request \<noteq> 0 \<and> de_validatorId entry \<noteq> rr_validatorId request
          then claim_loop request height ids totalClaimed ds
          else if 0 < de_pendingRewards entry
          then claim_loop request height ids (s64 (totalClaimed + de_pendingRewards entry))
                 (om_put i (entry\<lparr>de_pendingRewards := 0, de_lastRewardHeight := height\<rparr>) ds)
          else claim_loop request height ids totalClaimed ds)"

definition ProcessRewardClaim :: "RewardClaimRequest \<Rightarrow> DelegationDB \<Rightarrow> (CAmount \<times> DelegationDB) option" where
  "ProcessRewardClaim request = ddb_lock (\<lambda>db. Some
     (case map_of (delegatorIndex db) (rr_delegatorId request) of
        None \<Rightarrow> (0, db)
      | Some ids \<Rightarrow>
          (case claim_loop request (ddb_currentHeight db) ids 0 (delegations db) of
             (totalClaimed, ds) \<Rightarrow> (totalClaimed, db\<lparr>delegations := ds\<rparr>))))"

section \<open>Queries\<close>

definition GetDelegation :: "uint256 \<Rightarrow> DelegationDB \<Rightarrow> DelegationEntry option option" where
  "GetDelegation delegationId db = LOCK_const cs_delegations db (map_of (delegations db) delegationId)"

definition GetDelegationByOutpoint :: "COutPoint \<Rightarrow> DelegationDB \<Rightarrow> DelegationEntry option option" where
  "GetDelegationByOutpoint outpoint db = LOCK_const cs_delegations db
     (case map_of (ddb_outpointIndex db) outpoint of
        None \<Rightarrow> None | Some i \<Rightarrow> map_of (delegations db) i)"

text \<open>The entries an identifier list leads to, in its order.\<close>

definition entries_of :: "(uint256, DelegationEntry) omap \<Rightarrow> uint256 list \<Rightarrow> DelegationEntry list" where
  "entries_of ds ids = concat (map (\<lambda>i. case map_of ds i of None \<Rightarrow> [] | Some e \<Rightarrow> [e]) ids)"

definition GetDelegationsForDelegator :: "CKeyID \<Rightarrow> DelegationDB \<Rightarrow> DelegationEntry list option" where
  "GetDelegationsForDelegator k db = LOCK_const cs_delegations db
     (case map_of (delegatorIndex db) k of None \<Rightarrow> [] | Some ids \<Rightarrow> entries_of (delegations db) ids)"

definition GetDelegationsForValidator :: "CKeyID \<Rightarrow> DelegationDB \<Rightarrow> DelegationEntry list option" where
  "GetDelegationsForValidator k db = LOCK_const cs_delegations db
     (case map_of (validatorIndex db) k of None \<Rightarrow> [] | Some ids \<Rightarrow> entries_of (delegations db) ids)"

definition GetTotalDelegationForValidator :: "CKeyID \<Rightarrow> DelegationDB \<Rightarrow> CAmount option" where
  "GetTotalDelegationForValidator k db = LOCK_const cs_delegations db
     (case map_of (validatorIndex db) k of
        None \<Rightarrow> 0
      | Some ids \<Rightarrow>
          fold (\<lambda>i total. case map_of (delegations db) i of
                  None \<Rightarrow> total
                | Some e \<Rightarrow> if de_status e = DS_ACTIVE then s64 (total + de_amount e) else total) ids 0)"

definition GetPendingRewardsForDelegator :: "CKeyID \<Rightarrow> DelegationDB \<Rightarrow> CAmount option" where
  "GetPendingRewardsForDelegator k db = LOCK_const cs_delegations db
     (case map_of (delegatorIndex db) k of
        None \<Rightarrow> 0
      | Some ids \<Rightarrow>
          fold (\<lambda>i total. case map_of (delegations db) i of
                  None \<Rightarrow> total | Some e \<Rightarrow> s64 (total + de_pendingRewards e)) ids 0)"

definition IsDelegation :: "COutPoint \<Rightarrow> DelegationDB \<Rightarrow> bool option" where
  "IsDelegation outpoint db =
     LOCK_const cs_delegations db (map_of (ddb_outpointIndex db) outpoint \<noteq> None)"

definition GetActiveDelegationCount :: "DelegationDB \<Rightarrow> nat option" where
  "GetActiveDelegationCount db = LOCK_const cs_delegations db
     (fold (\<lambda>e count. if de_status (snd e) = DS_ACTIVE then count + 1 else count) (delegations db) 0)"

definition GetDelegatorCountForValidator :: "CKeyID \<Rightarrow> DelegationDB \<Rightarrow> nat option" where
  "GetDelegatorCountForValidator k db = LOCK_const cs_delegations db
     (case map_of (validatorIndex db) k of
        None \<Rightarrow> 0
      | Some ids \<Rightarrow>
          card (set (map de_delegatorId (filter (\<lambda>e. de_status e = DS_ACTIVE) (entries_of (delegations db) ids)))))"

section \<open>Rewards, status and blocks\<close>

definition modify_delegation ::
  "uint256 \<Rightarrow> (DelegationEntry \<Rightarrow> DelegationEntry) \<Rightarrow> DelegationDB \<Rightarrow> (bool \<times> DelegationDB) option" where
  "modify_delegation delegationId f = ddb_lock (\<lambda>db. Some
     (case map_of (delegations db) delegationId of
        None \<Rightarrow> (False, db)
      | Some e \<Rightarrow> (True, db\<lparr>delegations := om_put delegationId (f e) (delegations db)\<rparr>)))"

definition AddRewards :: "uint256 \<Rightarrow> CAmount \<Rightarrow> DelegationDB \<Rightarrow> (bool \<times> DelegationDB) option" where
  "AddRewards delegationId rewards = modify_delegation delegationId
     (\<lambda>e. e\<lparr>de_pendingRewards := s64 (de_pendingRewards e + rewards)\<rparr>)"

definition SetDelegationStatus :: "uint256 \<Rightarrow> DelegationStatus \<Rightarrow> DelegationDB \<Rightarrow> (bool \<times> DelegationDB) option" where
  "SetDelegationStatus delegationId st = modify_delegation delegationId (\<lambda>e. e\<lparr>de_status := st\<rparr>)"

text \<open>
  \<^verbatim>\<open>DistributeBlockReward\<close>. Its loop is a definition of its own. The total is asked of the
  member function, which takes the mutex the caller already holds.
\<close>

definition reward_share :: "CAmount \<Rightarrow> CAmount \<Rightarrow> DelegationEntry \<Rightarrow> CAmount" where
  "reward_share delegatorsShare totalDelegation e = s64 (cdiv (s64 (delegatorsShare * de_amount e)) totalDelegation)"

fun distribute_loop ::
  "CAmount \<Rightarrow> CAmount \<Rightarrow> uint256 list \<Rightarrow> (uint256, DelegationEntry) omap \<Rightarrow> (uint256, DelegationEntry) omap" where
  "distribute_loop delegatorsShare totalDelegation [] ds = ds"
| "distribute_loop delegatorsShare totalDelegation (i # ids) ds =
     (case map_of ds i of
        None \<Rightarrow> distribute_loop delegatorsShare totalDelegation ids ds
      | Some entry \<Rightarrow>
          if de_status entry \<noteq> DS_ACTIVE then distribute_loop delegatorsShare totalDelegation ids ds
          else let share = reward_share delegatorsShare totalDelegation entry
               in distribute_loop delegatorsShare totalDelegation ids
                    (if 0 < share
                     then om_put i (entry\<lparr>de_pendingRewards := s64 (de_pendingRewards entry + share)\<rparr>) ds
                     else ds))"

definition DistributeBlockReward :: "CKeyID \<Rightarrow> CAmount \<Rightarrow> DelegationDB \<Rightarrow> (bool \<times> DelegationDB) option" where
  "DistributeBlockReward validatorId delegatorsShare = ddb_lock (\<lambda>db.
     if delegatorsShare = 0 then Some (True, db)
     else Option.bind (GetTotalDelegationForValidator validatorId db) (\<lambda>totalDelegation.
       Some (if totalDelegation = 0 then (True, db)
             else (case map_of (validatorIndex db) validatorId of
                     None \<Rightarrow> (True, db)
                   | Some ids \<Rightarrow>
                       (True, db\<lparr>delegations :=
                          distribute_loop delegatorsShare totalDelegation ids (delegations db)\<rparr>)))))"

definition UpdateDelegationOutpoint :: "uint256 \<Rightarrow> COutPoint \<Rightarrow> DelegationDB \<Rightarrow> (bool \<times> DelegationDB) option" where
  "UpdateDelegationOutpoint delegationId newOutpoint = ddb_lock (\<lambda>db. Some
     (case map_of (delegations db) delegationId of
        None \<Rightarrow> (False, db)
      | Some e \<Rightarrow>
          (True, db\<lparr>delegations := om_put delegationId (e\<lparr>de_delegationOutpoint := newOutpoint\<rparr>) (delegations db),
                    ddb_outpointIndex :=
                      reindex (de_delegationOutpoint e) newOutpoint delegationId (ddb_outpointIndex db)\<rparr>)))"

definition DelegationDB_SetHeight :: "int \<Rightarrow> DelegationDB \<Rightarrow> DelegationDB" where
  "DelegationDB_SetHeight height db = db\<lparr>ddb_currentHeight := height\<rparr>"

definition mature_delegation :: "int \<Rightarrow> DelegationEntry \<Rightarrow> DelegationEntry" where
  "mature_delegation height entry =
     (let entry1 = (if de_status entry = DS_PENDING \<and> DELEGATION_MATURITY \<le> s32 (height - de_delegationHeight entry)
                    then entry\<lparr>de_status := DS_ACTIVE\<rparr> else entry)
      in if de_status entry1 = DS_UNBONDING \<and>
            DELEGATION_UNBONDING_PERIOD \<le> s32 (height - de_unbondingStartHeight entry1)
         then entry1\<lparr>de_status := DS_WITHDRAWN\<rparr> else entry1)"

definition DelegationDB_ProcessBlock :: "int \<Rightarrow> DelegationDB \<Rightarrow> (unit \<times> DelegationDB) option" where
  "DelegationDB_ProcessBlock height = ddb_lock (\<lambda>db. Some ((),
     db\<lparr>ddb_currentHeight := height,
        delegations := om_vals (mature_delegation height) (delegations db)\<rparr>))"

section \<open>Identifier lists\<close>

text \<open>
  Both identifier lists are exact: the list of a key holds, once each, the identifiers of the
  entries with that key.
\<close>

definition ids_exact :: "('e \<Rightarrow> 'k) \<Rightarrow> ('id \<rightharpoonup> 'e) \<Rightarrow> ('k \<Rightarrow> 'id list) \<Rightarrow> bool" where
  "ids_exact key prim ids \<longleftrightarrow>
     (\<forall>k. distinct (ids k) \<and> (\<forall>i. i \<in> set (ids k) \<longleftrightarrow> map_option key (prim i) = Some k))"

lemma ids_at_push [store]: "ids_at (push_id k i idx) = (ids_at idx)(k := ids_at idx k @ [i])"
  by (rule ext) (simp add: ids_at_def push_id_def store)

lemma om_wf_push [store]: "om_wf idx \<Longrightarrow> om_wf (push_id k i idx)"
  by (simp add: push_id_def store)

lemma ids_at_case: "f [] = z \<Longrightarrow> (case map_of idx k of None \<Rightarrow> z | Some l \<Rightarrow> f l) = f (ids_at idx k)"
  by (simp add: ids_at_def split: option.split)

lemma ids_exact_insert:
  assumes "ids_exact key prim ids" and "prim i = None"
  shows "ids_exact key (prim(i \<mapsto> e)) (ids(key e := ids (key e) @ [i]))"
  using assms unfolding ids_exact_def by auto

lemma ids_exact_same:
  assumes "ids_exact key prim ids" and "\<And>i. map_option key (prim' i) = map_option key (prim i)"
  shows "ids_exact key prim' ids"
  using assms by (simp add: ids_exact_def)

text \<open>The entries reached through an exact list are the entries with the key.\<close>

lemma entries_of_present:
  "\<forall>i \<in> set ids. map_of ds i \<noteq> None \<Longrightarrow> entries_of ds ids = map (\<lambda>i. the (map_of ds i)) ids"
  by (induction ids) (auto simp: entries_of_def)

lemma entries_of_exact:
  assumes "om_wf ds" and "ids_exact key (map_of ds) ids"
  shows "mset (entries_of ds (ids k)) = {# e \<in># mset (map snd ds). key e = k #}"
proof -
  let ?fs = "filter (\<lambda>x. key (snd x) = k) ds"
  have dist: "distinct (map fst ds)" using assms(1) by (rule om_wf_distinct)
  have "set (ids k) = set (map fst ?fs)"
    using assms by (auto simp: ids_exact_def om_in_set [symmetric] image_iff Bex_def)
  then have ids: "mset (ids k) = mset (map fst ?fs)"
    using assms(2) distinct_map_filter [OF dist]
    by (subst set_eq_iff_mset_eq_distinct [symmetric]) (simp_all add: ids_exact_def)
  have "\<forall>i \<in> set (ids k). map_of ds i \<noteq> None" using assms(2) by (auto simp: ids_exact_def)
  then have "mset (entries_of ds (ids k)) = image_mset (\<lambda>i. the (map_of ds i)) (mset (map fst ?fs))"
    unfolding ids [symmetric] by (simp add: entries_of_present)
  also have "\<dots> = mset (map (\<lambda>x. the (map_of ds (fst x))) ?fs)" by (simp add: multiset.map_comp comp_def)
  also have "map (\<lambda>x. the (map_of ds (fst x))) ?fs = map snd ?fs"
    using dist by (intro map_cong) auto
  finally show ?thesis by (simp only: mset_filter [symmetric] filter_map comp_def)
qed

section \<open>Invariant\<close>

definition keeps_delegation :: "DelegationEntry \<Rightarrow> DelegationEntry \<Rightarrow> bool" where
  "keeps_delegation e e' \<longleftrightarrow> de_delegatorId e' = de_delegatorId e \<and> de_validatorId e' = de_validatorId e \<and>
     de_amount e' = de_amount e \<and> de_delegationHeight e' = de_delegationHeight e \<and>
     de_delegationOutpoint e' = de_delegationOutpoint e"

text \<open>What every loop over the entries keeps of the primary map.\<close>

definition same_delegations :: "(uint256, DelegationEntry) omap \<Rightarrow> (uint256, DelegationEntry) omap \<Rightarrow> bool" where
  "same_delegations ds ds' \<longleftrightarrow> (om_wf ds \<longrightarrow> om_wf ds') \<and>
     (\<forall>i. rel_option keeps_delegation (map_of ds i) (map_of ds' i))"

lemma keeps_delegation_refl [simp]: "keeps_delegation e e"
  by (simp add: keeps_delegation_def)

lemma keeps_option_trans:
  "rel_option keeps_delegation a b \<Longrightarrow> rel_option keeps_delegation b c \<Longrightarrow> rel_option keeps_delegation a c"
  by (cases a; cases b; cases c) (simp_all add: keeps_delegation_def)

lemma same_delegations_refl [simp]: "same_delegations ds ds"
  by (simp add: same_delegations_def option.rel_refl)

lemma same_delegations_trans:
  "same_delegations ds es \<Longrightarrow> same_delegations es fs \<Longrightarrow> same_delegations ds fs"
  unfolding same_delegations_def by (blast intro: keeps_option_trans)

lemma same_delegations_put:
  "map_of ds i = Some e \<Longrightarrow> keeps_delegation e e' \<Longrightarrow> same_delegations ds (om_put i e' ds)"
  by (auto simp: same_delegations_def store option.rel_refl)

lemma same_delegations_vals: "(\<And>e. keeps_delegation e (f e)) \<Longrightarrow> same_delegations ds (om_vals f ds)"
  by (simp add: same_delegations_def store rel_option_iff split: option.splits)

definition ddb_inv :: "Crypto \<Rightarrow> DelegationDB \<Rightarrow> bool" where
  "ddb_inv C db \<longleftrightarrow>
     om_wf (delegations db) \<and> om_wf (delegatorIndex db) \<and> om_wf (validatorIndex db) \<and> om_wf (ddb_outpointIndex db) \<and>
     (\<forall>i e. map_of (delegations db) i = Some e \<longrightarrow> i = GetDelegationId C e \<and> MIN_DELEGATION_AMOUNT \<le> de_amount e) \<and>
     ids_exact de_delegatorId (map_of (delegations db)) (ids_at (delegatorIndex db)) \<and>
     ids_exact de_validatorId (map_of (delegations db)) (ids_at (validatorIndex db)) \<and>
     index_sound de_delegationOutpoint (map_of (delegations db)) (map_of (ddb_outpointIndex db))"

interpretation deidx: outpoint_index de_delegationOutpoint "\<lambda>p. de_delegationOutpoint_update (\<lambda>_. p)"
  by unfold_locales simp

lemma ddb_inv_lock_flag [simp]: "ddb_inv C (db\<lparr>cs_delegations := b\<rparr>) = ddb_inv C db"
  by (simp add: ddb_inv_def)

lemma ddb_inv_height [simp]: "ddb_inv C (db\<lparr>ddb_currentHeight := h\<rparr>) = ddb_inv C db"
  by (simp add: ddb_inv_def)

lemma ddb_inv_new: "ddb_inv C (DelegationDB_new p)"
  by (simp add: ddb_inv_def DelegationDB_new_def index_sound_def ids_exact_def ids_at_def)

lemma GetDelegationId_keeps: "keeps_delegation e e' \<Longrightarrow> GetDelegationId C e' = GetDelegationId C e"
  by (simp add: keeps_delegation_def GetDelegationId_def DelegationEntry_preimage_def)

lemma ddb_inv_same:
  assumes "ddb_inv C db" and "same_delegations (delegations db) ds"
  shows "ddb_inv C (db\<lparr>delegations := ds\<rparr>)"
proof -
  have rel: "rel_option keeps_delegation (map_of (delegations db) i) (map_of ds i)" for i
    using assms(2) by (simp add: same_delegations_def)
  then have keep: "\<exists>e. map_of (delegations db) i = Some e \<and> keeps_delegation e e'" if "map_of ds i = Some e'" for i e'
    using rel [of i] that by (auto simp: option_rel_Some2)
  have key: "map_option f (map_of ds i) = map_option f (map_of (delegations db) i)"
    if "\<And>e e'. keeps_delegation e e' \<Longrightarrow> f e' = f e" for i and f :: "DelegationEntry \<Rightarrow> 'z"
    using rel [of i] that by (cases "map_of ds i"; cases "map_of (delegations db) i") auto
  have "ids_exact de_delegatorId (map_of ds) (ids_at (delegatorIndex db))"
    by (rule ids_exact_same [OF _ key]) (use assms(1) in \<open>auto simp: ddb_inv_def keeps_delegation_def\<close>)
  moreover have "ids_exact de_validatorId (map_of ds) (ids_at (validatorIndex db))"
    by (rule ids_exact_same [OF _ key]) (use assms(1) in \<open>auto simp: ddb_inv_def keeps_delegation_def\<close>)
  moreover have "index_sound de_delegationOutpoint (map_of ds) (map_of (ddb_outpointIndex db))"
    using assms(1) key [of de_delegationOutpoint]
    by (simp add: ddb_inv_def index_sound_def keeps_delegation_def)
  moreover have "i = GetDelegationId C e' \<and> MIN_DELEGATION_AMOUNT \<le> de_amount e'" if new: "map_of ds i = Some e'" for i e'
  proof -
    obtain e where e: "map_of (delegations db) i = Some e" "keeps_delegation e e'" using keep [OF new] by blast
    then have "i = GetDelegationId C e" "MIN_DELEGATION_AMOUNT \<le> de_amount e"
      using assms(1) unfolding ddb_inv_def by blast+
    with e(2) show ?thesis using GetDelegationId_keeps [OF e(2), of C] by (simp add: keeps_delegation_def)
  qed
  ultimately show ?thesis
    using assms by (simp add: ddb_inv_def same_delegations_def)
qed

lemma ddb_inv_add:
  assumes "ddb_inv C db" and "map_of (delegations db) (GetDelegationId C e) = None"
    and "MIN_DELEGATION_AMOUNT \<le> de_amount e"
  shows "ddb_inv C (add_delegation_entry (GetDelegationId C e) e db)"
  using assms
    deidx.sound_insert [of "map_of (delegations db)" "map_of (ddb_outpointIndex db)" "GetDelegationId C e" e]
  by (auto simp: ddb_inv_def add_delegation_entry_def store intro: ids_exact_insert)

section \<open>Every operation keeps the invariant\<close>

lemma undelegate_loop_same:
  "undelegate_loop r h ids rem any ds g = Some (b, ds', g') \<Longrightarrow> same_delegations ds ds'"
proof (induction r h ids rem any ds g arbitrary: b ds' g' rule: undelegate_loop.induct)
  case (2 r h i ids rem any ds g)
  show ?case
  proof (cases "\<exists>e. map_of ds i = Some e \<and> de_validatorId e = ur_validatorId r \<and> de_status e = DS_ACTIVE")
    case True
    then obtain e where e: "map_of ds i = Some e" by blast
    let ?ds = "om_put i (e\<lparr>de_status := DS_UNBONDING, de_unbondingStartHeight := h\<rparr>) ds"
    have "same_delegations ds ?ds"
      using e by (rule same_delegations_put) (simp add: keeps_delegation_def)
    moreover have "same_delegations ?ds ds'"
      using "2.prems" "2.IH"(4) True e
      by (auto simp: Let_def Option.bind_eq_Some_conv split: if_splits prod.splits)
    ultimately show ?thesis by (rule same_delegations_trans)
  next
    case False
    then show ?thesis using "2.prems" "2.IH"(1-3) by (auto split: option.splits if_splits)
  qed
qed simp

lemma claim_loop_same: "claim_loop r h ids c ds = (c', ds') \<Longrightarrow> same_delegations ds ds'"
proof (induction r h ids c ds arbitrary: c' ds' rule: claim_loop.induct)
  case (2 r h i ids c ds)
  show ?case
  proof (cases "map_of ds i")
    case None
    then show ?thesis using 2 by simp
  next
    case (Some e)
    have "same_delegations ds (om_put i (e\<lparr>de_pendingRewards := 0, de_lastRewardHeight := h\<rparr>) ds)"
      using Some by (rule same_delegations_put) (simp add: keeps_delegation_def)
    then show ?thesis
      using 2 Some by (auto split: if_splits intro: same_delegations_trans)
  qed
qed simp

lemma distribute_loop_same: "same_delegations ds (distribute_loop s t ids ds)"
proof (induction ids arbitrary: ds)
  case (Cons i ids)
  have "same_delegations ds (om_put i (e\<lparr>de_pendingRewards := x\<rparr>) ds)" if "map_of ds i = Some e" for e x
    using that by (rule same_delegations_put) (simp add: keeps_delegation_def)
  then show ?case
    using Cons.IH by (auto simp: Let_def split: option.split intro: same_delegations_trans)
qed simp

lemma mature_delegation_keeps: "keeps_delegation e (mature_delegation h e)"
  by (simp add: mature_delegation_def keeps_delegation_def Let_def)

lemma stores_lock_preserves:
  assumes "stores_lock body s = Some (r, t)" and "P (fst s)" and "\<And>b d. P (d\<lparr>cs_delegations := b\<rparr>) = P d"
    and "\<And>s r t. body s = Some (r, t) \<Longrightarrow> P (fst s) \<Longrightarrow> P (fst t)"
  shows "P (fst t)"
  by (rule stm.LOCK_preserves [OF assms(1), of "\<lambda>s. P (fst s)"]) (use assms in \<open>auto\<close>)

lemma ddb_inv_ProcessDelegation:
  assumes "ProcessDelegation C r p s = Some (b, s')" and "ddb_inv C (fst s)"
  shows "ddb_inv C (fst s')"
  using assms unfolding ProcessDelegation_def
proof (elim stores_lock_preserves [where P = "ddb_inv C"])
  fix s :: Stores and b s'
  assume run: "(case s of (db, g) \<Rightarrow>
     if \<not> DelegationRequest_Verify C r then Some (False, db, g)
     else if dr_amount r < MIN_DELEGATION_AMOUNT then Some (False, db, g)
     else Option.bind (delegation_target_ok (dr_validatorId r) g) (\<lambda>ok.
       if \<not> ok then Some (False, db, g)
       else let entry = new_delegation r p; delegationId = GetDelegationId C entry
            in if map_of (delegations db) delegationId \<noteq> None then Some (False, db, g)
               else let db1 = add_delegation_entry delegationId entry db
                    in Option.bind (with_validators (AddDelegation (dr_validatorId r) (dr_amount r)) g)
                         (\<lambda>g'. Some (True, db1, g')))) = Some (b, s')"
    and inv: "ddb_inv C (fst s)"
  show "ddb_inv C (fst s')"
    using run inv ddb_inv_add [of C "fst s" "new_delegation r p"]
    by (cases s) (auto simp: Let_def Option.bind_eq_Some_conv new_delegation_def split: if_splits)
qed simp_all

lemma ddb_inv_ProcessUndelegation:
  assumes "ProcessUndelegation r s = Some (b, s')" and "ddb_inv C (fst s)"
  shows "ddb_inv C (fst s')"
  using assms unfolding ProcessUndelegation_def
  by (elim stores_lock_preserves [where P = "ddb_inv C"])
    (auto simp: Option.bind_eq_Some_conv split: option.splits intro!: ddb_inv_same dest: undelegate_loop_same)

lemma ddb_inv_ProcessRewardClaim:
  "ProcessRewardClaim r db = Some (a, db') \<Longrightarrow> ddb_inv C db \<Longrightarrow> ddb_inv C db'"
  unfolding ProcessRewardClaim_def
  by (elim ddbm.LOCK_preserves [where P = "ddb_inv C"])
    (auto split: option.splits prod.splits intro!: ddb_inv_same dest: claim_loop_same)

lemma ddb_inv_DistributeBlockReward:
  "DistributeBlockReward k x db = Some (b, db') \<Longrightarrow> ddb_inv C db \<Longrightarrow> ddb_inv C db'"
  unfolding DistributeBlockReward_def
  by (elim ddbm.LOCK_preserves [where P = "ddb_inv C"])
    (auto simp: Option.bind_eq_Some_conv split: option.splits if_splits
      intro!: ddb_inv_same distribute_loop_same)

lemma ddb_inv_modify:
  assumes "modify_delegation i f db = Some (b, db')" and "ddb_inv C db" and "\<And>e. keeps_delegation e (f e)"
  shows "ddb_inv C db'"
  using assms unfolding modify_delegation_def
  by (elim ddbm.LOCK_preserves [where P = "ddb_inv C"])
    (auto split: option.splits intro!: ddb_inv_same same_delegations_put)

lemma ddb_inv_UpdateDelegationOutpoint:
  "UpdateDelegationOutpoint i p db = Some (b, db') \<Longrightarrow> ddb_inv C db \<Longrightarrow> ddb_inv C db'"
  unfolding UpdateDelegationOutpoint_def
proof (elim ddbm.LOCK_preserves [where P = "ddb_inv C"])
  fix db b db'
  assume run: "Some (case map_of (delegations db) i of None \<Rightarrow> (False, db)
      | Some e \<Rightarrow> (True, db\<lparr>delegations := om_put i (e\<lparr>de_delegationOutpoint := p\<rparr>) (delegations db),
          ddb_outpointIndex := reindex (de_delegationOutpoint e) p i (ddb_outpointIndex db)\<rparr>)) = Some (b, db')"
    and inv: "ddb_inv C db"
  show "ddb_inv C db'"
  proof (cases "map_of (delegations db) i")
    case None
    then show ?thesis using run inv by simp
  next
    case (Some e)
    let ?e = "e\<lparr>de_delegationOutpoint := p\<rparr>"
    have "ids_exact key ((map_of (delegations db))(i \<mapsto> ?e)) ids"
      if "ids_exact key (map_of (delegations db)) ids" "key ?e = key e" for key :: "DelegationEntry \<Rightarrow> CKeyID" and ids
      using that Some by (intro ids_exact_same [OF that(1)]) auto
    moreover have "GetDelegationId C ?e = GetDelegationId C e"
      by (simp add: GetDelegationId_def DelegationEntry_preimage_def)
    then have "\<forall>j x. map_of (om_put i ?e (delegations db)) j = Some x \<longrightarrow>
        j = GetDelegationId C x \<and> MIN_DELEGATION_AMOUNT \<le> de_amount x"
      using inv Some unfolding ddb_inv_def by (auto simp: store)
    ultimately show ?thesis
      using run inv Some deidx.sound_reindex [of "map_of (delegations db)" "ddb_outpointIndex db" i e p]
      by (auto simp: ddb_inv_def store)
  qed
qed simp_all

lemma ddb_inv_ProcessBlock:
  "DelegationDB_ProcessBlock h db = Some (u, db') \<Longrightarrow> ddb_inv C db \<Longrightarrow> ddb_inv C db'"
  unfolding DelegationDB_ProcessBlock_def
  by (elim ddbm.LOCK_preserves [where P = "ddb_inv C"])
    (auto intro!: ddb_inv_same same_delegations_vals mature_delegation_keeps)

section \<open>Steps and reachable states\<close>

inductive stores_step :: "Crypto \<Rightarrow> Stores \<Rightarrow> Stores \<Rightarrow> bool" for C :: Crypto where
  delegate: "ProcessDelegation C r p s = Some (b, s') \<Longrightarrow> stores_step C s s'"
| undelegate: "ProcessUndelegation ur s = Some (b, s') \<Longrightarrow> stores_step C s s'"
| claim: "ProcessRewardClaim rr db = Some (a, db') \<Longrightarrow> stores_step C (db, g) (db', g)"
| reward: "AddRewards i a db = Some (b, db') \<Longrightarrow> stores_step C (db, g) (db', g)"
| distribute: "DistributeBlockReward k a db = Some (b, db') \<Longrightarrow> stores_step C (db, g) (db', g)"
| set_status: "SetDelegationStatus i st db = Some (b, db') \<Longrightarrow> stores_step C (db, g) (db', g)"
| move_output: "UpdateDelegationOutpoint i p db = Some (b, db') \<Longrightarrow> stores_step C (db, g) (db', g)"
| set_height: "stores_step C (db, g) (DelegationDB_SetHeight h db, g)"
| process_block: "DelegationDB_ProcessBlock h db = Some (u, db') \<Longrightarrow> stores_step C (db, g) (db', g)"
| validators: "vdb_step C v v' \<Longrightarrow> stores_step C (db, Some v) (db, Some v')"

inductive stores_reachable :: "Crypto \<Rightarrow> Params \<Rightarrow> Stores \<Rightarrow> bool" for C :: Crypto and p :: Params where
  init: "g = None \<or> g = Some (ValidatorDB_new p) \<Longrightarrow> stores_reachable C p (DelegationDB_new p, g)"
| step: "stores_reachable C p s \<Longrightarrow> stores_step C s s' \<Longrightarrow> stores_reachable C p s'"

lemma stores_step_ddb_inv: "stores_step C s s' \<Longrightarrow> ddb_inv C (fst s) \<Longrightarrow> ddb_inv C (fst s')"
proof (induction rule: stores_step.induct)
  case (reward i a db b db' g)
  then show ?case unfolding AddRewards_def by (auto elim!: ddb_inv_modify simp: keeps_delegation_def)
next
  case (set_status i st db b db' g)
  then show ?case unfolding SetDelegationStatus_def by (auto elim!: ddb_inv_modify simp: keeps_delegation_def)
qed (auto simp: DelegationDB_SetHeight_def intro: ddb_inv_ProcessDelegation ddb_inv_ProcessUndelegation
      ddb_inv_ProcessRewardClaim ddb_inv_DistributeBlockReward ddb_inv_UpdateDelegationOutpoint ddb_inv_ProcessBlock)

lemma stores_reachable_inv: "stores_reachable C p s \<Longrightarrow> ddb_inv C (fst s)"
  by (induction rule: stores_reachable.induct) (auto simp: ddb_inv_new intro: stores_step_ddb_inv)

text \<open>
  C29. In every state the delegation database can reach, each delegation is stored under the hash
  of its delegator, validator and height and holds at least the minimum amount; the delegator and
  the validator list of identifiers hold exactly the delegations with that key, once each; and a
  lookup by output that finds a delegation finds one held in that output. The operations are those
  of \<^verbatim>\<open>stores_step\<close>: all public ones but reading a saved file. That every delegation with an output
  is found is not part of it, see \<^verbatim>\<open>shared_output_lost\<close>.
\<close>

theorem DelegationDB_reachable_invariant:
  assumes "stores_reachable C p s"
  shows "ddb_inv C (fst s)"
  using assms by (rule stores_reachable_inv)

text \<open>
  C4. The two queries by key are exact in every reachable state: they return the delegations of
  the delegator, and of the validator, each as often as it is stored.
\<close>

theorem delegation_queries_exact:
  assumes "stores_reachable C p s" and "\<not> cs_delegations (fst s)"
  shows "\<exists>xs ys. GetDelegationsForDelegator k (fst s) = Some xs \<and> GetDelegationsForValidator k (fst s) = Some ys \<and>
    mset xs = {# e \<in># mset (map snd (delegations (fst s))). de_delegatorId e = k #} \<and>
    mset ys = {# e \<in># mset (map snd (delegations (fst s))). de_validatorId e = k #}"
proof -
  let ?db = "fst s"
  have inv: "ddb_inv C ?db" using assms(1) by (rule stores_reachable_inv)
  have "entries_of (delegations ?db) [] = []" by (simp add: entries_of_def)
  note q = ids_at_case [where f = "entries_of (delegations ?db)", OF this]
  show ?thesis
    using assms(2) inv entries_of_exact [of "delegations ?db" de_delegatorId "ids_at (delegatorIndex ?db)" k]
      entries_of_exact [of "delegations ?db" de_validatorId "ids_at (validatorIndex ?db)" k]
    by (simp add: GetDelegationsForDelegator_def GetDelegationsForValidator_def LOCK_const_def q ddb_inv_def)
qed

section \<open>A small example\<close>

text \<open>An active validator and one delegation of 2000 coins to it.\<close>

definition active_vdb :: ValidatorDB where
  "active_vdb = set_entry 7 (sample_validator\<lparr>ve_status := VS_ACTIVE\<rparr>) sample_vdb"

definition sample_request :: DelegationRequest where
  "sample_request = \<lparr>dr_delegatorId = 11, dr_delegatorPubKey = [2], dr_validatorId = 7,
     dr_amount = 2000 * COIN, dr_height = 10, dr_signature = [1]\<rparr>"

definition flat_crypto :: Crypto where
  "flat_crypto = any_crypto\<lparr>Hash := \<lambda>bs. of_nat (length bs)\<rparr>"

definition sample_delegation :: DelegationEntry where
  "sample_delegation = new_delegation sample_request (COutPoint 3 1)"

definition sample_ddb :: DelegationDB where
  "sample_ddb = (DelegationDB_new CMainParams)\<lparr>delegations := [(44, sample_delegation)],
     delegatorIndex := [(11, [44])], validatorIndex := [(7, [44])], ddb_outpointIndex := [(COutPoint 3 1, 44)]\<rparr>"

definition funded_vdb :: ValidatorDB where
  "funded_vdb = set_entry 7 (sample_validator\<lparr>ve_status := VS_ACTIVE, ve_totalDelegated := 2000 * COIN,
     ve_delegatorCount := 1\<rparr>) active_vdb"

lemmas ddb_sample_defs = sample_request_def sample_delegation_def new_delegation_def sample_ddb_def DelegationDB_new_def

lemma active_vdb_reachable: "stores_reachable flat_crypto CMainParams (DelegationDB_new CMainParams, Some active_vdb)"
proof -
  have "SetValidatorStatus 7 VS_ACTIVE sample_vdb = Some (True, active_vdb)"
    by (simp add: SetValidatorStatus_def modify_spec active_vdb_def sample_defs)
  then have "vdb_step flat_crypto sample_vdb active_vdb" by (rule vdb_step.set_status)
  moreover have "vdb_step flat_crypto (ValidatorDB_new CMainParams) sample_vdb"
    using sample_registered by (rule vdb_step.register)
  ultimately show ?thesis
    by (meson stores_reachable.init stores_reachable.step stores_step.validators)
qed

lemma sample_delegated:
  "ProcessDelegation flat_crypto sample_request (COutPoint 3 1) (DelegationDB_new CMainParams, Some active_vdb) =
     Some (True, sample_ddb, Some funded_vdb)"
proof -
  have add: "AddDelegation 7 (2000 * COIN) active_vdb = Some (True, funded_vdb)"
    by (simp add: AddDelegation_def modify_spec active_vdb_def funded_vdb_def sample_defs COIN_def s64_id s32_id)
  have ok: "delegation_target_ok 7 (Some active_vdb) = Some True"
    by (simp add: delegation_target_ok_def ValidatorDB_GetValidator_def LOCK_const_def active_vdb_def)
      (simp add: sample_defs)
  have i: "GetDelegationId flat_crypto (new_delegation sample_request (COutPoint 3 1)) = 44"
    by (simp add: GetDelegationId_def DelegationEntry_preimage_def flat_crypto_def)
  have v: "DelegationRequest_Verify flat_crypto sample_request"
    by (simp add: DelegationRequest_Verify_def flat_crypto_def any_crypto_def sample_request_def)
  show ?thesis
    using add ok i v
    by (simp add: ProcessDelegation_def LOCK_def Let_def with_validators_def ddb_consts)
      (simp add: ddb_sample_defs COIN_def add_delegation_entry_def push_id_def ids_at_def COutPoint_IsNull_def
        with_validators_def)
qed

lemma sample_stores_reachable: "stores_reachable flat_crypto CMainParams (sample_ddb, Some funded_vdb)"
  by (rule stores_reachable.step [OF active_vdb_reachable stores_step.delegate [OF sample_delegated]])

theorem DelegationDB_reachable_invariant_witness:
  "ddb_inv flat_crypto sample_ddb \<and> delegations sample_ddb \<noteq> []"
  using DelegationDB_reachable_invariant [OF sample_stores_reachable] by (simp add: sample_ddb_def)

theorem delegation_queries_exact_witness:
  "\<exists>xs. GetDelegationsForDelegator 11 sample_ddb = Some xs \<and> mset xs = {# sample_delegation #}"
proof -
  have free: "\<not> cs_delegations (fst (sample_ddb, Some funded_vdb))" by (simp add: sample_ddb_def DelegationDB_new_def)
  from delegation_queries_exact [OF sample_stores_reachable free, of 11]
  show ?thesis by (auto simp: ddb_sample_defs)
qed

section \<open>Claiming rewards\<close>

definition claim_covers :: "RewardClaimRequest \<Rightarrow> DelegationEntry \<Rightarrow> bool" where
  "claim_covers r e \<longleftrightarrow> rr_validatorId r = 0 \<or> de_validatorId e = rr_validatorId r"

definition claimed :: "RewardClaimRequest \<Rightarrow> int \<Rightarrow> DelegationEntry \<Rightarrow> DelegationEntry" where
  "claimed r h e = (if claim_covers r e \<and> 0 < de_pendingRewards e
     then e\<lparr>de_pendingRewards := 0, de_lastRewardHeight := h\<rparr> else e)"

definition due :: "RewardClaimRequest \<Rightarrow> DelegationEntry \<Rightarrow> CAmount" where
  "due r e = (if claim_covers r e then max 0 (de_pendingRewards e) else 0)"

lemma due_nonneg [simp]: "0 \<le> due r e"
  by (simp add: due_def)

lemma sum_due_nonneg [simp]: "0 \<le> (\<Sum>e\<leftarrow>es. due r e)"
  by (rule sum_list_nonneg_int) simp

lemma due_claimed [simp]: "due r (claimed r h e) = 0"
  by (simp add: due_def claimed_def claim_covers_def)

lemma entries_of_Cons:
  "entries_of ds (i # ids) = (case map_of ds i of None \<Rightarrow> [] | Some e \<Rightarrow> [e]) @ entries_of ds ids"
  by (simp add: entries_of_def)

lemma entries_of_put_other [simp]: "i \<notin> set ids \<Longrightarrow> entries_of (om_put i e ds) ids = entries_of ds ids"
  by (induction ids) (auto simp: entries_of_def store)

lemma claim_loop_Cons:
  "claim_loop r h (i # ids) c ds =
     (case map_of ds i of
        None \<Rightarrow> claim_loop r h ids c ds
      | Some e \<Rightarrow> if claim_covers r e \<and> 0 < de_pendingRewards e
                  then claim_loop r h ids (s64 (c + due r e)) (om_put i (claimed r h e) ds)
                  else claim_loop r h ids c ds)"
  by (auto simp: claim_covers_def due_def claimed_def split: option.split)

lemma claim_loop_spec:
  assumes "distinct ids" and "0 \<le> c" and "c + (\<Sum>e\<leftarrow>entries_of ds ids. due r e) < 2 ^ 63"
  shows "fst (claim_loop r h ids c ds) = c + (\<Sum>e\<leftarrow>entries_of ds ids. due r e) \<and>
    map_of (snd (claim_loop r h ids c ds)) =
      (\<lambda>i. if i \<in> set ids then map_option (claimed r h) (map_of ds i) else map_of ds i)"
  using assms
proof (induction ids arbitrary: c ds)
  case Nil
  then show ?case by (simp add: entries_of_def)
next
  case (Cons i ids)
  note bound = Cons.prems(3)
  show ?case
  proof (cases "map_of ds i")
    case None
    with Cons show ?thesis by (auto simp: entries_of_Cons)
  next
    case (Some e)
    let ?ds = "om_put i (claimed r h e) ds"
    have tail: "entries_of ?ds ids = entries_of ds ids" using Cons.prems(1) by simp
    have c: "c + due r e + (\<Sum>e\<leftarrow>entries_of ds ids. due r e) < 9223372036854775808"
      using bound Some by (simp add: entries_of_Cons)
    have "s64 (c + due r e) = c + due r e"
      using c Cons.prems(2) due_nonneg [of r e] sum_due_nonneg [of r "entries_of ds ids"]
      by (intro s64_id) linarith+
    moreover have "0 \<le> c + due r e" using Cons.prems(2) by simp
    ultimately show ?thesis
      using Cons.IH [of "c + due r e" ?ds] Cons.IH [of c ds] Cons.prems c tail Some
      by (auto simp: claim_loop_Cons entries_of_Cons store fun_eq_iff due_def claimed_def simp del: claim_loop.simps)
  qed
qed

lemma claim_loop_nothing:
  "\<forall>i \<in> set ids. \<forall>e. map_of ds i = Some e \<longrightarrow> due r e = 0 \<Longrightarrow> claim_loop r h ids c ds = (c, ds)"
  by (induction ids) (auto simp: claim_loop_Cons due_def max_def split: option.split if_splits simp del: claim_loop.simps(2))

lemma ddb_run: "\<not> cs_delegations db \<Longrightarrow> ddb_lock (\<lambda>d. Some (F d)) db =
   Some (fst (F (db\<lparr>cs_delegations := True\<rparr>)), snd (F (db\<lparr>cs_delegations := True\<rparr>))\<lparr>cs_delegations := False\<rparr>)"
  by (simp add: LOCK_def split: prod.splits)

text \<open>
  Two delegations may name one output. The index then leads to the newer one, and moving the older
  one to another output erases the entry: the newer delegation is still held in the output, and
  the lookup by that output finds nothing.
\<close>

lemma shared_output_lost:
  assumes "\<not> cs_delegations db" and "map_of (delegations db) i = Some e" and "map_of (delegations db) j = Some e'"
    and "i \<noteq> j" and "de_delegationOutpoint e' = de_delegationOutpoint e" and "q \<noteq> de_delegationOutpoint e"
    and "\<not> COutPoint_IsNull (de_delegationOutpoint e)" and "om_wf (ddb_outpointIndex db)"
  shows "\<exists>db'. UpdateDelegationOutpoint i q db = Some (True, db') \<and> map_of (delegations db') j = Some e' \<and>
    GetDelegationByOutpoint (de_delegationOutpoint e') db' = Some None"
  using assms
  by (auto simp: UpdateDelegationOutpoint_def GetDelegationByOutpoint_def ddb_run LOCK_const_def reindex_def Let_def store)

lemma ProcessRewardClaim_spec:
  assumes "\<not> cs_delegations db"
  shows "ProcessRewardClaim r db =
    (let (c, ds) = claim_loop r (ddb_currentHeight db) (ids_at (delegatorIndex db) (rr_delegatorId r)) 0 (delegations db)
     in Some (c, db\<lparr>delegations := ds\<rparr>))"
  using assms
  by (simp add: ProcessRewardClaim_def ddb_run ids_at_def split: option.split prod.split)

text \<open>
  C30. A reward claim pays the delegator exactly the positive pending rewards of the delegations it
  covers, sets those to zero and leaves every other delegation as it is; repeating the claim pays
  nothing and changes nothing.
\<close>

theorem reward_claim_pays_once:
  assumes "stores_reachable C p (db, g)" and "\<not> cs_delegations db"
    and "(\<Sum>e\<in>#{# e \<in># mset (map snd (delegations db)). de_delegatorId e = rr_delegatorId r #}. due r e) < 2 ^ 63"
  shows "\<exists>db'. ProcessRewardClaim r db =
      Some (\<Sum>e\<in>#{# e \<in># mset (map snd (delegations db)). de_delegatorId e = rr_delegatorId r #}. due r e, db') \<and>
    (\<forall>i. map_of (delegations db') i = map_option (\<lambda>e. if de_delegatorId e = rr_delegatorId r
        then claimed r (ddb_currentHeight db) e else e) (map_of (delegations db) i)) \<and>
    ProcessRewardClaim r db' = Some (0, db')"
proof -
  let ?ids = "ids_at (delegatorIndex db) (rr_delegatorId r)" and ?ds = "delegations db"
  let ?loop = "claim_loop r (ddb_currentHeight db) ?ids 0 ?ds"
  let ?db = "db\<lparr>delegations := snd ?loop\<rparr>"
  have inv: "ddb_inv C db" using stores_reachable_inv [OF assms(1)] by simp
  then have ex: "ids_exact de_delegatorId (map_of ?ds) (ids_at (delegatorIndex db))" and wf: "om_wf ?ds"
    by (simp_all add: ddb_inv_def)
  have sum: "(\<Sum>e\<in>#{# e \<in># mset (map snd ?ds). de_delegatorId e = rr_delegatorId r #}. due r e) =
      (\<Sum>e\<leftarrow>entries_of ?ds ?ids. due r e)"
    using entries_of_exact [OF wf ex, of "rr_delegatorId r"] by (metis mset_map sum_mset_sum_list)
  have dist: "distinct ?ids" and mem: "i \<in> set ?ids \<longleftrightarrow> map_option de_delegatorId (map_of ?ds i) = Some (rr_delegatorId r)" for i
    using ex by (simp_all add: ids_exact_def)
  note spec = claim_loop_spec [OF dist, of 0 r ?ds "ddb_currentHeight db"]
  have run: "ProcessRewardClaim r db = Some (fst ?loop, ?db)"
    using assms(2) by (simp add: ProcessRewardClaim_spec split: prod.split)
  have "claim_loop r (ddb_currentHeight db) ?ids 0 (snd ?loop) = (0, snd ?loop)"
    using spec assms(3) sum by (intro claim_loop_nothing) auto
  then have again: "ProcessRewardClaim r ?db = Some (0, ?db)"
    using assms(2) by (simp add: ProcessRewardClaim_spec)
  have "map_of (delegations ?db) i = map_option (\<lambda>e. if de_delegatorId e = rr_delegatorId r
        then claimed r (ddb_currentHeight db) e else e) (map_of ?ds i)" for i
    using spec assms(3) sum mem [of i] by (cases "map_of ?ds i") auto
  then show ?thesis using run again spec assms(3) sum by auto
qed

definition sample_claim :: RewardClaimRequest where
  "sample_claim = \<lparr>rr_delegatorId = 11, rr_validatorId = 0, rr_height = 0, rr_signature = []\<rparr>"

definition rewarded_ddb :: DelegationDB where
  "rewarded_ddb = sample_ddb\<lparr>delegations := [(44, sample_delegation\<lparr>de_pendingRewards := 900\<rparr>)]\<rparr>"

lemma rewarded_reachable: "stores_reachable flat_crypto CMainParams (rewarded_ddb, Some funded_vdb)"
proof -
  have "AddRewards 44 900 sample_ddb = Some (True, rewarded_ddb)"
    by (simp add: AddRewards_def modify_delegation_def ddb_run rewarded_ddb_def ddb_sample_defs s64_id)
  then show ?thesis by (rule stores_reachable.step [OF sample_stores_reachable stores_step.reward])
qed

theorem reward_claim_pays_once_witness:
  "\<exists>db'. ProcessRewardClaim sample_claim rewarded_ddb = Some (900, db') \<and>
     ProcessRewardClaim sample_claim db' = Some (0, db')"
proof -
  have d: "(\<Sum>e\<in>#{# e \<in># mset (map snd (delegations rewarded_ddb)). de_delegatorId e = rr_delegatorId sample_claim #}.
      due sample_claim e) = 900"
    by (simp add: rewarded_ddb_def ddb_sample_defs sample_claim_def due_def claim_covers_def)
  show ?thesis
    using reward_claim_pays_once [OF rewarded_reachable, of sample_claim, unfolded d]
    by (auto simp: rewarded_ddb_def sample_ddb_def DelegationDB_new_def)
qed

section \<open>Distributing a block reward\<close>

lemma distribute_relocks: "a \<noteq> 0 \<Longrightarrow> DistributeBlockReward k a db = None"
  unfolding DistributeBlockReward_def
  by (rule ddbm.nested_lock_blocks)
    (simp add: GetTotalDelegationForValidator_def ddbm.relock_const_blocks)

text \<open>
  C31. \<^verbatim>\<open>DistributeBlockReward\<close> never returns for a non-zero share: it holds
  \<^verbatim>\<open>cs_delegations\<close> when it asks \<^verbatim>\<open>GetTotalDelegationForValidator\<close> for the total,
  and that function locks the same non-recursive mutex.
\<close>

theorem DistributeBlockReward_deadlocks:
  assumes "delegatorsShare \<noteq> 0"
  shows "DistributeBlockReward validatorId delegatorsShare db = None"
  using assms by (rule distribute_relocks)

theorem DistributeBlockReward_deadlocks_witness:
  "DistributeBlockReward 7 1 sample_ddb = None \<and> DistributeBlockReward 7 0 sample_ddb = Some (True, sample_ddb)"
  using DistributeBlockReward_deadlocks [of 1 7 sample_ddb]
  by (simp add: DistributeBlockReward_def LOCK_def sample_ddb_def DelegationDB_new_def)











section \<open>Undelegation\<close>

definition undelegates :: "UndelegationRequest \<Rightarrow> (uint256, DelegationEntry) omap \<Rightarrow> uint256 \<Rightarrow> bool" where
  "undelegates r ds i \<longleftrightarrow>
     (\<exists>e. map_of ds i = Some e \<and> de_validatorId e = ur_validatorId r \<and> de_status e = DS_ACTIVE)"

definition unbonding :: "int \<Rightarrow> DelegationEntry \<Rightarrow> DelegationEntry" where
  "unbonding h e = e\<lparr>de_status := DS_UNBONDING, de_unbondingStartHeight := h\<rparr>"

lemma undelegate_loop_skip:
  "\<forall>j \<in> set pre. \<not> undelegates r ds j \<Longrightarrow>
   undelegate_loop r h (pre @ ids) remaining any ds g = undelegate_loop r h ids remaining any ds g"
  by (induction pre) (auto simp: undelegates_def split: option.split)

lemma undelegate_loop_hit:
  assumes "map_of ds i = Some e" and "de_validatorId e = ur_validatorId r" and "de_status e = DS_ACTIVE"
    and "with_validators (RemoveDelegation (ur_validatorId r)
      (if ur_amount r = 0 \<or> de_amount e \<le> remaining then de_amount e else remaining)) g = Some g'"
    and "ur_amount r = 0 \<and> remaining = 0 \<or> ur_amount r \<noteq> 0 \<and> remaining < de_amount e"
  shows "undelegate_loop r h (i # ids) remaining any ds g = Some (True, om_put i (unbonding h e) ds, g')"
  using assms by (auto simp: unbonding_def Let_def)

lemma RemoveDelegation_returns:
  "(\<And>v. g = Some v \<Longrightarrow> \<not> cs_validators v) \<Longrightarrow> \<exists>g'. with_validators (RemoveDelegation k a) g = Some g'"
  by (cases g) (auto simp: with_validators_def RemoveDelegation_def modify_spec split: option.split)

text \<open>
  An undelegation request with amount 0, documented as \<^verbatim>\<open>0 = all\<close>, starts the
  unbonding of one delegation only: the first active one to the validator in the delegator's list.
  Every other delegation, active ones included, is left as it is.
\<close>

theorem undelegate_all_takes_first:
  assumes "\<not> cs_delegations db" and "\<And>v. g = Some v \<Longrightarrow> \<not> cs_validators v" and "ur_amount r = 0"
    and "map_of (delegatorIndex db) (ur_delegatorId r) = Some (pre @ i # post)"
    and "\<forall>j \<in> set pre. \<not> undelegates r (delegations db) j"
    and "map_of (delegations db) i = Some e" and "de_validatorId e = ur_validatorId r" and "de_status e = DS_ACTIVE"
  shows "\<exists>g'. ProcessUndelegation r (db, g) =
    Some (True, db\<lparr>delegations := om_put i (unbonding (ddb_currentHeight db) e) (delegations db)\<rparr>, g')"
proof -
  obtain g' where "with_validators (RemoveDelegation (ur_validatorId r) (de_amount e)) g = Some g'"
    using RemoveDelegation_returns [OF assms(2)] by blast
  then have "undelegate_loop r (ddb_currentHeight db) (i # post) 0 False (delegations db) g =
      Some (True, om_put i (unbonding (ddb_currentHeight db) e) (delegations db), g')"
    using assms by (intro undelegate_loop_hit) simp_all
  then show ?thesis
    using assms(1,3,4,5)
    by (simp add: ProcessUndelegation_def LOCK_def undelegate_loop_skip del: undelegate_loop.simps)
qed

definition undelegate_request :: "CAmount \<Rightarrow> UndelegationRequest" where
  "undelegate_request a = \<lparr>ur_delegatorId = 11, ur_validatorId = 7, ur_amount = a, ur_height = 0, ur_signature = []\<rparr>"

text \<open>Two active delegations of the same delegator to the same validator.\<close>

definition two_ddb :: DelegationDB where
  "two_ddb = sample_ddb\<lparr>delegations := [(44, sample_delegation\<lparr>de_status := DS_ACTIVE\<rparr>),
     (45, sample_delegation\<lparr>de_status := DS_ACTIVE, de_delegationHeight := 20\<rparr>)], delegatorIndex := [(11, [44, 45])],
     validatorIndex := [(7, [44, 45])]\<rparr>"

theorem undelegate_all_takes_first_witness:
  "\<exists>g' db'. ProcessUndelegation (undelegate_request 0) (two_ddb, Some funded_vdb) = Some (True, db', g') \<and>
     map_option de_status (map_of (delegations db') 44) = Some DS_UNBONDING \<and>
     map_option de_status (map_of (delegations db') 45) = Some DS_ACTIVE"
proof -
  have "\<exists>g'. ProcessUndelegation (undelegate_request 0) (two_ddb, Some funded_vdb) =
    Some (True, two_ddb\<lparr>delegations := om_put 44 (unbonding (ddb_currentHeight two_ddb)
      (sample_delegation\<lparr>de_status := DS_ACTIVE\<rparr>)) (delegations two_ddb)\<rparr>, g')"
    by (rule undelegate_all_takes_first [where pre = "[]" and post = "[45]"])
      (simp_all add: two_ddb_def undelegate_request_def ddb_sample_defs funded_vdb_def active_vdb_def sample_defs)
  then show ?thesis by (auto simp: two_ddb_def unbonding_def)
qed

text \<open>
  A partial undelegation, of less than the first active delegation holds, unbonds that whole
  delegation but takes only the requested part off the validator's total: the rest stays counted
  as delegated although no bonded delegation backs it any more.
\<close>

theorem partial_undelegation_unbonds_all:
  assumes "\<not> cs_delegations db" and "\<not> cs_validators v" and "0 < ur_amount r" and "ur_amount r < de_amount e"
    and "map_of (delegatorIndex db) (ur_delegatorId r) = Some (pre @ i # post)"
    and "\<forall>j \<in> set pre. \<not> undelegates r (delegations db) j"
    and "map_of (delegations db) i = Some e" and "de_validatorId e = ur_validatorId r" and "de_status e = DS_ACTIVE"
    and "map_of (validators v) (ur_validatorId r) = Some ve" and "de_amount e \<le> ve_totalDelegated ve"
    and "fits 64 (ve_totalDelegated ve)"
  shows "\<exists>v' ve'. ProcessUndelegation r (db, Some v) =
      Some (True, db\<lparr>delegations := om_put i (unbonding (ddb_currentHeight db) e) (delegations db)\<rparr>, Some v') \<and>
    map_of (validators v') (ur_validatorId r) = Some ve' \<and>
    ve_totalDelegated ve' = ve_totalDelegated ve - ur_amount r"
proof -
  let ?ve = "ve\<lparr>ve_totalDelegated := s64 (ve_totalDelegated ve - ur_amount r),
    ve_delegatorCount := (if 0 < ve_delegatorCount ve then s32 (ve_delegatorCount ve - 1) else ve_delegatorCount ve)\<rparr>"
  have exact: "s64 (ve_totalDelegated ve - ur_amount r) = ve_totalDelegated ve - ur_amount r"
    using assms(3,4,11,12) by (intro wrap_id) (auto simp: fits_def)
  have remv: "with_validators (RemoveDelegation (ur_validatorId r) (ur_amount r)) (Some v) =
      Some (Some (set_entry (ur_validatorId r) ?ve v))"
    using assms by (simp add: with_validators_def RemoveDelegation_def modify_spec)
  then have "undelegate_loop r (ddb_currentHeight db) (i # post) (ur_amount r) False (delegations db) (Some v) =
      Some (True, om_put i (unbonding (ddb_currentHeight db) e) (delegations db), Some (set_entry (ur_validatorId r) ?ve v))"
    using assms by (intro undelegate_loop_hit) auto
  then show ?thesis
    using assms(1,5,6) exact
    by (simp add: ProcessUndelegation_def LOCK_def undelegate_loop_skip del: undelegate_loop.simps)
qed

theorem partial_undelegation_unbonds_all_witness:
  "\<exists>v' db' ve'. ProcessUndelegation (undelegate_request (500 * COIN)) (two_ddb, Some funded_vdb) = Some (True, db', Some v') \<and>
     map_option de_status (map_of (delegations db') 44) = Some DS_UNBONDING \<and>
     map_of (validators v') 7 = Some ve' \<and> ve_totalDelegated ve' = 1500 * COIN"
proof -
  have vid: "ur_validatorId (undelegate_request (500 * COIN)) = 7" by (simp add: undelegate_request_def)
  have "\<exists>v' ve'. ProcessUndelegation (undelegate_request (500 * COIN)) (two_ddb, Some funded_vdb) =
    Some (True, two_ddb\<lparr>delegations := om_put 44 (unbonding (ddb_currentHeight two_ddb)
      (sample_delegation\<lparr>de_status := DS_ACTIVE\<rparr>)) (delegations two_ddb)\<rparr>, Some v') \<and>
    map_of (validators v') (ur_validatorId (undelegate_request (500 * COIN))) = Some ve' \<and>
    ve_totalDelegated ve' = ve_totalDelegated (sample_validator\<lparr>ve_status := VS_ACTIVE, ve_totalDelegated := 2000 * COIN,
     ve_delegatorCount := 1\<rparr>) - ur_amount (undelegate_request (500 * COIN))"
    by (rule partial_undelegation_unbonds_all [where pre = "[]" and post = "[45]"])
      (simp_all add: two_ddb_def undelegate_request_def ddb_sample_defs funded_vdb_def active_vdb_def sample_defs
        COIN_def fits_def)
  then show ?thesis unfolding vid by (auto simp: two_ddb_def unbonding_def undelegate_request_def)
qed

lemma undelegate_loop_unsigned:
  "undelegate_loop (r\<lparr>ur_height := h', ur_signature := sig\<rparr>) h ids remaining any ds g =
   undelegate_loop r h ids remaining any ds g"
  by (induction ids arbitrary: remaining any ds g) (simp_all cong: if_cong option.case_cong)

lemma claim_loop_unsigned:
  "claim_loop (r\<lparr>rr_height := h', rr_signature := sig\<rparr>) h ids c ds = claim_loop r h ids c ds"
  by (induction ids arbitrary: c ds) (simp_all cong: if_cong option.case_cong)

text \<open>
  Neither an undelegation nor a reward claim is authenticated: the outcome does not depend on
  the signature of the request, nor on the height that is signed with it. Both functions act for
  whoever names the delegator.
\<close>

theorem withdrawals_not_authenticated:
  "ProcessUndelegation (ur\<lparr>ur_height := h, ur_signature := sig\<rparr>) s = ProcessUndelegation ur s \<and>
   ProcessRewardClaim (rr\<lparr>rr_height := h, rr_signature := sig\<rparr>) db = ProcessRewardClaim rr db"
  unfolding ProcessUndelegation_def ProcessRewardClaim_def undelegate_loop_unsigned claim_loop_unsigned
  by (simp cong: option.case_cong)

section \<open>Accepting a delegation\<close>

definition delegation_acceptable :: "Crypto \<Rightarrow> DelegationRequest \<Rightarrow> COutPoint \<Rightarrow> DelegationDB \<Rightarrow> ValidatorDB \<Rightarrow> bool" where
  "delegation_acceptable C r p db v \<longleftrightarrow>
     DelegationRequest_Verify C r \<and> MIN_DELEGATION_AMOUNT \<le> dr_amount r \<and>
     status_of v (dr_validatorId r) = Some VS_ACTIVE \<and>
     map_of (delegations db) (GetDelegationId C (new_delegation r p)) = None"

lemma ProcessDelegation_reject:
  assumes "\<not> cs_delegations db" and "\<not> cs_validators v" and "\<not> delegation_acceptable C r p db v"
  shows "ProcessDelegation C r p (db, Some v) = Some (False, db, Some v)"
  using assms
  by (auto simp: ProcessDelegation_def LOCK_def delegation_acceptable_def delegation_target_ok_def status_of_def
      ValidatorDB_GetValidator_def LOCK_const_def split: option.split)

lemma ProcessDelegation_accept:
  assumes "\<not> cs_delegations db" and "\<not> cs_validators v" and "delegation_acceptable C r p db v"
  shows "\<exists>v'. AddDelegation (dr_validatorId r) (dr_amount r) v = Some (True, v') \<and>
    ProcessDelegation C r p (db, Some v) =
      Some (True, add_delegation_entry (GetDelegationId C (new_delegation r p)) (new_delegation r p) db, Some v')"
proof -
  from assms(3) obtain ve where ve: "map_of (validators v) (dr_validatorId r) = Some ve" "ve_status ve = VS_ACTIVE"
    by (auto simp: delegation_acceptable_def status_of_def)
  have ok: "delegation_target_ok (dr_validatorId r) (Some v) = Some True"
    using ve assms(2) by (simp add: delegation_target_ok_def ValidatorDB_GetValidator_def LOCK_const_def)
  obtain v' where v': "AddDelegation (dr_validatorId r) (dr_amount r) v = Some (True, v')"
    using ve assms(2) by (simp add: AddDelegation_def modify_spec)
  show ?thesis
    using assms(1,3) ok v'
    by (simp add: ProcessDelegation_def LOCK_def delegation_acceptable_def Let_def with_validators_def
        add_delegation_entry_def)
qed

text \<open>
  C33. A delegation is accepted exactly when its signature verifies under the key in the request,
  the amount is at least the minimum, the validator is registered and active, and the delegator has
  no delegation to it at the same height. It is then stored as pending under its identifier and
  added to the validator's total; otherwise both databases are unchanged.
\<close>

theorem ProcessDelegation_decides:
  assumes "\<not> cs_delegations db" and "\<not> cs_validators v"
  shows "if delegation_acceptable C r p db v
    then \<exists>db' v'. ProcessDelegation C r p (db, Some v) = Some (True, db', Some v') \<and>
           AddDelegation (dr_validatorId r) (dr_amount r) v = Some (True, v') \<and>
           delegations db' = om_put (GetDelegationId C (new_delegation r p)) (new_delegation r p) (delegations db) \<and>
           de_status (new_delegation r p) = DS_PENDING \<and> de_amount (new_delegation r p) = dr_amount r
    else ProcessDelegation C r p (db, Some v) = Some (False, db, Some v)"
proof (cases "delegation_acceptable C r p db v")
  case True
  from ProcessDelegation_accept [OF assms True] show ?thesis
    using True by (auto simp: add_delegation_entry_def new_delegation_def)
next
  case False
  then show ?thesis using ProcessDelegation_reject [OF assms False] by simp
qed

theorem ProcessDelegation_decides_witness:
  "\<exists>db' v'. ProcessDelegation flat_crypto sample_request (COutPoint 3 1) (DelegationDB_new CMainParams, Some active_vdb) =
     Some (True, db', Some v') \<and> db' \<noteq> DelegationDB_new CMainParams"
proof -
  have "delegation_acceptable flat_crypto sample_request (COutPoint 3 1) (DelegationDB_new CMainParams) active_vdb"
    by (simp add: delegation_acceptable_def DelegationRequest_Verify_def flat_crypto_def any_crypto_def sample_request_def
        ddb_consts COIN_def active_vdb_def DelegationDB_new_def)
  then show ?thesis
    using ProcessDelegation_decides [of "DelegationDB_new CMainParams" active_vdb flat_crypto sample_request "COutPoint 3 1"]
    by (auto simp: DelegationDB_new_def active_vdb_def sample_defs)
qed

text \<open>
  The delegator named in a request need not be the signer. Whoever holds any key that signs can
  create a delegation in the name of any other identifier \<open>d\<close>: the request is accepted and
  the entry is listed among the delegations of \<open>d\<close>.
\<close>

theorem delegator_identity_unchecked:
  assumes "sign_correct C" and "DelegationRequest_Sign C key r = (True, r')"
    and "dr_delegatorPubKey r = CKey_GetPubKey C key" and "dr_delegatorId r = d"
    and "MIN_DELEGATION_AMOUNT \<le> dr_amount r" and "status_of v (dr_validatorId r) = Some VS_ACTIVE"
    and "map_of (delegations db) (GetDelegationId C (new_delegation r p)) = None"
    and "\<not> cs_delegations db" and "\<not> cs_validators v"
  shows "\<exists>db' g'. ProcessDelegation C r' p (db, Some v) = Some (True, db', g') \<and>
    GetDelegationId C (new_delegation r p) \<in> set (ids_at (delegatorIndex db') d)"
proof -
  from assms(2) obtain s where s: "CKey_Sign C key (DelegationRequest_GetHash C r) = Some s" and r': "r' = r\<lparr>dr_signature := s\<rparr>"
    by (auto simp: DelegationRequest_Sign_def split: option.splits)
  have h: "DelegationRequest_GetHash C r' = DelegationRequest_GetHash C r"
    by (simp add: r' DelegationRequest_GetHash_def DelegationRequest_preimage_def)
  have n: "new_delegation r' p = new_delegation r p" by (simp add: r' new_delegation_def)
  have "DelegationRequest_Verify C r'"
    unfolding DelegationRequest_Verify_def h using assms(1,3) s by (simp add: r' sign_correct_def)
  then have "delegation_acceptable C r' p db v"
    using assms by (simp add: delegation_acceptable_def n) (simp add: r')
  from ProcessDelegation_accept [OF assms(8,9) this] show ?thesis
    using assms(4) unfolding n
    by (auto simp: add_delegation_entry_def store new_delegation_def)
qed

theorem delegator_identity_unchecked_witness:
  "\<exists>r' db' g'. ProcessDelegation toy_crypto r' COutPoint_Null (DelegationDB_new CMainParams, Some active_vdb) = Some (True, db', g') \<and>
     CPubKey_GetID toy_crypto (dr_delegatorPubKey r') \<noteq> dr_delegatorId r' \<and> ids_at (delegatorIndex db') (dr_delegatorId r') \<noteq> []"
proof -
  let ?r = "sample_request\<lparr>dr_delegatorId := 99\<rparr>"
  let ?r' = "snd (DelegationRequest_Sign toy_crypto [2] ?r)"
  have sg: "DelegationRequest_Sign toy_crypto [2] ?r = (True, ?r')"
    by (simp add: DelegationRequest_Sign_def toy_crypto_def)
  have f: "dr_delegatorId ?r' = 99" "dr_delegatorPubKey ?r' = [2]"
    by (simp_all add: DelegationRequest_Sign_def toy_crypto_def sample_request_def)
  have "\<exists>db' g'. ProcessDelegation toy_crypto ?r' COutPoint_Null (DelegationDB_new CMainParams, Some active_vdb) = Some (True, db', g') \<and>
    GetDelegationId toy_crypto (new_delegation ?r COutPoint_Null) \<in> set (ids_at (delegatorIndex db') 99)"
    by (rule delegator_identity_unchecked [OF toy_sign_correct sg])
      (simp_all add: toy_crypto_def sample_request_def ddb_consts COIN_def status_of_def active_vdb_def sample_defs DelegationDB_new_def)
  then obtain db' g' where
    run: "ProcessDelegation toy_crypto ?r' COutPoint_Null (DelegationDB_new CMainParams, Some active_vdb) = Some (True, db', g')"
    and listed: "GetDelegationId toy_crypto (new_delegation ?r COutPoint_Null) \<in> set (ids_at (delegatorIndex db') 99)"
    by blast
  have "CPubKey_GetID toy_crypto (dr_delegatorPubKey ?r') \<noteq> dr_delegatorId ?r'"
    unfolding f by (simp add: CPubKey_GetID_def toy_crypto_def)
  moreover have "ids_at (delegatorIndex db') (dr_delegatorId ?r') \<noteq> []" using listed unfolding f by auto
  ultimately show ?thesis using run by blast
qed

section \<open>Life cycle\<close>

text \<open>
  C34. A block moves a delegation along its life cycle and nothing else: a pending one becomes active
  once it is 500 blocks old, an unbonding one is withdrawn 259200 blocks after the unbonding began,
  and every other status stays; the parties, the amount, the output and the rewards are kept.
\<close>

theorem delegation_lifecycle:
  assumes "\<not> cs_delegations db" and "map_of (delegations db) i = Some e"
    and "fits 32 (h - de_delegationHeight e)" and "fits 32 (h - de_unbondingStartHeight e)"
  shows "\<exists>db'. DelegationDB_ProcessBlock h db = Some ((), db') \<and> map_of (delegations db') i = Some (e\<lparr>de_status :=
    (if de_status e = DS_PENDING \<and> 500 \<le> h - de_delegationHeight e then DS_ACTIVE
     else if de_status e = DS_UNBONDING \<and> 259200 \<le> h - de_unbondingStartHeight e then DS_WITHDRAWN
     else de_status e)\<rparr>)"
  using assms
  by (simp add: DelegationDB_ProcessBlock_def ddb_run map_of_om_vals mature_delegation_def Let_def wrap_id ddb_consts)

theorem delegation_lifecycle_witness:
  "\<exists>db'. DelegationDB_ProcessBlock 510 sample_ddb = Some ((), db') \<and>
     map_of (delegations db') 44 = Some (sample_delegation\<lparr>de_status := DS_ACTIVE\<rparr>)"
  using delegation_lifecycle [of sample_ddb 44 sample_delegation 510] by (simp add: ddb_sample_defs fits_def)

section \<open>Persistence\<close>

definition dstatus_byte :: "DelegationStatus \<Rightarrow> nat" where
  "dstatus_byte st = (case st of DS_PENDING \<Rightarrow> 0 | DS_ACTIVE \<Rightarrow> 1 | DS_UNBONDING \<Rightarrow> 2 | DS_WITHDRAWN \<Rightarrow> 3
     | DS_OTHER b \<Rightarrow> unat b)"

definition dstatus_of_byte :: "nat \<Rightarrow> DelegationStatus" where
  "dstatus_of_byte n = (if n = 0 then DS_PENDING else if n = 1 then DS_ACTIVE else if n = 2 then DS_UNBONDING
     else if n = 3 then DS_WITHDRAWN else DS_OTHER (of_nat n))"

definition dstatus_ok :: "DelegationStatus \<Rightarrow> bool" where
  "dstatus_ok st \<longleftrightarrow> (case st of DS_OTHER b \<Rightarrow> 4 \<le> unat b | _ \<Rightarrow> True)"

lemma dstatus_byte_less: "dstatus_byte st < 2 ^ 8"
proof (cases st)
  case (DS_OTHER b)
  then show ?thesis using unsigned_less [of b] by (simp add: dstatus_byte_def)
qed (simp_all add: dstatus_byte_def)

lemma dstatus_of_byte_of: "dstatus_ok st \<Longrightarrow> dstatus_of_byte (dstatus_byte st) = st"
  by (cases st) (auto simp: dstatus_byte_def dstatus_of_byte_def dstatus_ok_def)

definition ser_DelegationEntry :: "DelegationEntry \<Rightarrow> byte list" where
  "ser_DelegationEntry e =
     ser_blob 20 (de_delegatorId e) @ ser_blob 20 (de_validatorId e) @ ser_int 8 (de_amount e) @
     ser_int 4 (de_delegationHeight e) @ ser_int 4 (de_lastRewardHeight e) @ ser_u8 (dstatus_byte (de_status e)) @
     ser_outpoint (de_delegationOutpoint e) @ ser_int 4 (de_unbondingStartHeight e) @ ser_int 8 (de_pendingRewards e)"

definition unser_DelegationEntry :: "DelegationEntry reader" where
  "unser_DelegationEntry =
     rd_bind (unser_blob 20) (\<lambda>d. rd_bind (unser_blob 20) (\<lambda>v. rd_bind (unser_int 8) (\<lambda>a.
     rd_bind (unser_int 4) (\<lambda>h. rd_bind (unser_int 4) (\<lambda>l. rd_bind unser_u8 (\<lambda>st.
     rd_bind unser_outpoint (\<lambda>outp. rd_bind (unser_int 4) (\<lambda>u. rd_bind (unser_int 8) (\<lambda>pr.
     rd_ret \<lparr>de_delegatorId = d, de_validatorId = v, de_amount = a, de_delegationHeight = h, de_lastRewardHeight = l,
       de_status = dstatus_of_byte st, de_delegationOutpoint = outp, de_unbondingStartHeight = u,
       de_pendingRewards = pr\<rparr>)))))))))"

definition DelegationEntry_typed :: "DelegationEntry \<Rightarrow> bool" where
  "DelegationEntry_typed e \<longleftrightarrow> fits 64 (de_amount e) \<and> fits 32 (de_delegationHeight e) \<and> fits 32 (de_lastRewardHeight e) \<and>
     dstatus_ok (de_status e) \<and> fits 32 (de_unbondingStartHeight e) \<and> fits 64 (de_pendingRewards e)"

interpretation dentry: codec ser_DelegationEntry unser_DelegationEntry DelegationEntry_typed
  by unfold_locales
    (simp add: ser_DelegationEntry_def unser_DelegationEntry_def DelegationEntry_typed_def rd_bind_def rd_ret_def
      read_backs dstatus_byte_less [simplified] dstatus_of_byte_of)










section \<open>Signed requests\<close>

definition DelegationRequest_fields :: "DelegationRequest \<Rightarrow> CKeyID \<times> CPubKey \<times> CKeyID \<times> int \<times> int" where
  "DelegationRequest_fields r =
     (dr_delegatorId r, dr_delegatorPubKey r, dr_validatorId r, dr_amount r, dr_height r)"

definition ser_request_fields :: "CKeyID \<times> CPubKey \<times> CKeyID \<times> int \<times> int \<Rightarrow> byte list" where
  "ser_request_fields = (\<lambda>(d, pk, v, a, h). ser_blob 20 d @ ser_pubkey pk @ ser_blob 20 v @ ser_int 8 a @ ser_int 4 h)"

definition unser_request_fields :: "(CKeyID \<times> CPubKey \<times> CKeyID \<times> int \<times> int) reader" where
  "unser_request_fields = rd_bind (unser_blob 20) (\<lambda>d. rd_bind unser_pubkey (\<lambda>pk. rd_bind (unser_blob 20) (\<lambda>v.
     rd_bind (unser_int 8) (\<lambda>a. rd_bind (unser_int 4) (\<lambda>h. rd_ret (d, pk, v, a, h))))))"

definition request_fields_ok :: "CKeyID \<times> CPubKey \<times> CKeyID \<times> int \<times> int \<Rightarrow> bool" where
  "request_fields_ok = (\<lambda>(d, pk, v, a, h). CPubKey_ok pk \<and> fits 64 a \<and> fits 32 h)"

interpretation drmsg: signed_message ser_request_fields unser_request_fields request_fields_ok
    DelegationRequest_fields DelegationRequest_preimage
  by unfold_locales
    (auto simp: ser_request_fields_def unser_request_fields_def request_fields_ok_def rd_bind_def rd_ret_def
      read_backs DelegationRequest_fields_def DelegationRequest_preimage_def)

text \<open>
  The identifier of a delegation is the hash of the delegator, the validator and the height: two
  delegations can only share it if they agree in all three, or if the hash collides.
\<close>

definition DelegationEntry_key :: "DelegationEntry \<Rightarrow> CKeyID \<times> CKeyID \<times> int" where
  "DelegationEntry_key e = (de_delegatorId e, de_validatorId e, de_delegationHeight e)"

definition ser_delegation_key :: "CKeyID \<times> CKeyID \<times> int \<Rightarrow> byte list" where
  "ser_delegation_key = (\<lambda>(d, v, h). ser_blob 20 d @ ser_blob 20 v @ ser_int 4 h)"

definition unser_delegation_key :: "(CKeyID \<times> CKeyID \<times> int) reader" where
  "unser_delegation_key = rd_bind (unser_blob 20) (\<lambda>d. rd_bind (unser_blob 20) (\<lambda>v.
     rd_bind (unser_int 4) (\<lambda>h. rd_ret (d, v, h))))"

interpretation dkey: signed_message ser_delegation_key unser_delegation_key "\<lambda>(d, v, h). fits 32 h"
    DelegationEntry_key DelegationEntry_preimage
  by unfold_locales
    (auto simp: ser_delegation_key_def unser_delegation_key_def rd_bind_def rd_ret_def read_backs
      DelegationEntry_key_def DelegationEntry_preimage_def)

text \<open>
  A delegation request is refused only for a real duplicate: if the hash does not collide on
  the preimages involved and the heights are in range, an entry is already stored under the new
  identifier exactly when it has the same delegator, validator and height.
\<close>

theorem delegation_id_distinguishes:
  assumes "ddb_inv C db" and "map_of (delegations db) (GetDelegationId C (new_delegation r p)) = Some e"
    and "Hash C (DelegationEntry_preimage e) = Hash C (DelegationEntry_preimage (new_delegation r p)) \<Longrightarrow>
      DelegationEntry_preimage e = DelegationEntry_preimage (new_delegation r p)"
    and "fits 32 (de_delegationHeight e)" and "fits 32 (dr_height r)"
  shows "de_delegatorId e = dr_delegatorId r \<and> de_validatorId e = dr_validatorId r \<and> de_delegationHeight e = dr_height r"
proof -
  have "GetDelegationId C (new_delegation r p) = GetDelegationId C e"
    using assms(1,2) by (simp add: ddb_inv_def)
  then have "DelegationEntry_preimage e = DelegationEntry_preimage (new_delegation r p)"
    using assms(3) by (simp add: GetDelegationId_def)
  from dkey.preimage_binds [OF _ _ this] show ?thesis
    using assms(4,5) by (simp add: DelegationEntry_key_def new_delegation_def)
qed

theorem delegation_id_distinguishes_witness:
  "map_of (delegations sample_ddb) (GetDelegationId flat_crypto (new_delegation sample_request COutPoint_Null)) = Some sample_delegation \<and>
   de_delegationHeight sample_delegation = dr_height sample_request"
proof -
  have inv: "ddb_inv flat_crypto sample_ddb" using stores_reachable_inv [OF sample_stores_reachable] by simp
  have i: "GetDelegationId flat_crypto (new_delegation sample_request COutPoint_Null) = 44"
    by (simp add: GetDelegationId_def DelegationEntry_preimage_def flat_crypto_def)
  have found: "map_of (delegations sample_ddb) (GetDelegationId flat_crypto (new_delegation sample_request COutPoint_Null)) =
      Some sample_delegation"
    unfolding i by (simp add: sample_ddb_def)
  have "DelegationEntry_preimage sample_delegation = DelegationEntry_preimage (new_delegation sample_request COutPoint_Null)"
    by (simp add: sample_delegation_def DelegationEntry_preimage_def new_delegation_def)
  then show ?thesis
    using delegation_id_distinguishes [OF inv found] found
    by (simp add: sample_delegation_def new_delegation_def sample_request_def fits_def)
qed

end
