(* ===== verification/Ledger.thy ===== *)
theory Ledger
  imports DelegationDB
begin

text \<open>
  The agreement between the two databases. The total a validator entry records as delegated is never
  below the sum of the bonded delegations to it, and equal to the sum as long as every undelegation
  is of amount 0 and nobody sets the totals directly. A partial undelegation ends the equality.
\<close>

section \<open>Bonded totals\<close>

definition bonded :: "DelegationEntry \<Rightarrow> bool" where
  "bonded e \<longleftrightarrow> de_status e = DS_PENDING \<or> de_status e = DS_ACTIVE"

definition bond :: "CKeyID \<Rightarrow> DelegationEntry \<Rightarrow> CAmount" where
  "bond k e = (if de_validatorId e = k \<and> bonded e then de_amount e else 0)"

definition bonded_total :: "(uint256, DelegationEntry) omap \<Rightarrow> CKeyID \<Rightarrow> CAmount" where
  "bonded_total ds k = (\<Sum>x\<leftarrow>ds. bond k (snd x))"

definition recorded_total :: "ValidatorDB \<Rightarrow> CKeyID \<Rightarrow> CAmount" where
  "recorded_total v k = (case map_of (validators v) k of None \<Rightarrow> 0 | Some e \<Rightarrow> ve_totalDelegated e)"

text \<open>
  The recorded totals cover the bonded ones and stay in 64 bits; with \<^term>\<open>w\<close> they are the
  bonded ones.
\<close>

definition balanced :: "bool \<Rightarrow> (uint256, DelegationEntry) omap \<Rightarrow> ValidatorDB \<Rightarrow> bool" where
  "balanced w ds v \<longleftrightarrow> (\<forall>k. bonded_total ds k \<le> recorded_total v k \<and> recorded_total v k < 2 ^ 63 \<and>
     (w \<longrightarrow> recorded_total v k = bonded_total ds k))"


lemma sum_om_put:
  fixes f :: "'k::linorder \<times> 'v \<Rightarrow> int"
  assumes "om_wf m"
  shows "(\<Sum>x\<leftarrow>om_put i v m. f x) =
    (\<Sum>x\<leftarrow>m. f x) - (case map_of m i of None \<Rightarrow> 0 | Some w \<Rightarrow> f (i, w)) + f (i, v)"
  using assms
proof (induction m)
  case (Cons e m)
  obtain j w where e: "e = (j, w)" by (cases e)
  have wf: "om_wf m" and above: "\<forall>x \<in> fst ` set m. j < x" using Cons.prems by (auto simp: om_wf_def e)
  have "map_of m i = None" if "i < j"
  proof (rule ccontr)
    assume "map_of m i \<noteq> None"
    then have "i \<in> fst ` set m" by (simp add: map_of_eq_None_iff)
    then show False using above that by auto
  qed
  moreover have "i = j" if "\<not> i < j" "\<not> j < i" using that by simp
  ultimately show ?case using Cons.IH [OF wf] by (auto simp: e)
qed simp

lemma bonded_total_put:
  "om_wf ds \<Longrightarrow> bonded_total (om_put i e' ds) k =
     bonded_total ds k - (case map_of ds i of None \<Rightarrow> 0 | Some e \<Rightarrow> bond k e) + bond k e'"
  by (simp add: bonded_total_def sum_om_put split: option.split)


lemma bond_mature [simp]: "bond k (mature_delegation h e) = bond k e"
  by (auto simp: bond_def bonded_def mature_delegation_def Let_def)


section \<open>Validator operations that keep the totals\<close>

lemma recorded_total_flag [simp]:
  "recorded_total (v\<lparr>cs_validators := b\<rparr>) = recorded_total v"
  "recorded_total (v\<lparr>vdb_currentHeight := h\<rparr>) = recorded_total v"
  "recorded_total (v\<lparr>vdb_outpointIndex := x\<rparr>) = recorded_total v"
  by (simp_all add: recorded_total_def fun_eq_iff)




text \<open>
  One call on the two databases that returns. With \<^term>\<open>w\<close> the calls are those that keep the
  totals whole: undelegations of amount 0, registrations with a total of 0, and status changes that
  neither bond nor release a delegation. Without it undelegations of every amount, releases by a
  status change, registrations that claim a total and direct calls of \<^verbatim>\<open>AddDelegation\<close> are steps too.
  Every recorded total is to stay below the limit of 64 bits. A status change that bonds a
  delegation again and a direct call of \<^verbatim>\<open>RemoveDelegation\<close> are not steps.
\<close>

inductive ledger_step :: "Crypto \<Rightarrow> bool \<Rightarrow> Stores \<Rightarrow> Stores \<Rightarrow> bool" for C :: Crypto and w :: bool where
  delegate: "ProcessDelegation C r p (db, Some v) = Some (b, s') \<Longrightarrow>
     recorded_total v (dr_validatorId r) + dr_amount r < 2 ^ 63 \<Longrightarrow> ledger_step C w (db, Some v) s'"
| undelegate: "ProcessUndelegation ur (db, Some v) = Some (b, s') \<Longrightarrow> fits 64 (ur_amount ur) \<Longrightarrow>
     recorded_total v (ur_validatorId ur) - ur_amount ur < 2 ^ 63 \<Longrightarrow> (w \<longrightarrow> ur_amount ur = 0) \<Longrightarrow>
     ledger_step C w (db, Some v) s'"
| claim: "ProcessRewardClaim rr db = Some (a, db') \<Longrightarrow> ledger_step C w (db, g) (db', g)"
| reward: "AddRewards i a db = Some (b, db') \<Longrightarrow> ledger_step C w (db, g) (db', g)"
| distribute: "DistributeBlockReward k a db = Some (b, db') \<Longrightarrow> ledger_step C w (db, g) (db', g)"
| set_delegation: "SetDelegationStatus i st db = Some (b, db') \<Longrightarrow>
     (\<And>e. map_of (delegations db) i = Some e \<Longrightarrow> bonded (e\<lparr>de_status := st\<rparr>) \<Longrightarrow> bonded e) \<Longrightarrow>
     (\<And>e. map_of (delegations db) i = Some e \<Longrightarrow> w \<Longrightarrow> bonded e \<Longrightarrow> bonded (e\<lparr>de_status := st\<rparr>)) \<Longrightarrow>
     ledger_step C w (db, g) (db', g)"
| move_output: "UpdateDelegationOutpoint i p db = Some (b, db') \<Longrightarrow> ledger_step C w (db, g) (db', g)"
| set_height: "ledger_step C w (db, g) (DelegationDB_SetHeight h db, g)"
| process_block: "DelegationDB_ProcessBlock h db = Some (u, db') \<Longrightarrow> ledger_step C w (db, g) (db', g)"
| register: "ValidatorDB_RegisterValidator e v = Some (b, v') \<Longrightarrow> 0 \<le> ve_totalDelegated e \<Longrightarrow>
     ve_totalDelegated e < 2 ^ 63 \<Longrightarrow> (w \<longrightarrow> ve_totalDelegated e = 0) \<Longrightarrow> ledger_step C w (db, Some v) (db, Some v')"
| update: "ValidatorDB_ProcessUpdate C u v = Some (b, v') \<Longrightarrow> ledger_step C w (db, Some v) (db, Some v')"
| move_stake: "UpdateStakeOutpoint k p v = Some (b, v') \<Longrightarrow> ledger_step C w (db, Some v) (db, Some v')"
| set_status: "SetValidatorStatus k st v = Some (b, v') \<Longrightarrow> ledger_step C w (db, Some v) (db, Some v')"
| jail: "JailValidator k n v = Some (b, v') \<Longrightarrow> ledger_step C w (db, Some v) (db, Some v')"
| unjail: "UnjailValidator k v = Some (b, v') \<Longrightarrow> ledger_step C w (db, Some v) (db, Some v')"
| validator_height: "ledger_step C w (db, Some v) (db, Some (ValidatorDB_SetHeight h v))"
| add: "AddDelegation k a v = Some (b, v') \<Longrightarrow> \<not> w \<Longrightarrow> 0 \<le> a \<Longrightarrow> recorded_total v k + a < 2 ^ 63 \<Longrightarrow>
     ledger_step C w (db, Some v) (db, Some v')"
| validator_block: "ValidatorDB_ProcessBlock h v = Some (u, v') \<Longrightarrow> ledger_step C w (db, Some v) (db, Some v')"

inductive ledger_reachable :: "Crypto \<Rightarrow> bool \<Rightarrow> Params \<Rightarrow> Stores \<Rightarrow> bool"
  for C :: Crypto and w :: bool and p :: Params where
  init: "ledger_reachable C w p (DelegationDB_new p, Some (ValidatorDB_new p))"
| step: "ledger_reachable C w p s \<Longrightarrow> ledger_step C w s s' \<Longrightarrow> ledger_reachable C w p s'"



section \<open>Delegation operations that keep the totals\<close>

definition same_bonds :: "(uint256, DelegationEntry) omap \<Rightarrow> (uint256, DelegationEntry) omap \<Rightarrow> bool" where
  "same_bonds ds ds' \<longleftrightarrow> (om_wf ds \<longrightarrow> om_wf ds' \<and> bonded_total ds' = bonded_total ds)"

lemma same_bonds_refl [simp]: "same_bonds ds ds"
  by (simp add: same_bonds_def)

lemma same_bonds_trans: "same_bonds ds es \<Longrightarrow> same_bonds es fs \<Longrightarrow> same_bonds ds fs"
  by (simp add: same_bonds_def)

lemma same_bonds_put:
  "map_of ds i = Some e \<Longrightarrow> (\<And>k. bond k e' = bond k e) \<Longrightarrow> same_bonds ds (om_put i e' ds)"
  by (simp add: same_bonds_def store bonded_total_put fun_eq_iff)


lemma distribute_loop_bonds: "same_bonds ds (distribute_loop s t ids ds)"
proof (induction ids arbitrary: ds)
  case (Cons i ids)
  have "same_bonds ds (om_put i (e\<lparr>de_pendingRewards := x\<rparr>) ds)" if "map_of ds i = Some e" for e x
    using that by (rule same_bonds_put) (auto simp: bond_def bonded_def)
  then show ?case using Cons.IH by (auto simp: Let_def split: option.split intro: same_bonds_trans)
qed simp











section \<open>The two operations that move the totals\<close>







section \<open>The ledger theorem\<close>


lemma balanced_flag [simp]:
  "balanced w ds (v\<lparr>cs_validators := b\<rparr>) = balanced w ds v"
  "balanced w ds (v\<lparr>vdb_outpointIndex := x\<rparr>) = balanced w ds v"
  by (simp_all add: balanced_def)











end
