(* ===== verification/NetAddress.thy ===== *)
theory NetAddress
  imports Prelude "HOL-Library.List_Lexorder" "HOL-Library.Product_Lexorder" "HOL-Library.Sublist"
begin

text \<open>
  Network addresses as far as the trust component uses them (netaddress.h and .cpp): the
  classification of a \<^verbatim>\<open>CNetAddr\<close> by the address ranges of the RFCs, whether it is valid and
  routable, the class it is filed under, how reachable it is, its order, and its text form. The
  base32 text of the onion, I2P and internal networks and the parser \<^verbatim>\<open>LookupNumeric\<close>,
  which asks the resolver of the operating system, are parameters.
\<close>

unbundle bit_operations_syntax

section \<open>Addresses\<close>

datatype Network =
  NET_UNROUTABLE | NET_IPV4 | NET_IPV6 | NET_ONION | NET_I2P | NET_CJDNS | NET_INTERNAL | NET_MAX

definition net_num :: "Network \<Rightarrow> nat" where
  "net_num n = (case n of NET_UNROUTABLE \<Rightarrow> 0 | NET_IPV4 \<Rightarrow> 1 | NET_IPV6 \<Rightarrow> 2 | NET_ONION \<Rightarrow> 3
     | NET_I2P \<Rightarrow> 4 | NET_CJDNS \<Rightarrow> 5 | NET_INTERNAL \<Rightarrow> 6 | NET_MAX \<Rightarrow> 7)"

lemma net_num_inj: "net_num a = net_num b \<longleftrightarrow> a = b"
  by (cases a; cases b) (simp_all add: net_num_def)

record CNetAddr =
  m_addr :: "byte list"
  m_net :: Network
  m_scope_id :: nat

definition CNetAddr_new :: CNetAddr where
  "CNetAddr_new = \<lparr>m_addr = replicate 16 0, m_net = NET_IPV6, m_scope_id = 0\<rparr>"

text \<open>The size every constructor gives the bytes of an address.\<close>

definition addr_size :: "Network \<Rightarrow> nat" where
  "addr_size n = (case n of NET_IPV4 \<Rightarrow> 4 | NET_IPV6 \<Rightarrow> 16 | NET_ONION \<Rightarrow> 32 | NET_I2P \<Rightarrow> 32 | NET_CJDNS \<Rightarrow> 16
     | NET_INTERNAL \<Rightarrow> 10 | _ \<Rightarrow> 0)"

definition addr_wf :: "CNetAddr \<Rightarrow> bool" where
  "addr_wf a \<longleftrightarrow> m_net a \<notin> {NET_UNROUTABLE, NET_MAX} \<and> length (m_addr a) = addr_size (m_net a)"

definition HasPrefix :: "byte list \<Rightarrow> byte list \<Rightarrow> bool" where
  "HasPrefix obj pre \<longleftrightarrow> length pre \<le> length obj \<and> take (length pre) obj = pre"

definition ReadBE32 :: "byte list \<Rightarrow> 32 word" where
  "ReadBE32 bs = fold (\<lambda>b w. push_bit 8 w OR ucast b) (take 4 bs) 0"

definition IsIPv4 :: "CNetAddr \<Rightarrow> bool" where
  "IsIPv4 a \<longleftrightarrow> m_net a = NET_IPV4"

definition IsIPv6 :: "CNetAddr \<Rightarrow> bool" where
  "IsIPv6 a \<longleftrightarrow> m_net a = NET_IPV6"

definition IsTor :: "CNetAddr \<Rightarrow> bool" where
  "IsTor a \<longleftrightarrow> m_net a = NET_ONION"

definition IsI2P :: "CNetAddr \<Rightarrow> bool" where
  "IsI2P a \<longleftrightarrow> m_net a = NET_I2P"

definition IsCJDNS :: "CNetAddr \<Rightarrow> bool" where
  "IsCJDNS a \<longleftrightarrow> m_net a = NET_CJDNS"

definition HasCJDNSPrefix :: "CNetAddr \<Rightarrow> bool" where
  "HasCJDNSPrefix a \<longleftrightarrow> m_addr a ! 0 = 0xFC"

definition IsInternal :: "CNetAddr \<Rightarrow> bool" where
  "IsInternal a \<longleftrightarrow> m_net a = NET_INTERNAL"

definition IsBindAny :: "CNetAddr \<Rightarrow> bool" where
  "IsBindAny a = (if \<not> IsIPv4 a \<and> \<not> IsIPv6 a then False else list_all (\<lambda>b. b = 0) (m_addr a))"

section \<open>Address ranges\<close>

definition IsRFC1918 :: "CNetAddr \<Rightarrow> bool" where
  "IsRFC1918 a \<longleftrightarrow> IsIPv4 a \<and> (m_addr a ! 0 = 10 \<or> m_addr a ! 0 = 192 \<and> m_addr a ! 1 = 168 \<or>
     m_addr a ! 0 = 172 \<and> 16 \<le> m_addr a ! 1 \<and> m_addr a ! 1 \<le> 31)"

definition IsRFC2544 :: "CNetAddr \<Rightarrow> bool" where
  "IsRFC2544 a \<longleftrightarrow> IsIPv4 a \<and> m_addr a ! 0 = 198 \<and> (m_addr a ! 1 = 18 \<or> m_addr a ! 1 = 19)"

definition IsRFC3927 :: "CNetAddr \<Rightarrow> bool" where
  "IsRFC3927 a \<longleftrightarrow> IsIPv4 a \<and> HasPrefix (m_addr a) [169, 254]"

definition IsRFC6598 :: "CNetAddr \<Rightarrow> bool" where
  "IsRFC6598 a \<longleftrightarrow> IsIPv4 a \<and> m_addr a ! 0 = 100 \<and> 64 \<le> m_addr a ! 1 \<and> m_addr a ! 1 \<le> 127"

definition IsRFC5737 :: "CNetAddr \<Rightarrow> bool" where
  "IsRFC5737 a \<longleftrightarrow> IsIPv4 a \<and> (HasPrefix (m_addr a) [192, 0, 2] \<or> HasPrefix (m_addr a) [198, 51, 100] \<or>
     HasPrefix (m_addr a) [203, 0, 113])"

definition IsRFC3849 :: "CNetAddr \<Rightarrow> bool" where
  "IsRFC3849 a \<longleftrightarrow> IsIPv6 a \<and> HasPrefix (m_addr a) [0x20, 0x01, 0x0D, 0xB8]"

definition IsRFC3964 :: "CNetAddr \<Rightarrow> bool" where
  "IsRFC3964 a \<longleftrightarrow> IsIPv6 a \<and> HasPrefix (m_addr a) [0x20, 0x02]"

definition IsRFC6052 :: "CNetAddr \<Rightarrow> bool" where
  "IsRFC6052 a \<longleftrightarrow> IsIPv6 a \<and> HasPrefix (m_addr a) [0x00, 0x64, 0xFF, 0x9B, 0, 0, 0, 0, 0, 0, 0, 0]"

definition IsRFC4380 :: "CNetAddr \<Rightarrow> bool" where
  "IsRFC4380 a \<longleftrightarrow> IsIPv6 a \<and> HasPrefix (m_addr a) [0x20, 0x01, 0x00, 0x00]"

definition IsRFC4862 :: "CNetAddr \<Rightarrow> bool" where
  "IsRFC4862 a \<longleftrightarrow> IsIPv6 a \<and> HasPrefix (m_addr a) [0xFE, 0x80, 0, 0, 0, 0, 0, 0]"

definition IsRFC4193 :: "CNetAddr \<Rightarrow> bool" where
  "IsRFC4193 a \<longleftrightarrow> IsIPv6 a \<and> (m_addr a ! 0) AND 0xFE = 0xFC"

definition IsRFC6145 :: "CNetAddr \<Rightarrow> bool" where
  "IsRFC6145 a \<longleftrightarrow> IsIPv6 a \<and> HasPrefix (m_addr a) [0, 0, 0, 0, 0, 0, 0, 0, 0xFF, 0xFF, 0, 0]"

definition IsRFC4843 :: "CNetAddr \<Rightarrow> bool" where
  "IsRFC4843 a \<longleftrightarrow> IsIPv6 a \<and> HasPrefix (m_addr a) [0x20, 0x01, 0x00] \<and> (m_addr a ! 3) AND 0xF0 = 0x10"

definition IsRFC7343 :: "CNetAddr \<Rightarrow> bool" where
  "IsRFC7343 a \<longleftrightarrow> IsIPv6 a \<and> HasPrefix (m_addr a) [0x20, 0x01, 0x00] \<and> (m_addr a ! 3) AND 0xF0 = 0x20"

definition IsHeNet :: "CNetAddr \<Rightarrow> bool" where
  "IsHeNet a \<longleftrightarrow> IsIPv6 a \<and> HasPrefix (m_addr a) [0x20, 0x01, 0x04, 0x70]"

definition IsLocal :: "CNetAddr \<Rightarrow> bool" where
  "IsLocal a =
     (if IsIPv4 a \<and> (m_addr a ! 0 = 127 \<or> m_addr a ! 0 = 0) then True
      else if IsIPv6 a \<and> take 16 (m_addr a) = replicate 15 0 @ [1] then True
      else False)"

definition CNetAddr_IsValid :: "CNetAddr \<Rightarrow> bool" where
  "CNetAddr_IsValid a =
     (if IsIPv6 a \<and> take 16 (m_addr a) = replicate 16 0 then False
      else if IsCJDNS a \<and> \<not> HasCJDNSPrefix a then False
      else if IsRFC3849 a then False
      else if IsInternal a then False
      else if IsIPv4 a \<and> (ReadBE32 (m_addr a) = 0 \<or> ReadBE32 (m_addr a) = 0xFFFFFFFF) then False
      else True)"

definition IsRoutable :: "CNetAddr \<Rightarrow> bool" where
  "IsRoutable a \<longleftrightarrow> CNetAddr_IsValid a \<and> \<not> (IsRFC1918 a \<or> IsRFC2544 a \<or> IsRFC3927 a \<or> IsRFC4862 a \<or> IsRFC6598 a \<or>
     IsRFC5737 a \<or> IsRFC4193 a \<or> IsRFC4843 a \<or> IsRFC7343 a \<or> IsLocal a \<or> IsInternal a)"

section \<open>Classes and reachability\<close>

text \<open>A failing \<^verbatim>\<open>assert\<close> ends the process: \<^const>\<open>None\<close>.\<close>

definition IsAddrV1Compatible :: "CNetAddr \<Rightarrow> bool option" where
  "IsAddrV1Compatible a =
     (case m_net a of NET_IPV4 \<Rightarrow> Some True | NET_IPV6 \<Rightarrow> Some True | NET_INTERNAL \<Rightarrow> Some True
      | NET_ONION \<Rightarrow> Some False | NET_I2P \<Rightarrow> Some False | NET_CJDNS \<Rightarrow> Some False
      | NET_UNROUTABLE \<Rightarrow> None | NET_MAX \<Rightarrow> None)"

definition GetNetwork :: "CNetAddr \<Rightarrow> Network" where
  "GetNetwork a = (if IsInternal a then NET_INTERNAL else if \<not> IsRoutable a then NET_UNROUTABLE else m_net a)"

definition HasLinkedIPv4 :: "CNetAddr \<Rightarrow> bool" where
  "HasLinkedIPv4 a \<longleftrightarrow> IsRoutable a \<and> (IsIPv4 a \<or> IsRFC6145 a \<or> IsRFC6052 a \<or> IsRFC3964 a \<or> IsRFC4380 a)"

definition GetLinkedIPv4 :: "CNetAddr \<Rightarrow> 32 word option" where
  "GetLinkedIPv4 a =
     (if IsIPv4 a then Some (ReadBE32 (m_addr a))
      else if IsRFC6052 a \<or> IsRFC6145 a then Some (ReadBE32 (drop (length (m_addr a) - 4) (m_addr a)))
      else if IsRFC3964 a then Some (ReadBE32 (take 4 (drop 2 (m_addr a))))
      else if IsRFC4380 a then Some (NOT (ReadBE32 (drop (length (m_addr a) - 4) (m_addr a))))
      else None)"

definition GetNetClass :: "CNetAddr \<Rightarrow> Network" where
  "GetNetClass a =
     (if IsInternal a then NET_INTERNAL
      else if \<not> IsRoutable a then NET_UNROUTABLE
      else if HasLinkedIPv4 a then NET_IPV4
      else m_net a)"

definition GetExtNetwork :: "CNetAddr \<Rightarrow> Network" where
  "GetExtNetwork a = (if IsRFC4380 a then NET_MAX else GetNetwork a)"

datatype Reachability =
  REACH_UNREACHABLE | REACH_DEFAULT | REACH_TEREDO | REACH_IPV6_WEAK | REACH_IPV4 | REACH_IPV6_STRONG | REACH_PRIVATE

definition GetReachabilityFrom :: "CNetAddr \<Rightarrow> CNetAddr \<Rightarrow> Reachability" where
  "GetReachabilityFrom a partner =
     (if \<not> IsRoutable a \<or> IsInternal a then REACH_UNREACHABLE
      else
        let ourNet = GetExtNetwork a; theirNet = GetExtNetwork partner;
            fTunnel = IsRFC3964 a \<or> IsRFC6052 a \<or> IsRFC6145 a
        in case theirNet of
             NET_IPV4 \<Rightarrow> (case ourNet of NET_IPV4 \<Rightarrow> REACH_IPV4 | _ \<Rightarrow> REACH_DEFAULT)
           | NET_IPV6 \<Rightarrow>
               (case ourNet of NET_MAX \<Rightarrow> REACH_TEREDO | NET_IPV4 \<Rightarrow> REACH_IPV4
                | NET_IPV6 \<Rightarrow> if fTunnel then REACH_IPV6_WEAK else REACH_IPV6_STRONG | _ \<Rightarrow> REACH_DEFAULT)
           | NET_ONION \<Rightarrow> (case ourNet of NET_IPV4 \<Rightarrow> REACH_IPV4 | NET_ONION \<Rightarrow> REACH_PRIVATE | _ \<Rightarrow> REACH_DEFAULT)
           | NET_I2P \<Rightarrow> (case ourNet of NET_I2P \<Rightarrow> REACH_PRIVATE | _ \<Rightarrow> REACH_DEFAULT)
           | NET_CJDNS \<Rightarrow> (case ourNet of NET_CJDNS \<Rightarrow> REACH_PRIVATE | _ \<Rightarrow> REACH_DEFAULT)
           | NET_MAX \<Rightarrow>
               (case ourNet of NET_MAX \<Rightarrow> REACH_TEREDO | NET_IPV6 \<Rightarrow> REACH_IPV6_WEAK | NET_IPV4 \<Rightarrow> REACH_IPV4
                | _ \<Rightarrow> REACH_DEFAULT)
           | _ \<Rightarrow>
               (case ourNet of NET_MAX \<Rightarrow> REACH_TEREDO | NET_IPV6 \<Rightarrow> REACH_IPV6_WEAK | NET_IPV4 \<Rightarrow> REACH_IPV4
                | NET_ONION \<Rightarrow> REACH_PRIVATE | _ \<Rightarrow> REACH_DEFAULT))"

section \<open>Services and their order\<close>

record CService = CNetAddr +
  port :: nat

definition CService_new :: CService where
  "CService_new = CNetAddr.extend CNetAddr_new \<lparr>port = 0\<rparr>"

abbreviation net_of :: "CService \<Rightarrow> CNetAddr" where
  "net_of s \<equiv> CNetAddr.truncate s"

abbreviation CService_IsValid :: "CService \<Rightarrow> bool" where
  "CService_IsValid s \<equiv> CNetAddr_IsValid (net_of s)"

text \<open>
  \<^verbatim>\<open>operator==\<close> and \<^verbatim>\<open>operator<\<close> compare the network, the bytes and the port, and not
  the scope identifier. \<^verbatim>\<open>prevector\<close> compares lengths first. Both are the comparison of the
  key below, which is what a \<^verbatim>\<open>std::set<CService>\<close> keeps its elements by.
\<close>

type_synonym service_key = "nat \<times> nat \<times> byte list \<times> nat"

definition service_key :: "CService \<Rightarrow> service_key" where
  "service_key s = (net_num (m_net s), length (m_addr s), m_addr s, port s)"

definition CService_eq :: "CService \<Rightarrow> CService \<Rightarrow> bool" where
  "CService_eq a b \<longleftrightarrow> m_net a = m_net b \<and> m_addr a = m_addr b \<and> port a = port b"

lemma service_key_eq: "service_key a = service_key b \<longleftrightarrow> CService_eq a b"
  by (auto simp: service_key_def CService_eq_def net_num_inj)

section \<open>Text\<close>

fun digits :: "nat \<Rightarrow> nat \<Rightarrow> string" where
  "digits b n = (if b < 2 \<or> n < b then [''0123456789abcdef'' ! (n mod 16)]
     else digits b (n div b) @ [''0123456789abcdef'' ! (n mod b mod 16)])"

declare digits.simps [simp del]

definition IPv4ToString :: "byte list \<Rightarrow> string" where
  "IPv4ToString a = digits 10 (unat (a ! 0)) @ ''.'' @ digits 10 (unat (a ! 1)) @ ''.'' @
     digits 10 (unat (a ! 2)) @ ''.'' @ digits 10 (unat (a ! 3))"

text \<open>\<^verbatim>\<open>IPv6ToString\<close>: the groups, the longest run of zero groups, the text.\<close>

definition groups :: "byte list \<Rightarrow> nat list" where
  "groups a = map (\<lambda>i. unat (a ! (2 * i)) * 256 + unat (a ! (2 * i + 1))) [0..<8]"

fun zero_span :: "nat list \<Rightarrow> nat \<Rightarrow> nat \<times> nat \<Rightarrow> nat \<times> nat \<Rightarrow> nat \<times> nat" where
  "zero_span [] i longest current = longest"
| "zero_span (g # gs) i longest current =
     (if g \<noteq> 0 then zero_span gs (i + 1) longest (i + 1, 0)
      else let current' = (fst current, snd current + 1)
           in zero_span gs (i + 1) (if snd longest < snd current' then current' else longest) current')"

fun group_text :: "nat list \<Rightarrow> nat \<Rightarrow> nat \<times> nat \<Rightarrow> string \<Rightarrow> string" where
  "group_text [] i longest r = r"
| "group_text (g # gs) i longest r =
     (if 2 \<le> snd longest \<and> fst longest \<le> i \<and> i < fst longest + snd longest
      then group_text gs (i + 1) longest (if i = fst longest then r @ ''::'' else r)
      else group_text gs (i + 1) longest
             (r @ (if r \<noteq> [] \<and> last r \<noteq> CHR '':'' then '':'' else []) @ digits 16 g))"

definition IPv6ToString :: "byte list \<Rightarrow> nat \<Rightarrow> string" where
  "IPv6ToString a scope_id =
     (let gs = groups a; r = group_text gs 0 (zero_span gs 0 (0, 0) (0, 0)) []
      in if scope_id \<noteq> 0 then r @ ''%'' @ digits 10 scope_id else r)"

record NetText =
  OnionToString :: "byte list \<Rightarrow> string"
  EncodeBase32 :: "byte list \<Rightarrow> bool \<Rightarrow> string"
  LookupNumeric :: "string \<Rightarrow> nat \<Rightarrow> CService"

definition ToStringAddr :: "NetText \<Rightarrow> CNetAddr \<Rightarrow> string" where
  "ToStringAddr T a =
     (case m_net a of
        NET_IPV4 \<Rightarrow> IPv4ToString (m_addr a)
      | NET_IPV6 \<Rightarrow> IPv6ToString (m_addr a) (m_scope_id a)
      | NET_ONION \<Rightarrow> OnionToString T (m_addr a)
      | NET_I2P \<Rightarrow> EncodeBase32 T (m_addr a) False @ ''.b32.i2p''
      | NET_CJDNS \<Rightarrow> IPv6ToString (m_addr a) 0
      | NET_INTERNAL \<Rightarrow> EncodeBase32 T (m_addr a) True @ ''.internal''
      | _ \<Rightarrow> [])"

definition ToStringAddrPort :: "NetText \<Rightarrow> CService \<Rightarrow> string" where
  "ToStringAddrPort T s =
     (let a = net_of s in
      if IsIPv4 a \<or> IsTor a \<or> IsI2P a \<or> IsInternal a then ToStringAddr T a @ '':'' @ digits 10 (port s)
      else ''['' @ ToStringAddr T a @ '']:'' @ digits 10 (port s))"

section \<open>Classes\<close>

text \<open>
  The class of an address keeps the promises its callers rely on: an address with a linked IPv4
  address really yields one, so the closing assertion of \<^verbatim>\<open>GetLinkedIPv4\<close> is never reached; a
  class of IPv6 is only given to IPv6 addresses; and an address is filed as unroutable exactly when
  it is neither internal nor routable.
\<close>

theorem GetNetClass_sound:
  assumes "addr_wf a"
  shows "(HasLinkedIPv4 a \<longrightarrow> GetLinkedIPv4 a \<noteq> None) \<and>
    (GetNetClass a = NET_IPV6 \<longrightarrow> IsIPv6 a \<and> IsRoutable a \<and> \<not> HasLinkedIPv4 a) \<and>
    (GetNetClass a = NET_UNROUTABLE \<longleftrightarrow> \<not> IsInternal a \<and> \<not> IsRoutable a) \<and>
    (IsRoutable a \<longrightarrow> CNetAddr_IsValid a)"
  using assms
  by (auto simp: HasLinkedIPv4_def GetLinkedIPv4_def GetNetClass_def IsIPv6_def IsRoutable_def addr_wf_def)

definition ipv4 :: "byte \<Rightarrow> byte \<Rightarrow> byte \<Rightarrow> byte \<Rightarrow> nat \<Rightarrow> CService" where
  "ipv4 a b c d p = \<lparr>m_addr = [a, b, c, d], m_net = NET_IPV4, m_scope_id = 0, port = p\<rparr>"

lemmas range_defs = IsRFC1918_def IsRFC2544_def IsRFC3927_def IsRFC4862_def IsRFC6598_def IsRFC5737_def IsRFC4193_def
  IsRFC4843_def IsRFC7343_def IsLocal_def IsInternal_def IsRFC3849_def IsIPv4_def IsIPv6_def IsCJDNS_def HasPrefix_def

theorem GetNetClass_sound_witness:
  "addr_wf (net_of (ipv4 8 8 4 4 53)) \<and> HasLinkedIPv4 (net_of (ipv4 8 8 4 4 53)) \<and>
   GetLinkedIPv4 (net_of (ipv4 8 8 4 4 53)) \<noteq> None"
proof -
  let ?a = "net_of (ipv4 8 8 4 4 53)"
  have wf: "addr_wf ?a" by (simp add: ipv4_def addr_wf_def addr_size_def CNetAddr.truncate_def)
  have "HasLinkedIPv4 ?a"
    by (simp add: ipv4_def CNetAddr.truncate_def HasLinkedIPv4_def IsRoutable_def CNetAddr_IsValid_def range_defs ReadBE32_def)
  with GetNetClass_sound [OF wf] wf show ?thesis by blast
qed

section \<open>Text of an address\<close>

lemma digits_nonempty [simp]: "digits b n \<noteq> []" "[] \<noteq> digits b n"
  by (subst digits.simps, simp)+

lemma hexdigit_inj: "i < 16 \<Longrightarrow> j < 16 \<Longrightarrow> ''0123456789abcdef'' ! i = ''0123456789abcdef'' ! j \<Longrightarrow> i = j"
  by (subst (asm) nth_eq_iff_index_eq) simp_all

lemma digits_inj:
  assumes "2 \<le> b" and "b \<le> 16"
  shows "digits b n = digits b m \<Longrightarrow> n = m"
proof (induction n arbitrary: m rule: less_induct)
  case (less n)
  have long: "digits b k = digits b (k div b) @ [''0123456789abcdef'' ! (k mod b)]" if "b \<le> k" for k
  proof -
    have "k mod b < 16" using assms mod_less_divisor [of b k] by linarith
    then show ?thesis using that assms by (subst digits.simps) simp
  qed
  have short: "digits b k = [''0123456789abcdef'' ! k]" if "k < b" for k
    using that assms by (subst digits.simps) simp
  have dig: "i = j" if "i < b" "j < b" "''0123456789abcdef'' ! i = ''0123456789abcdef'' ! j" for i j
    using hexdigit_inj [of i j] that assms by simp
  show ?case
  proof (cases "n < b")
    case True
    then show ?thesis
      using less.prems short [of n] short [of m] long [of m] dig [of n m] by (cases "m < b") auto
  next
    case False
    then have "b \<le> m" using less.prems short [of m] long [of n] by (cases "m < b") auto
    with False less.prems have "digits b (n div b) = digits b (m div b)"
      and "''0123456789abcdef'' ! (n mod b) = ''0123456789abcdef'' ! (m mod b)"
      by (simp_all add: long)
    moreover have "n div b < n" using False assms by (intro div_less_dividend) auto
    ultimately have "n div b = m div b" "n mod b = m mod b"
      using less.IH dig [of "n mod b" "m mod b"] assms by auto
    then show ?thesis by (metis div_mult_mod_eq)
  qed
qed

lemma digits_chars: "set (digits b n) \<subseteq> set ''0123456789abcdef''"
proof (induction b n rule: digits.induct)
  case (1 b n)
  have "''0123456789abcdef'' ! (k mod 16) \<in> set ''0123456789abcdef''" for k
    by (rule nth_mem) simp
  with 1 show ?case by (subst digits.simps) auto
qed

lemma digits_no_separator [simp]: "CHR ''.'' \<notin> set (digits b n)" "CHR '':'' \<notin> set (digits b n)"
  "CHR ''['' \<notin> set (digits b n)"
  using digits_chars [of b n] by auto

lemma split_at_char:
  "xs @ c # ys = xs' @ c # ys' \<Longrightarrow> c \<notin> set xs \<Longrightarrow> c \<notin> set xs' \<Longrightarrow> xs = xs' \<and> ys = ys'"
  by (auto simp: append_eq_append_conv2 Cons_eq_append_conv append_eq_Cons_conv)

lemma unat_eq_byte: "unat (x :: byte) = unat y \<longleftrightarrow> x = y"
  by (simp add: word_unat_eq_iff)

text \<open>
  Two IPv4 services with the same text are the same service: \<^verbatim>\<open>ToStringAddrPort\<close>, which
  the heartbeat hash, the peers file and the stored validator data use in place of the address, is
  injective on them, and it never coincides with the text of an IPv6 or CJDNS service.
\<close>

theorem ToStringAddrPort_ipv4_injective:
  assumes "addr_wf (net_of s)" and "m_net s = NET_IPV4" and "addr_wf (net_of t)" and "m_net t \<in> {NET_IPV4, NET_IPV6, NET_CJDNS}"
    and "ToStringAddrPort T s = ToStringAddrPort T t"
  shows "CService_eq s t"
proof -
  have hd: "hd (digits 10 n @ x) \<noteq> CHR ''[''" for n x
    using digits_no_separator(3) [of 10 n] by (metis digits_nonempty(1) hd_append2 hd_in_set)
  obtain a b c d where s: "m_addr s = [a, b, c, d]"
    using assms(1,2) by (auto simp: addr_wf_def addr_size_def CNetAddr.truncate_def length_Suc_conv numeral_eq_Suc)
  have text_s: "ToStringAddrPort T s = digits 10 (unat a) @ CHR ''.'' # digits 10 (unat b) @ CHR ''.'' #
      digits 10 (unat c) @ CHR ''.'' # digits 10 (unat d) @ CHR '':'' # digits 10 (port s)"
    using assms(2) s by (simp add: ToStringAddrPort_def ToStringAddr_def IPv4ToString_def IsIPv4_def CNetAddr.truncate_def Let_def)
  have "m_net t = NET_IPV4"
  proof (rule ccontr)
    assume "m_net t \<noteq> NET_IPV4"
    then have "hd (ToStringAddrPort T t) = CHR ''[''"
      using assms(4) by (auto simp: ToStringAddrPort_def IsIPv4_def IsTor_def IsI2P_def IsInternal_def CNetAddr.truncate_def Let_def)
    then show False using assms(5) text_s hd by metis
  qed
  moreover from this obtain a' b' c' d' where t: "m_addr t = [a', b', c', d']"
    using assms(3) by (auto simp: addr_wf_def addr_size_def CNetAddr.truncate_def length_Suc_conv numeral_eq_Suc)
  moreover have "ToStringAddrPort T t = digits 10 (unat a') @ CHR ''.'' # digits 10 (unat b') @ CHR ''.'' #
      digits 10 (unat c') @ CHR ''.'' # digits 10 (unat d') @ CHR '':'' # digits 10 (port t)"
    using calculation by (simp add: ToStringAddrPort_def ToStringAddr_def IPv4ToString_def IsIPv4_def CNetAddr.truncate_def Let_def)
  ultimately show ?thesis
    using assms(2,5) s text_s
    by (auto simp: CService_eq_def unat_eq_byte dest!: split_at_char dest: digits_inj [rotated 2])
qed

definition no_names :: NetText where
  "no_names = \<lparr>OnionToString = (\<lambda>_. []), EncodeBase32 = (\<lambda>_ _. []), LookupNumeric = (\<lambda>_ _. CService_new)\<rparr>"

theorem ToStringAddrPort_ipv4_injective_witness:
  "ToStringAddrPort no_names (ipv4 10 0 0 1 80) \<noteq> ToStringAddrPort no_names (ipv4 1 0 0 180 80)"
proof
  assume eq: "ToStringAddrPort no_names (ipv4 10 0 0 1 80) = ToStringAddrPort no_names (ipv4 1 0 0 180 80)"
  have "CService_eq (ipv4 10 0 0 1 80) (ipv4 1 0 0 180 80)"
    by (rule ToStringAddrPort_ipv4_injective [OF _ _ _ _ eq])
      (simp_all add: ipv4_def addr_wf_def addr_size_def CNetAddr.truncate_def)
  then show False by (simp add: CService_eq_def ipv4_def)
qed

section \<open>Zero compression\<close>

definition zero_run :: "nat list \<Rightarrow> nat \<Rightarrow> nat \<Rightarrow> bool" where
  "zero_run gs st len \<longleftrightarrow> st + len \<le> length gs \<and> (\<forall>k < len. gs ! (st + k) = 0)"

text \<open>What the scan knows after \<open>n\<close> groups.\<close>

definition span_inv :: "nat list \<Rightarrow> nat \<Rightarrow> nat \<times> nat \<Rightarrow> nat \<times> nat \<Rightarrow> bool" where
  "span_inv gs n longest current \<longleftrightarrow>
     fst current + snd current = n \<and> zero_run gs (fst current) (snd current) \<and>
     (0 < fst current \<longrightarrow> gs ! (fst current - 1) \<noteq> 0) \<and>
     zero_run gs (fst longest) (snd longest) \<and> fst longest + snd longest \<le> n \<and>
     (\<forall>st len. zero_run gs st len \<longrightarrow> st + len \<le> n \<longrightarrow> 0 < len \<longrightarrow>
        len \<le> snd longest \<and> (len = snd longest \<longrightarrow> fst longest \<le> st))"

lemma zero_run_current:
  assumes "span_inv gs n longest current" and "zero_run gs st len" and "st + len = Suc n" and "0 < len"
  shows "fst current \<le> st"
proof (rule ccontr)
  assume "\<not> fst current \<le> st"
  then have st: "st < fst current" by simp
  have "fst current \<le> n" using assms(1) by (auto simp: span_inv_def)
  then have k: "fst current - 1 - st < len" using st assms(3) by simp
  have "gs ! (st + (fst current - 1 - st)) = 0" using assms(2) k unfolding zero_run_def by blast
  moreover have "gs ! (fst current - 1) \<noteq> 0" using assms(1) st by (auto simp: span_inv_def)
  ultimately show False using st by simp
qed

lemma span_inv_nonzero:
  assumes "span_inv gs n longest current" and "n < length gs" and "gs ! n \<noteq> 0"
  shows "span_inv gs (Suc n) longest (Suc n, 0)"
proof -
  have "st + len \<noteq> Suc n" if "zero_run gs st len" "0 < len" for st len
  proof
    assume e: "st + len = Suc n"
    have "len - 1 < len" using that(2) by simp
    then have "gs ! (st + (len - 1)) = 0" using that(1) unfolding zero_run_def by blast
    moreover have "st + (len - 1) = n" using e that(2) by simp
    ultimately show False using assms(3) by simp
  qed
  then show ?thesis
    using assms unfolding span_inv_def by (auto simp: zero_run_def le_Suc_eq)
qed

lemma span_inv_zero:
  assumes "span_inv gs n longest current" and "n < length gs" and "gs ! n = 0"
  shows "span_inv gs (Suc n) (if snd longest < Suc (snd current) then (fst current, Suc (snd current)) else longest)
    (fst current, Suc (snd current))"
proof -
  let ?c = "(fst current, Suc (snd current))"
  have n: "fst current + snd current = n" using assms(1) by (simp add: span_inv_def)
  have run: "zero_run gs (fst current) (Suc (snd current))"
    using assms n by (auto simp: span_inv_def zero_run_def less_Suc_eq)
  have new: "fst current \<le> st" if "zero_run gs st len" "st + len = Suc n" "0 < len" for st len
    using zero_run_current [OF assms(1) that] .
  have old: "len \<le> snd longest \<and> (len = snd longest \<longrightarrow> fst longest \<le> st)"
    if "zero_run gs st len" "st + len \<le> n" "0 < len" for st len
    using assms(1) that by (auto simp: span_inv_def)
  show ?thesis
    unfolding span_inv_def
  proof (intro conjI allI impI)
    fix st len
    assume r: "zero_run gs st len" "st + len \<le> Suc n" "0 < len"
    let ?l = "if snd longest < Suc (snd current) then ?c else longest"
    show "len \<le> snd ?l"
      using old [OF r(1) _ r(3)] new [OF r(1) _ r(3)] r(2) n by (cases "st + len = Suc n") auto
    assume "len = snd ?l"
    then show "fst ?l \<le> st"
      using old [OF r(1) _ r(3)] new [OF r(1) _ r(3)] r(2) n assms(1)
      by (cases "st + len = Suc n") (auto simp: span_inv_def split: if_splits)
  qed (use assms(1) run n in \<open>auto simp: span_inv_def\<close>)
qed

lemma zero_span_inv:
  "span_inv gs n longest current \<Longrightarrow> n \<le> length gs \<Longrightarrow> \<exists>current'. span_inv gs (length gs) (zero_span (drop n gs) n longest current) current'"
proof (induction "length gs - n" arbitrary: n longest current)
  case 0
  then have "n = length gs" by simp
  then show ?case using "0.prems" by (intro exI [of _ current]) simp
next
  case (Suc m)
  then have n: "n < length gs" by simp
  then have "drop n gs = gs ! n # drop (Suc n) gs" by (simp add: Cons_nth_drop_Suc)
  then show ?case
    using Suc n span_inv_nonzero [OF Suc.prems(1) n] span_inv_zero [OF Suc.prems(1) n]
    by (cases "gs ! n = 0") (auto simp: Let_def split: if_splits)
qed

text \<open>
  The scan of \<^verbatim>\<open>IPv6ToString\<close> finds the longest run of zero groups, and the first of
  them where several are equally long: the span it returns consists of zero groups, no run is
  longer, and no equally long run starts earlier.
\<close>

theorem zero_span_longest_first:
  "let (st, len) = zero_span gs 0 (0, 0) (0, 0) in
     zero_run gs st len \<and>
     (\<forall>st' len'. zero_run gs st' len' \<and> 0 < len' \<longrightarrow> len' \<le> len \<and> (len' = len \<longrightarrow> st \<le> st'))"
proof -
  have "span_inv gs 0 (0, 0) (0, 0)" by (auto simp: span_inv_def zero_run_def)
  from zero_span_inv [OF this] show ?thesis
    by (auto simp: span_inv_def zero_run_def split: prod.split)
qed

theorem zero_span_longest_first_witness:
  "zero_span [1, 0, 0, 5, 0, 0, 7, 0] 0 (0, 0) (0, 0) = (1, 2) \<and> zero_run [1, 0, 0, 5, 0, 0, 7, 0] 1 2"
  using zero_span_longest_first [of "[1, 0, 0, 5, 0, 0, 7, 0]"] by (simp add: Let_def numeral_2_eq_2)

end
