(* ===== verification/TrustScore.thy ===== *)
theory TrustScore
  imports Params Signing NetAddress
begin

text \<open>
  The trust score (trust/trustscore.h and .cpp): per-validator heartbeat counts, the uptime computed
  from them, the tier and the reward multiplier the uptime earns, and the discovery of peers from
  the addresses validators report, with the file the known peers are saved to.
\<close>

section \<open>Tiers\<close>

datatype TrustTier = TIER_NONE | BRONZE | SILVER | GOLD | PLATINUM

definition tier_num :: "TrustTier \<Rightarrow> int" where
  "tier_num t = (case t of TIER_NONE \<Rightarrow> 0 | BRONZE \<Rightarrow> 1 | SILVER \<Rightarrow> 2 | GOLD \<Rightarrow> 3 | PLATINUM \<Rightarrow> 4)"

definition TrustTierToString :: "TrustTier \<Rightarrow> string" where
  "TrustTierToString t = (case t of TIER_NONE \<Rightarrow> ''NONE'' | BRONZE \<Rightarrow> ''BRONZE'' | SILVER \<Rightarrow> ''SILVER''
     | GOLD \<Rightarrow> ''GOLD'' | PLATINUM \<Rightarrow> ''PLATINUM'')"

section \<open>Validators\<close>

record ValidatorInfo =
  vi_validatorId :: CKeyID
  vi_stakeAmount :: int
  vi_poolFeeRate :: int
  vi_registrationHeight :: int
  vi_lastHeartbeatHeight :: int
  vi_heartbeatsExpected :: int
  vi_heartbeatsReceived :: int
  vi_isActive :: bool
  vi_lastKnownAddress :: CService
  vi_lastCheckInTime :: int
  vi_consecutiveCheckIns :: int
  vi_missedCheckIns :: int

definition ValidatorInfo_new :: ValidatorInfo where
  "ValidatorInfo_new = \<lparr>vi_validatorId = 0, vi_stakeAmount = 0, vi_poolFeeRate = 0, vi_registrationHeight = 0,
     vi_lastHeartbeatHeight = 0, vi_heartbeatsExpected = 0, vi_heartbeatsReceived = 0, vi_isActive = False,
     vi_lastKnownAddress = CService_new, vi_lastCheckInTime = 0, vi_consecutiveCheckIns = 0, vi_missedCheckIns = 0\<rparr>"

definition GetUptimePercentage :: "ValidatorInfo \<Rightarrow> int" where
  "GetUptimePercentage info =
     (if vi_heartbeatsExpected info = 0 then 1000
      else s32 (cdiv (s32 (vi_heartbeatsReceived info * 1000)) (vi_heartbeatsExpected info)))"

definition GetTrustTier :: "Params \<Rightarrow> ValidatorInfo \<Rightarrow> TrustTier" where
  "GetTrustTier p info =
     (if \<not> vi_isActive info \<or> vi_stakeAmount info < nMinValidatorStake p then TIER_NONE
      else let uptime = GetUptimePercentage info
           in if nPlatinumUptimeThreshold p \<le> uptime then PLATINUM
              else if nGoldUptimeThreshold p \<le> uptime then GOLD
              else if nSilverUptimeThreshold p \<le> uptime then SILVER
              else if nBronzeUptimeThreshold p \<le> uptime then BRONZE
              else TIER_NONE)"

definition GetRewardMultiplier :: "Params \<Rightarrow> ValidatorInfo \<Rightarrow> int" where
  "GetRewardMultiplier p info =
     (case GetTrustTier p info of
        PLATINUM \<Rightarrow> nPlatinumRewardMultiplier p
      | GOLD \<Rightarrow> nGoldRewardMultiplier p
      | SILVER \<Rightarrow> nSilverRewardMultiplier p
      | BRONZE \<Rightarrow> nBronzeRewardMultiplier p
      | TIER_NONE \<Rightarrow> 0)"

definition ValidatorInfo_MeetsMinimumStake :: "Params \<Rightarrow> ValidatorInfo \<Rightarrow> bool" where
  "ValidatorInfo_MeetsMinimumStake p info \<longleftrightarrow> nMinValidatorStake p \<le> vi_stakeAmount info"

definition ValidatorInfo_IsEligibleForStaking :: "Params \<Rightarrow> ValidatorInfo \<Rightarrow> bool" where
  "ValidatorInfo_IsEligibleForStaking p info =
     (if \<not> vi_isActive info then False
      else if \<not> ValidatorInfo_MeetsMinimumStake p info then False
      else if GetTrustTier p info = TIER_NONE then False
      else True)"

definition GetIPAddress :: "NetText \<Rightarrow> ValidatorInfo \<Rightarrow> string" where
  "GetIPAddress T info =
     (if \<not> CService_IsValid (vi_lastKnownAddress info) then []
      else ToStringAddr T (net_of (vi_lastKnownAddress info)))"

text \<open>The stored form: the address travels as text and is parsed with the default port 18888.\<close>

definition ser_ValidatorInfo :: "NetText \<Rightarrow> ValidatorInfo \<Rightarrow> byte list" where
  "ser_ValidatorInfo T info =
     ser_blob 20 (vi_validatorId info) @ ser_int 8 (vi_stakeAmount info) @ ser_int 8 (vi_poolFeeRate info) @
     ser_int 4 (vi_registrationHeight info) @ ser_int 4 (vi_lastHeartbeatHeight info) @
     ser_int 4 (vi_heartbeatsExpected info) @ ser_int 4 (vi_heartbeatsReceived info) @ ser_bool (vi_isActive info) @
     ser_str (ToStringAddrPort T (vi_lastKnownAddress info)) @ ser_int 8 (vi_lastCheckInTime info) @
     ser_int 4 (vi_consecutiveCheckIns info) @ ser_int 4 (vi_missedCheckIns info)"

definition parse_address :: "NetText \<Rightarrow> string \<Rightarrow> CService \<Rightarrow> CService" where
  "parse_address T addrStr old = (if addrStr \<noteq> [] then LookupNumeric T addrStr 18888 else old)"

definition unser_ValidatorInfo :: "NetText \<Rightarrow> ValidatorInfo \<Rightarrow> ValidatorInfo reader" where
  "unser_ValidatorInfo T old =
     rd_bind (unser_blob 20) (\<lambda>vid. rd_bind (unser_int 8) (\<lambda>stake. rd_bind (unser_int 8) (\<lambda>fee.
     rd_bind (unser_int 4) (\<lambda>reg. rd_bind (unser_int 4) (\<lambda>hb. rd_bind (unser_int 4) (\<lambda>ex.
     rd_bind (unser_int 4) (\<lambda>rec. rd_bind unser_bool (\<lambda>act. rd_bind unser_str (\<lambda>addrStr.
     rd_bind (unser_int 8) (\<lambda>t. rd_bind (unser_int 4) (\<lambda>con. rd_bind (unser_int 4) (\<lambda>mis.
     rd_ret \<lparr>vi_validatorId = vid, vi_stakeAmount = stake, vi_poolFeeRate = fee, vi_registrationHeight = reg,
       vi_lastHeartbeatHeight = hb, vi_heartbeatsExpected = ex, vi_heartbeatsReceived = rec, vi_isActive = act,
       vi_lastKnownAddress = parse_address T addrStr (vi_lastKnownAddress old), vi_lastCheckInTime = t,
       vi_consecutiveCheckIns = con, vi_missedCheckIns = mis\<rparr>))))))))))))"

section \<open>Heartbeats\<close>

record Heartbeat =
  hb_validatorId :: CKeyID
  hb_blockHeight :: int
  hb_blockHash :: uint256
  hb_timestamp :: int
  hb_nodeAddress :: CService
  hb_nodePort :: nat
  hb_signature :: "byte list"

definition Heartbeat_new :: Heartbeat where
  "Heartbeat_new = \<lparr>hb_validatorId = 0, hb_blockHeight = 0, hb_blockHash = 0, hb_timestamp = 0,
     hb_nodeAddress = CService_new, hb_nodePort = 18888, hb_signature = []\<rparr>"

definition Heartbeat_preimage :: "NetText \<Rightarrow> Heartbeat \<Rightarrow> byte list" where
  "Heartbeat_preimage T h =
     ser_blob 20 (hb_validatorId h) @ ser_int 4 (hb_blockHeight h) @ ser_blob 32 (hb_blockHash h) @
     ser_int 8 (hb_timestamp h) @ ser_str (ToStringAddrPort T (hb_nodeAddress h)) @ ser_uint 2 (hb_nodePort h)"

definition Heartbeat_GetHash :: "Crypto \<Rightarrow> NetText \<Rightarrow> Heartbeat \<Rightarrow> uint256" where
  "Heartbeat_GetHash C T h = Hash C (Heartbeat_preimage T h)"

definition GetNodeAddressString :: "NetText \<Rightarrow> Heartbeat \<Rightarrow> string" where
  "GetNodeAddressString T h =
     (if \<not> CService_IsValid (hb_nodeAddress h) then [] else ToStringAddrPort T (hb_nodeAddress h))"

definition Heartbeat_Sign :: "Crypto \<Rightarrow> NetText \<Rightarrow> CKey \<Rightarrow> Heartbeat \<Rightarrow> bool \<times> Heartbeat" where
  "Heartbeat_Sign C T key h =
     (case CKey_Sign C key (Heartbeat_GetHash C T h) of
        None \<Rightarrow> (False, h) | Some s \<Rightarrow> (True, h\<lparr>hb_signature := s\<rparr>))"

definition Heartbeat_Verify :: "Crypto \<Rightarrow> NetText \<Rightarrow> CPubKey \<Rightarrow> Heartbeat \<Rightarrow> bool" where
  "Heartbeat_Verify C T pubkey h \<longleftrightarrow> CPubKey_Verify C pubkey (Heartbeat_GetHash C T h) (hb_signature h)"

definition ser_Heartbeat :: "NetText \<Rightarrow> Heartbeat \<Rightarrow> byte list" where
  "ser_Heartbeat T h =
     ser_blob 20 (hb_validatorId h) @ ser_int 4 (hb_blockHeight h) @ ser_blob 32 (hb_blockHash h) @
     ser_int 8 (hb_timestamp h) @ ser_str (ToStringAddrPort T (hb_nodeAddress h)) @ ser_uint 2 (hb_nodePort h) @
     ser_vec (hb_signature h)"

definition unser_Heartbeat :: "NetText \<Rightarrow> Heartbeat \<Rightarrow> Heartbeat reader" where
  "unser_Heartbeat T old =
     rd_bind (unser_blob 20) (\<lambda>vid. rd_bind (unser_int 4) (\<lambda>bh. rd_bind (unser_blob 32) (\<lambda>hash.
     rd_bind (unser_int 8) (\<lambda>t. rd_bind unser_str (\<lambda>addrStr. rd_bind (unser_uint 2) (\<lambda>np.
     rd_bind unser_vec (\<lambda>sig.
     rd_ret \<lparr>hb_validatorId = vid, hb_blockHeight = bh, hb_blockHash = hash, hb_timestamp = t,
       hb_nodeAddress = parse_address T addrStr (hb_nodeAddress old), hb_nodePort = np, hb_signature = sig\<rparr>)))))))"

section \<open>Peer discovery\<close>

record PeerDiscoveryManager =
  cs_peers :: bool
  knownValidatorPeers :: "(service_key, CService) omap"
  pendingAdditions :: "(service_key, CService) omap"
  configFilePath :: string

definition PeerDiscoveryManager_new :: PeerDiscoveryManager where
  "PeerDiscoveryManager_new = \<lparr>cs_peers = False, knownValidatorPeers = [], pendingAdditions = [], configFilePath = []\<rparr>"

abbreviation peers_lock ::
  "(PeerDiscoveryManager \<Rightarrow> ('r \<times> PeerDiscoveryManager) option) \<Rightarrow> PeerDiscoveryManager \<Rightarrow> ('r \<times> PeerDiscoveryManager) option" where
  "peers_lock \<equiv> LOCK cs_peers (\<lambda>b. cs_peers_update (\<lambda>_. b))"

interpretation pdm: mutex cs_peers "\<lambda>b. cs_peers_update (\<lambda>_. b)"
  by unfold_locales auto

text \<open>\<^verbatim>\<open>std::set::insert\<close> keeps an element that is already there.\<close>

definition set_insert :: "CService \<Rightarrow> (service_key, CService) omap \<Rightarrow> (service_key, CService) omap" where
  "set_insert s m = (if map_of m (service_key s) = None then om_put (service_key s) s m else m)"

definition SetConfigPath :: "string \<Rightarrow> PeerDiscoveryManager \<Rightarrow> (unit \<times> PeerDiscoveryManager) option" where
  "SetConfigPath path = peers_lock (\<lambda>pd. Some ((), pd\<lparr>configFilePath := path\<rparr>))"

definition ProcessValidatorAddress :: "CService \<Rightarrow> PeerDiscoveryManager \<Rightarrow> (bool \<times> PeerDiscoveryManager) option" where
  "ProcessValidatorAddress address = peers_lock (\<lambda>pd. Some
     (if \<not> CService_IsValid address then (False, pd)
      else if map_of (knownValidatorPeers pd) (service_key address) \<noteq> None then (False, pd)
      else (True, pd\<lparr>pendingAdditions := set_insert address (pendingAdditions pd),
                     knownValidatorPeers := set_insert address (knownValidatorPeers pd)\<rparr>)))"

definition GetPendingPeers :: "PeerDiscoveryManager \<Rightarrow> (CService list \<times> PeerDiscoveryManager) option" where
  "GetPendingPeers = peers_lock (\<lambda>pd. Some (map snd (pendingAdditions pd), pd))"

definition MarkPeerAdded :: "CService \<Rightarrow> PeerDiscoveryManager \<Rightarrow> (unit \<times> PeerDiscoveryManager) option" where
  "MarkPeerAdded address = peers_lock (\<lambda>pd. Some ((),
     pd\<lparr>pendingAdditions := om_erase (service_key address) (pendingAdditions pd)\<rparr>))"

text \<open>
  \<^verbatim>\<open>SavePeersToConfig\<close>: the text written, if the file can be opened. The result is the
  function's value and the new content of the file.
\<close>

definition peers_header :: string where
  "peers_header = ''# WATTx Validator Peers - Auto-generated'' @ [CHR 0x0A] @
     ''# These peers were discovered from validator heartbeats'' @ [CHR 0x0A] @
     ''# Format: addnode=IP:PORT'' @ [CHR 0x0A, CHR 0x0A]"

definition peer_line :: "NetText \<Rightarrow> CService \<Rightarrow> string" where
  "peer_line T peer = ''addnode='' @ ToStringAddrPort T peer @ [CHR 0x0A]"

definition SavePeersToConfig :: "NetText \<Rightarrow> bool \<Rightarrow> PeerDiscoveryManager \<Rightarrow> ((bool \<times> string option) \<times> PeerDiscoveryManager) option" where
  "SavePeersToConfig T can_open = peers_lock (\<lambda>pd. Some
     (if configFilePath pd = [] then ((False, None), pd)
      else if \<not> can_open then ((False, None), pd)
      else ((True, Some (peers_header @ concat (map (peer_line T) (map snd (knownValidatorPeers pd))))), pd)))"

text \<open>\<^verbatim>\<open>std::getline\<close>, \<^verbatim>\<open>find\<close> and the two trims of \<^verbatim>\<open>LoadPeersFromConfig\<close>.\<close>

function getlines :: "string \<Rightarrow> string list" where
  "getlines s = (if s = [] then []
     else takeWhile (\<lambda>c. c \<noteq> CHR 0x0A) s # getlines (drop 1 (dropWhile (\<lambda>c. c \<noteq> CHR 0x0A) s)))"
  by auto
termination
proof (relation "measure length", simp, unfold in_measure)
  fix s :: string assume "s \<noteq> []"
  have "length (dropWhile (\<lambda>c. c \<noteq> CHR 0x0A) s) \<le> length s" by (rule length_dropWhile_le)
  moreover have "0 < length s" using \<open>s \<noteq> []\<close> by simp
  ultimately show "length (drop 1 (dropWhile (\<lambda>c. c \<noteq> CHR 0x0A) s)) < length s"
    unfolding length_drop by linarith
qed

declare getlines.simps [simp del]

fun after_find :: "string \<Rightarrow> string \<Rightarrow> string option" where
  "after_find pat s =
     (if length pat \<le> length s \<and> take (length pat) s = pat then Some (drop (length pat) s)
      else (case s of [] \<Rightarrow> None | _ # t \<Rightarrow> after_find pat t))"

declare after_find.simps [simp del]

definition trim_left :: "string \<Rightarrow> string" where
  "trim_left s = dropWhile (\<lambda>c. c \<in> {CHR '' '', CHR 0x09}) s"

definition trim_right :: "string \<Rightarrow> string" where
  "trim_right s = rev (dropWhile (\<lambda>c. c \<in> {CHR '' '', CHR 0x09, CHR 0x0D, CHR 0x0A}) (rev s))"

definition load_line :: "NetText \<Rightarrow> string \<Rightarrow> (service_key, CService) omap \<Rightarrow> (service_key, CService) omap" where
  "load_line T line known =
     (if line = [] \<or> hd line = CHR ''#'' then known
      else (case after_find ''addnode='' line of
              None \<Rightarrow> known
            | Some rest \<Rightarrow>
                let addrStr = trim_right (trim_left rest)
                in if addrStr = [] then known
                   else let addr = LookupNumeric T addrStr 18888
                        in if CService_IsValid addr then set_insert addr known else known))"

definition LoadPeersFromConfig :: "NetText \<Rightarrow> string option \<Rightarrow> PeerDiscoveryManager \<Rightarrow> (bool \<times> PeerDiscoveryManager) option" where
  "LoadPeersFromConfig T file = peers_lock (\<lambda>pd. Some
     (if configFilePath pd = [] then (False, pd)
      else (case file of
              None \<Rightarrow> (True, pd)
            | Some content \<Rightarrow>
                (True, pd\<lparr>knownValidatorPeers := fold (load_line T) (getlines content) (knownValidatorPeers pd)\<rparr>))))"

definition GetAddNodeCommand :: "NetText \<Rightarrow> CService \<Rightarrow> string" where
  "GetAddNodeCommand T address = ''addnode '' @ [CHR 0x22] @ ToStringAddrPort T address @ [CHR 0x22] @ '' add''"

definition IsKnownPeer :: "CService \<Rightarrow> PeerDiscoveryManager \<Rightarrow> bool option" where
  "IsKnownPeer address pd = LOCK_const cs_peers pd (map_of (knownValidatorPeers pd) (service_key address) \<noteq> None)"

definition GetKnownPeerCount :: "PeerDiscoveryManager \<Rightarrow> nat option" where
  "GetKnownPeerCount pd = LOCK_const cs_peers pd (length (knownValidatorPeers pd))"

text \<open>The global instance: \<^verbatim>\<open>InitPeerDiscovery\<close> and \<^verbatim>\<open>ShutdownPeerDiscovery\<close>.\<close>

definition InitPeerDiscovery :: "NetText \<Rightarrow> string \<Rightarrow> (string \<Rightarrow> string option) \<Rightarrow> PeerDiscoveryManager option" where
  "InitPeerDiscovery T dataDir files =
     Option.bind (SetConfigPath (dataDir @ ''/validator_peers.conf'') PeerDiscoveryManager_new) (\<lambda>(u, pd).
       Option.bind (LoadPeersFromConfig T (files (dataDir @ ''/validator_peers.conf'')) pd) (\<lambda>(b, pd'). Some pd'))"

definition ShutdownPeerDiscovery :: "NetText \<Rightarrow> bool \<Rightarrow> PeerDiscoveryManager option \<Rightarrow> (string option \<times> PeerDiscoveryManager option) option" where
  "ShutdownPeerDiscovery T can_open g =
     (case g of
        None \<Rightarrow> Some (None, None)
      | Some pd \<Rightarrow> Option.bind (SavePeersToConfig T can_open pd) (\<lambda>((b, written), pd'). Some (written, None)))"

section \<open>The manager\<close>

record TrustScoreManager =
  tsm_validators :: "(CKeyID, ValidatorInfo) omap"
  tsm_params :: Params
  tsm_currentHeight :: int

definition TrustScoreManager_new :: "Params \<Rightarrow> TrustScoreManager" where
  "TrustScoreManager_new p = \<lparr>tsm_validators = [], tsm_params = p, tsm_currentHeight = 0\<rparr>"

definition put_info :: "CKeyID \<Rightarrow> ValidatorInfo \<Rightarrow> TrustScoreManager \<Rightarrow> TrustScoreManager" where
  "put_info k info m = m\<lparr>tsm_validators := om_put k info (tsm_validators m)\<rparr>"

definition TSM_RegisterValidator ::
  "CKeyID \<Rightarrow> int \<Rightarrow> int \<Rightarrow> int \<Rightarrow> TrustScoreManager \<Rightarrow> bool \<times> TrustScoreManager" where
  "TSM_RegisterValidator validatorId stakeAmount poolFeeRate height m =
     (if stakeAmount < nMinValidatorStake (tsm_params m) then (False, m)
      else if map_of (tsm_validators m) validatorId \<noteq> None then (False, m)
      else if poolFeeRate < 0 \<or> 10000 < poolFeeRate then (False, m)
      else (True, put_info validatorId (ValidatorInfo_new\<lparr>vi_validatorId := validatorId, vi_stakeAmount := stakeAmount,
              vi_poolFeeRate := poolFeeRate, vi_registrationHeight := height, vi_lastHeartbeatHeight := height,
              vi_heartbeatsExpected := 0, vi_heartbeatsReceived := 0, vi_isActive := True\<rparr>) m))"

definition UpdateStake :: "CKeyID \<Rightarrow> int \<Rightarrow> TrustScoreManager \<Rightarrow> bool \<times> TrustScoreManager" where
  "UpdateStake validatorId newStakeAmount m =
     (case map_of (tsm_validators m) validatorId of
        None \<Rightarrow> (False, m)
      | Some info \<Rightarrow>
          let info1 = info\<lparr>vi_stakeAmount := newStakeAmount\<rparr>
          in (True, put_info validatorId
                (if newStakeAmount < nMinValidatorStake (tsm_params m) then info1\<lparr>vi_isActive := False\<rparr> else info1) m))"

definition UpdatePoolFee :: "CKeyID \<Rightarrow> int \<Rightarrow> TrustScoreManager \<Rightarrow> bool \<times> TrustScoreManager" where
  "UpdatePoolFee validatorId newFeeRate m =
     (case map_of (tsm_validators m) validatorId of
        None \<Rightarrow> (False, m)
      | Some info \<Rightarrow>
          if newFeeRate < 0 \<or> 10000 < newFeeRate then (False, m)
          else (True, put_info validatorId (info\<lparr>vi_poolFeeRate := newFeeRate\<rparr>) m))"

definition TSM_ProcessHeartbeat :: "Heartbeat \<Rightarrow> int \<Rightarrow> TrustScoreManager \<Rightarrow> bool \<times> TrustScoreManager" where
  "TSM_ProcessHeartbeat heartbeat height m =
     (case map_of (tsm_validators m) (hb_validatorId heartbeat) of
        None \<Rightarrow> (False, m)
      | Some info \<Rightarrow>
          if \<not> vi_isActive info then (False, m)
          else if height < s32 (vi_lastHeartbeatHeight info + nHeartbeatInterval (tsm_params m)) then (False, m)
          else (True, put_info (hb_validatorId heartbeat)
                  (info\<lparr>vi_heartbeatsReceived := s32 (vi_heartbeatsReceived info + 1),
                        vi_lastHeartbeatHeight := height\<rparr>) m))"

text \<open>
  \<^verbatim>\<open>UpdateHeartbeatExpectations\<close>: a division by a zero interval would trap; the two branches
  divide only when the number of blocks is positive.
\<close>

definition expect_heartbeats :: "Params \<Rightarrow> int \<Rightarrow> ValidatorInfo \<Rightarrow> ValidatorInfo option" where
  "expect_heartbeats p height info =
     (if \<not> vi_isActive info then Some info
      else
        let blocks = s32 (height - vi_registrationHeight info);
            windowBlocks = min blocks (nUptimeWindow p)
        in if 0 < blocks \<and> nHeartbeatInterval p = 0 then None
           else
             let info1 = (if 0 < blocks then info\<lparr>vi_heartbeatsExpected := cdiv blocks (nHeartbeatInterval p)\<rparr> else info)
             in Some (if 0 < windowBlocks
                      then info1\<lparr>vi_heartbeatsExpected := cdiv windowBlocks (nHeartbeatInterval p)\<rparr> else info1))"

fun expect_all :: "Params \<Rightarrow> int \<Rightarrow> (CKeyID, ValidatorInfo) omap \<Rightarrow> (CKeyID, ValidatorInfo) omap option" where
  "expect_all p height [] = Some []"
| "expect_all p height ((k, info) # vs) =
     Option.bind (expect_heartbeats p height info) (\<lambda>info'.
       Option.bind (expect_all p height vs) (\<lambda>vs'. Some ((k, info') # vs')))"

definition UpdateHeartbeatExpectations :: "int \<Rightarrow> TrustScoreManager \<Rightarrow> TrustScoreManager option" where
  "UpdateHeartbeatExpectations height m =
     Option.bind (expect_all (tsm_params m) height (tsm_validators m)) (\<lambda>vs.
       Some (m\<lparr>tsm_currentHeight := height, tsm_validators := vs\<rparr>))"

definition TSM_GetValidator :: "CKeyID \<Rightarrow> TrustScoreManager \<Rightarrow> ValidatorInfo option" where
  "TSM_GetValidator validatorId m = map_of (tsm_validators m) validatorId"

definition GetValidatorTier :: "CKeyID \<Rightarrow> TrustScoreManager \<Rightarrow> TrustTier" where
  "GetValidatorTier validatorId m =
     (case TSM_GetValidator validatorId m of None \<Rightarrow> TIER_NONE | Some info \<Rightarrow> GetTrustTier (tsm_params m) info)"

definition GetValidatorRewardMultiplier :: "CKeyID \<Rightarrow> TrustScoreManager \<Rightarrow> int" where
  "GetValidatorRewardMultiplier validatorId m =
     (case TSM_GetValidator validatorId m of None \<Rightarrow> 0 | Some info \<Rightarrow> GetRewardMultiplier (tsm_params m) info)"

definition IsValidatorEligible :: "CKeyID \<Rightarrow> TrustScoreManager \<Rightarrow> bool" where
  "IsValidatorEligible validatorId m =
     (case TSM_GetValidator validatorId m of
        None \<Rightarrow> False | Some info \<Rightarrow> ValidatorInfo_IsEligibleForStaking (tsm_params m) info)"

definition TSM_GetActiveValidators :: "TrustScoreManager \<Rightarrow> ValidatorInfo list" where
  "TSM_GetActiveValidators m = filter vi_isActive (map snd (tsm_validators m))"

definition GetValidatorsByTier :: "TrustTier \<Rightarrow> TrustScoreManager \<Rightarrow> ValidatorInfo list" where
  "GetValidatorsByTier tier m =
     filter (\<lambda>info. vi_isActive info \<and> GetTrustTier (tsm_params m) info = tier) (map snd (tsm_validators m))"

definition DeactivateValidator :: "CKeyID \<Rightarrow> TrustScoreManager \<Rightarrow> bool \<times> TrustScoreManager" where
  "DeactivateValidator validatorId m =
     (case map_of (tsm_validators m) validatorId of
        None \<Rightarrow> (False, m) | Some info \<Rightarrow> (True, put_info validatorId (info\<lparr>vi_isActive := False\<rparr>) m))"

definition TSM_SetHeight :: "int \<Rightarrow> TrustScoreManager \<Rightarrow> TrustScoreManager" where
  "TSM_SetHeight height m = m\<lparr>tsm_currentHeight := height\<rparr>"

text \<open>The address of a check-in is also handed to the global peer discovery, if there is one.\<close>

definition UpdateValidatorAddress ::
  "CKeyID \<Rightarrow> CService \<Rightarrow> int \<Rightarrow> TrustScoreManager \<times> PeerDiscoveryManager option
   \<Rightarrow> (bool \<times> TrustScoreManager \<times> PeerDiscoveryManager option) option" where
  "UpdateValidatorAddress validatorId address timestamp = (\<lambda>(m, g).
     case map_of (tsm_validators m) validatorId of
       None \<Rightarrow> Some (False, m, g)
     | Some info \<Rightarrow>
         if \<not> CService_IsValid address then Some (False, m, g)
         else let m' = put_info validatorId (info\<lparr>vi_lastKnownAddress := address, vi_lastCheckInTime := timestamp,
                         vi_consecutiveCheckIns := s32 (vi_consecutiveCheckIns info + 1)\<rparr>) m
              in (case g of
                    None \<Rightarrow> Some (True, m', None)
                  | Some pd \<Rightarrow> Option.bind (ProcessValidatorAddress address pd) (\<lambda>(b, pd'). Some (True, m', Some pd'))))"

definition GetValidatorAddresses :: "TrustScoreManager \<Rightarrow> CService list" where
  "GetValidatorAddresses m = map vi_lastKnownAddress
     (filter (\<lambda>info. vi_isActive info \<and> CService_IsValid (vi_lastKnownAddress info)) (map snd (tsm_validators m)))"

definition GetTrustedValidatorAddresses :: "TrustTier \<Rightarrow> TrustScoreManager \<Rightarrow> CService list" where
  "GetTrustedValidatorAddresses minTier m = map vi_lastKnownAddress
     (filter (\<lambda>info. vi_isActive info \<and> CService_IsValid (vi_lastKnownAddress info) \<and>
        tier_num minTier \<le> tier_num (GetTrustTier (tsm_params m) info)) (map snd (tsm_validators m)))"

definition IsValidatorAddress :: "CService \<Rightarrow> TrustScoreManager \<Rightarrow> bool" where
  "IsValidatorAddress address m =
     list_ex (\<lambda>info. vi_isActive info \<and> CService_eq (vi_lastKnownAddress info) address) (map snd (tsm_validators m))"

definition GetValidatorIdByAddress :: "CService \<Rightarrow> TrustScoreManager \<Rightarrow> CKeyID" where
  "GetValidatorIdByAddress address m =
     (case find (\<lambda>info. CService_eq (vi_lastKnownAddress info) address) (map snd (tsm_validators m)) of
        None \<Rightarrow> 0 | Some info \<Rightarrow> vi_validatorId info)"

definition miss_check_in :: "Params \<Rightarrow> int \<Rightarrow> ValidatorInfo \<Rightarrow> ValidatorInfo" where
  "miss_check_in p currentHeight info =
     (if \<not> vi_isActive info then info
      else if s32 (nHeartbeatInterval p * 2) < s32 (currentHeight - vi_lastHeartbeatHeight info)
      then info\<lparr>vi_missedCheckIns := s32 (vi_missedCheckIns info + 1), vi_consecutiveCheckIns := 0\<rparr>
      else info)"

definition RecordMissedCheckIns :: "int \<Rightarrow> TrustScoreManager \<Rightarrow> TrustScoreManager" where
  "RecordMissedCheckIns currentHeight m =
     m\<lparr>tsm_validators := om_vals (miss_check_in (tsm_params m) currentHeight) (tsm_validators m)\<rparr>"

section \<open>Tiers and multipliers\<close>

text \<open>
  Tiers and multipliers grow with the uptime: of two active validators with the minimum stake, the
  one with the higher uptime never has the lower tier nor the lower reward multiplier. A multiplier
  is at most 200 percent, it is 0 exactly for a validator without a tier on the networks, whose
  bronze multiplier is positive, and exactly the validators with a tier are eligible for staking.
\<close>

theorem tiers_monotone:
  assumes "params_ok p" and "0 < nBronzeRewardMultiplier p"
    and "vi_isActive i" and "vi_isActive j" and "nMinValidatorStake p \<le> vi_stakeAmount i"
    and "nMinValidatorStake p \<le> vi_stakeAmount j" and "GetUptimePercentage i \<le> GetUptimePercentage j"
  shows "tier_num (GetTrustTier p i) \<le> tier_num (GetTrustTier p j) \<and>
    GetRewardMultiplier p i \<le> GetRewardMultiplier p j \<and> GetRewardMultiplier p j \<le> 200 \<and>
    (GetRewardMultiplier p i = 0 \<longleftrightarrow> GetTrustTier p i = TIER_NONE) \<and>
    (ValidatorInfo_IsEligibleForStaking p i \<longleftrightarrow> GetTrustTier p i \<noteq> TIER_NONE)"
  using assms
  unfolding params_ok_def GetTrustTier_def GetRewardMultiplier_def ValidatorInfo_IsEligibleForStaking_def
    ValidatorInfo_MeetsMinimumStake_def tier_num_def Let_def
  by (simp split: if_split)

definition sample_info :: "int \<Rightarrow> int \<Rightarrow> ValidatorInfo" where
  "sample_info expected received = ValidatorInfo_new\<lparr>vi_validatorId := 7, vi_stakeAmount := 100000 * COIN,
     vi_isActive := True, vi_heartbeatsExpected := expected, vi_heartbeatsReceived := received\<rparr>"

theorem tiers_monotone_witness:
  "GetUptimePercentage (sample_info 100 96) = 960 \<and>
   tier_num (GetTrustTier CMainParams (sample_info 100 96)) \<le> tier_num (GetTrustTier CMainParams (sample_info 100 100))"
proof -
  have up: "GetUptimePercentage (sample_info 100 96) = 960" "GetUptimePercentage (sample_info 100 100) = 1000"
    by (simp_all add: GetUptimePercentage_def sample_info_def s32_id cdiv_def)
  have "0 < nBronzeRewardMultiplier CMainParams" by (simp add: CMainParams_def)
  from tiers_monotone [OF networks_ok(1) this, of "sample_info 100 96" "sample_info 100 100"] up
  show ?thesis by (simp add: sample_info_def main_stake_reward COIN_def)
qed

end
