(* ===== verification/HeartbeatNet.thy ===== *)
theory HeartbeatNet
  imports TrustScore
begin

text \<open>
  The heartbeat messages (trust/heartbeat_net.h and .cpp), their handlers in \<^verbatim>\<open>ProcessMessage\<close> of
  net_processing.cpp, and \<^verbatim>\<open>CConnman::AddNode\<close> of net.cpp: registrations and lists of validators, the
  manager that processes heartbeats under its mutex, and the node that holds the manager and the peer
  discovery. The clock is an argument; the default port of an address text is a parameter.
\<close>

section \<open>Messages\<close>

text \<open>\<^verbatim>\<open>ValidatorRegistration\<close>, and the list of validators a node sends.\<close>

record ValidatorRegistration =
  vr_validatorPubKey :: CPubKey
  vr_stakeAmount :: int
  vr_poolFeeRate :: int
  vr_registrationHeight :: int
  vr_signature :: "byte list"

definition ValidatorRegistration_new :: ValidatorRegistration where
  "ValidatorRegistration_new = \<lparr>vr_validatorPubKey = [], vr_stakeAmount = 0, vr_poolFeeRate = 0,
     vr_registrationHeight = 0, vr_signature = []\<rparr>"

definition ValidatorRegistration_preimage :: "ValidatorRegistration \<Rightarrow> byte list" where
  "ValidatorRegistration_preimage r =
     ser_pubkey (vr_validatorPubKey r) @ ser_int 8 (vr_stakeAmount r) @ ser_int 8 (vr_poolFeeRate r) @
     ser_int 4 (vr_registrationHeight r)"

definition ValidatorRegistration_GetHash :: "Crypto \<Rightarrow> ValidatorRegistration \<Rightarrow> uint256" where
  "ValidatorRegistration_GetHash C r = Hash C (ValidatorRegistration_preimage r)"

definition ValidatorRegistration_Sign :: "Crypto \<Rightarrow> CKey \<Rightarrow> ValidatorRegistration \<Rightarrow> bool \<times> ValidatorRegistration" where
  "ValidatorRegistration_Sign C key r =
     (case CKey_Sign C key (ValidatorRegistration_GetHash C r) of
        None \<Rightarrow> (False, r) | Some s \<Rightarrow> (True, r\<lparr>vr_signature := s\<rparr>))"

definition ValidatorRegistration_Verify :: "Crypto \<Rightarrow> ValidatorRegistration \<Rightarrow> bool" where
  "ValidatorRegistration_Verify C r \<longleftrightarrow>
     CPubKey_Verify C (vr_validatorPubKey r) (ValidatorRegistration_GetHash C r) (vr_signature r)"

definition ser_ValidatorRegistration :: "ValidatorRegistration \<Rightarrow> byte list" where
  "ser_ValidatorRegistration r =
     ser_pubkey (vr_validatorPubKey r) @ ser_int 8 (vr_stakeAmount r) @ ser_int 8 (vr_poolFeeRate r) @
     ser_int 4 (vr_registrationHeight r) @ ser_vec (vr_signature r)"

definition unser_ValidatorRegistration :: "ValidatorRegistration reader" where
  "unser_ValidatorRegistration =
     rd_bind unser_pubkey (\<lambda>pk. rd_bind (unser_int 8) (\<lambda>stake. rd_bind (unser_int 8) (\<lambda>fee.
     rd_bind (unser_int 4) (\<lambda>height. rd_bind unser_vec (\<lambda>sig.
     rd_ret \<lparr>vr_validatorPubKey = pk, vr_stakeAmount = stake, vr_poolFeeRate = fee,
       vr_registrationHeight = height, vr_signature = sig\<rparr>)))))"

type_synonym ValidatorList = "ValidatorInfo list"

definition ser_ValidatorList :: "NetText \<Rightarrow> ValidatorList \<Rightarrow> byte list" where
  "ser_ValidatorList T vs = ser_list (ser_ValidatorInfo T) vs"

definition unser_ValidatorList :: "NetText \<Rightarrow> ValidatorList reader" where
  "unser_ValidatorList T = unser_list (unser_ValidatorInfo T ValidatorInfo_new)"

section \<open>The connection manager\<close>

text \<open>
  \<^verbatim>\<open>CConnman\<close> (net.h) as far as adding a node uses it: the nodes added so far, under their own
  mutex. The default port of an address text depends on the parser of onion and I2P names and is a
  parameter, like the parser of addresses.
\<close>

record AddedNodeParams =
  m_added_node :: string
  m_use_v2transport :: bool

record CConnman =
  m_added_nodes_mutex :: bool
  m_added_node_params :: "AddedNodeParams list"
  GetDefaultPort :: "string \<Rightarrow> nat"

definition AddNode :: "NetText \<Rightarrow> AddedNodeParams \<Rightarrow> CConnman \<Rightarrow> (bool \<times> CConnman) option" where
  "AddNode T add = LOCK m_added_nodes_mutex (\<lambda>b. m_added_nodes_mutex_update (\<lambda>_. b)) (\<lambda>c.
     let resolved = LookupNumeric T (m_added_node add) (GetDefaultPort c (m_added_node add))
     in if list_ex (\<lambda>it. m_added_node add = m_added_node it \<or>
             CService_IsValid resolved \<and>
             CService_eq resolved (LookupNumeric T (m_added_node it) (GetDefaultPort c (m_added_node it))))
           (m_added_node_params c)
        then Some (False, c)
        else Some (True, c\<lparr>m_added_node_params := m_added_node_params c @ [add]\<rparr>))"

interpretation conn: mutex m_added_nodes_mutex "\<lambda>b. m_added_nodes_mutex_update (\<lambda>_. b)"
  by unfold_locales auto

section \<open>The heartbeat manager\<close>

text \<open>
  The references to the trust manager and to the consensus parameters are fields. The set of seen
  hashes is ordered, as a \<^verbatim>\<open>std::set\<close> is. The operations that reach the global peer discovery
  act on the pair of the manager and the global pointer.
\<close>

record HeartbeatManager =
  cs_heartbeat :: bool
  m_validator_key :: "CKey option"
  m_is_validator :: bool
  m_trust_manager :: TrustScoreManager
  m_consensus_params :: Params
  m_seen_heartbeats :: "(uint256, unit) omap"
  m_last_heartbeat_height :: int
  m_connman :: "CConnman option"

type_synonym hb_state = "HeartbeatManager \<times> PeerDiscoveryManager option"

definition MAX_SEEN_HEARTBEATS :: nat where
  "MAX_SEEN_HEARTBEATS = 10000"

definition HeartbeatManager_new :: "TrustScoreManager \<Rightarrow> Params \<Rightarrow> HeartbeatManager" where
  "HeartbeatManager_new trustManager params = \<lparr>cs_heartbeat = False, m_validator_key = None, m_is_validator = False,
     m_trust_manager = trustManager, m_consensus_params = params, m_seen_heartbeats = [],
     m_last_heartbeat_height = 0, m_connman = None\<rparr>"

abbreviation hold_heartbeat :: "bool \<Rightarrow> HeartbeatManager \<Rightarrow> HeartbeatManager" where
  "hold_heartbeat b \<equiv> cs_heartbeat_update (\<lambda>_. b)"

abbreviation heartbeat_lock :: "(hb_state \<Rightarrow> ('r \<times> hb_state) option) \<Rightarrow> hb_state \<Rightarrow> ('r \<times> hb_state) option" where
  "heartbeat_lock \<equiv> LOCK (\<lambda>s. cs_heartbeat (fst s)) (\<lambda>b. apfst (hold_heartbeat b))"

interpretation hbm: mutex "\<lambda>s :: hb_state. cs_heartbeat (fst s)" "\<lambda>b. apfst (hold_heartbeat b)"
  by unfold_locales auto

definition SetValidatorKey :: "CKey \<Rightarrow> hb_state \<Rightarrow> (unit \<times> hb_state) option" where
  "SetValidatorKey key = heartbeat_lock (\<lambda>(m, g). Some ((), m\<lparr>m_validator_key := Some key, m_is_validator := True\<rparr>, g))"

definition SetConnman :: "CConnman option \<Rightarrow> HeartbeatManager \<Rightarrow> HeartbeatManager" where
  "SetConnman connman m = m\<lparr>m_connman := connman\<rparr>"

definition IsValidator :: "HeartbeatManager \<Rightarrow> bool option" where
  "IsValidator m = LOCK_const cs_heartbeat m (m_is_validator m \<and> m_validator_key m \<noteq> None)"

definition GetValidatorId :: "Crypto \<Rightarrow> HeartbeatManager \<Rightarrow> CKeyID option" where
  "GetValidatorId C m = LOCK_const cs_heartbeat m
     (case m_validator_key m of None \<Rightarrow> 0 | Some key \<Rightarrow> CPubKey_GetID C (CKey_GetPubKey C key))"

text \<open>The remainder by an interval of zero traps.\<close>

definition ShouldBroadcastHeartbeat :: "int \<Rightarrow> HeartbeatManager \<Rightarrow> bool option" where
  "ShouldBroadcastHeartbeat currentHeight m = Option.bind (LOCK_const cs_heartbeat m ()) (\<lambda>_.
     if \<not> m_is_validator m \<or> m_validator_key m = None then Some False
     else
       let interval = nHeartbeatInterval (m_consensus_params m)
       in if s32 (currentHeight - m_last_heartbeat_height m) < interval then Some False
          else if interval = 0 then None
          else Some (cmod currentHeight interval = 0))"

text \<open>\<^verbatim>\<open>BroadcastHeartbeat\<close> at the time \<open>now\<close>. The heartbeat it signs and remembers:\<close>

definition own_heartbeat :: "Crypto \<Rightarrow> int \<Rightarrow> CKey \<Rightarrow> int \<Rightarrow> uint256 \<Rightarrow> Heartbeat" where
  "own_heartbeat C now key blockHeight blockHash =
     Heartbeat_new\<lparr>hb_validatorId := CPubKey_GetID C (CKey_GetPubKey C key), hb_blockHeight := blockHeight,
       hb_blockHash := blockHash, hb_timestamp := now, hb_nodePort := 18888\<rparr>"

definition BroadcastHeartbeat ::
  "Crypto \<Rightarrow> NetText \<Rightarrow> int \<Rightarrow> int \<Rightarrow> uint256 \<Rightarrow> hb_state \<Rightarrow> (bool \<times> hb_state) option" where
  "BroadcastHeartbeat C T now blockHeight blockHash = heartbeat_lock (\<lambda>(m, g).
     case m_validator_key m of
       None \<Rightarrow> Some (False, m, g)
     | Some key \<Rightarrow>
         if \<not> m_is_validator m then Some (False, m, g)
         else
           (case Heartbeat_Sign C T key (own_heartbeat C now key blockHeight blockHash) of
              (False, hb) \<Rightarrow> Some (False, m, g)
            | (True, hb) \<Rightarrow>
                Some (True, m\<lparr>m_seen_heartbeats := om_put (Heartbeat_GetHash C T hb) () (m_seen_heartbeats m),
                              m_last_heartbeat_height := blockHeight\<rparr>, g)))"

definition CleanupSeenHeartbeats :: "hb_state \<Rightarrow> (unit \<times> hb_state) option" where
  "CleanupSeenHeartbeats = heartbeat_lock (\<lambda>(m, g).
     Some ((), (if MAX_SEEN_HEARTBEATS div 2 < length (m_seen_heartbeats m)
                then m\<lparr>m_seen_heartbeats := drop (length (m_seen_heartbeats m) div 2) (m_seen_heartbeats m)\<rparr>
                else m), g))"

text \<open>
  The part of \<^verbatim>\<open>ProcessHeartbeat\<close> for a heartbeat with a valid address. \<^verbatim>\<open>UpdateValidatorAddress\<close>
  is called first; its result is not used.
\<close>

definition discover_peer :: "NetText \<Rightarrow> Heartbeat \<Rightarrow> hb_state \<Rightarrow> hb_state option" where
  "discover_peer T heartbeat = (\<lambda>(m, g).
     Option.bind (UpdateValidatorAddress (hb_validatorId heartbeat) (hb_nodeAddress heartbeat) (hb_timestamp heartbeat)
         (m_trust_manager m, g)) (\<lambda>(_, tm, g1).
       let m1 = m\<lparr>m_trust_manager := tm\<rparr>
       in (case g1 of
             None \<Rightarrow> Some (m1, None)
           | Some pd \<Rightarrow>
               Option.bind (ProcessValidatorAddress (hb_nodeAddress heartbeat) pd) (\<lambda>(is_new, pd1).
                 if \<not> is_new then Some (m1, Some pd1)
                 else (case m_connman m1 of
                         None \<Rightarrow> Some (m1, Some pd1)
                       | Some c \<Rightarrow>
                           Option.bind (AddNode T \<lparr>m_added_node = ToStringAddrPort T (hb_nodeAddress heartbeat),
                               m_use_v2transport = True\<rparr> c) (\<lambda>(_, c1).
                             Option.bind (MarkPeerAdded (hb_nodeAddress heartbeat) pd1) (\<lambda>(_, pd2).
                               Some (m1\<lparr>m_connman := Some c1\<rparr>, Some pd2))))))))"

definition ProcessHeartbeat :: "Crypto \<Rightarrow> NetText \<Rightarrow> Heartbeat \<Rightarrow> hb_state \<Rightarrow> (bool \<times> hb_state) option" where
  "ProcessHeartbeat C T heartbeat = heartbeat_lock (\<lambda>(m, g).
     let hbHash = Heartbeat_GetHash C T heartbeat
     in if map_of (m_seen_heartbeats m) hbHash \<noteq> None then Some (False, m, g)
        else
          let m1 = m\<lparr>m_seen_heartbeats := om_put hbHash () (m_seen_heartbeats m)\<rparr>
          in Option.bind (if MAX_SEEN_HEARTBEATS < length (m_seen_heartbeats m1) then CleanupSeenHeartbeats (m1, g)
                          else Some ((), m1, g)) (\<lambda>(_, m2, g2).
               case TSM_ProcessHeartbeat heartbeat (hb_blockHeight heartbeat) (m_trust_manager m2) of
                 (False, tm) \<Rightarrow> Some (False, m2\<lparr>m_trust_manager := tm\<rparr>, g2)
               | (True, tm) \<Rightarrow>
                   let m3 = m2\<lparr>m_trust_manager := tm\<rparr>
                   in if CService_IsValid (hb_nodeAddress heartbeat)
                      then Option.bind (discover_peer T heartbeat (m3, g2)) (\<lambda>s. Some (True, s))
                      else Some (True, m3, g2)))"

definition ProcessValidatorRegistration :: "Crypto \<Rightarrow> ValidatorRegistration \<Rightarrow> HeartbeatManager \<Rightarrow> bool \<times> HeartbeatManager" where
  "ProcessValidatorRegistration C reg m =
     (if \<not> ValidatorRegistration_Verify C reg then (False, m)
      else if vr_stakeAmount reg < nMinValidatorStake (m_consensus_params m) then (False, m)
      else (case TSM_RegisterValidator (CPubKey_GetID C (vr_validatorPubKey reg)) (vr_stakeAmount reg)
                   (vr_poolFeeRate reg) (vr_registrationHeight reg) (m_trust_manager m) of
              (ok, tm) \<Rightarrow> (ok, m\<lparr>m_trust_manager := tm\<rparr>)))"

definition CreateRegistration ::
  "Crypto \<Rightarrow> int \<Rightarrow> int \<Rightarrow> int \<Rightarrow> ValidatorRegistration \<Rightarrow> HeartbeatManager \<Rightarrow> (bool \<times> ValidatorRegistration) option" where
  "CreateRegistration C stakeAmount poolFeeRate height regOut m = LOCK_const cs_heartbeat m
     (case m_validator_key m of
        None \<Rightarrow> (False, regOut)
      | Some key \<Rightarrow>
          if \<not> m_is_validator m then (False, regOut)
          else ValidatorRegistration_Sign C key
                 (regOut\<lparr>vr_validatorPubKey := CKey_GetPubKey C key, vr_stakeAmount := stakeAmount,
                    vr_poolFeeRate := poolFeeRate, vr_registrationHeight := height\<rparr>))"

definition GetValidatorList :: "HeartbeatManager \<Rightarrow> ValidatorList" where
  "GetValidatorList m = TSM_GetActiveValidators (m_trust_manager m)"

definition process_listed :: "Params \<Rightarrow> ValidatorInfo \<Rightarrow> TrustScoreManager \<Rightarrow> TrustScoreManager" where
  "process_listed p info tm =
     (if vi_isActive info \<and> ValidatorInfo_MeetsMinimumStake p info then
        (case TSM_GetValidator (vi_validatorId info) tm of
           None \<Rightarrow> snd (TSM_RegisterValidator (vi_validatorId info) (vi_stakeAmount info) (vi_poolFeeRate info)
                        (vi_registrationHeight info) tm)
         | Some _ \<Rightarrow> tm)
      else tm)"

definition ProcessValidatorList :: "ValidatorList \<Rightarrow> HeartbeatManager \<Rightarrow> HeartbeatManager" where
  "ProcessValidatorList vs m = m\<lparr>m_trust_manager := fold (process_listed (m_consensus_params m)) vs (m_trust_manager m)\<rparr>"

definition OnNewBlock :: "int \<Rightarrow> HeartbeatManager \<Rightarrow> HeartbeatManager option" where
  "OnNewBlock height m =
     Option.bind (UpdateHeartbeatExpectations height (m_trust_manager m)) (\<lambda>tm.
       let m1 = m\<lparr>m_trust_manager := TSM_SetHeight height tm\<rparr>
       in Option.bind (ShouldBroadcastHeartbeat height m1) (\<lambda>_. Some m1))"

record Stats =
  isValidator :: bool
  lastHeartbeatHeight :: int
  seenHeartbeats :: nat
  activeValidators :: int

definition GetStats :: "HeartbeatManager \<Rightarrow> Stats option" where
  "GetStats m = LOCK_const cs_heartbeat m
     \<lparr>isValidator = m_is_validator m, lastHeartbeatHeight = m_last_heartbeat_height m,
      seenHeartbeats = length (m_seen_heartbeats m),
      activeValidators = s32 (int (length (TSM_GetActiveValidators (m_trust_manager m))))\<rparr>"

section \<open>Message handling\<close>

text \<open>
  The globals, and the handlers of the four messages in \<^verbatim>\<open>ProcessMessage\<close> (net_processing.cpp).
  The result is a deserialisation error, which the caller catches, or the messages pushed to the peer.
\<close>

record TrustNode =
  g_heartbeat_manager :: "HeartbeatManager option"
  g_peer_discovery :: "PeerDiscoveryManager option"

definition InitHeartbeatManager :: "TrustScoreManager \<Rightarrow> Params \<Rightarrow> TrustNode \<Rightarrow> TrustNode" where
  "InitHeartbeatManager trustManager params n = n\<lparr>g_heartbeat_manager := Some (HeartbeatManager_new trustManager params)\<rparr>"

definition ShutdownHeartbeatManager :: "TrustNode \<Rightarrow> TrustNode" where
  "ShutdownHeartbeatManager n = n\<lparr>g_heartbeat_manager := None\<rparr>"

text \<open>A locked call on the manager of the node, and one that runs without the lock.\<close>

definition on_manager :: "(hb_state \<Rightarrow> ('r \<times> hb_state) option) \<Rightarrow> TrustNode \<Rightarrow> TrustNode option" where
  "on_manager f n =
     (case g_heartbeat_manager n of
        None \<Rightarrow> Some n
      | Some m \<Rightarrow> Option.bind (f (m, g_peer_discovery n)) (\<lambda>(_, m', g').
          Some (n\<lparr>g_heartbeat_manager := Some m', g_peer_discovery := g'\<rparr>)))"

definition with_manager :: "(HeartbeatManager \<Rightarrow> HeartbeatManager) \<Rightarrow> TrustNode \<Rightarrow> TrustNode" where
  "with_manager f n = n\<lparr>g_heartbeat_manager := map_option f (g_heartbeat_manager n)\<rparr>"

type_synonym replies = "(string \<times> byte list) list"

definition on_heartbeat :: "Crypto \<Rightarrow> NetText \<Rightarrow> byte list \<Rightarrow> TrustNode \<Rightarrow> ((ser_error + replies) \<times> TrustNode) option" where
  "on_heartbeat C T vRecv n =
     (case unser_Heartbeat T Heartbeat_new vRecv of
        Inl e \<Rightarrow> Some (Inl e, n)
      | Inr (heartbeat, _) \<Rightarrow> map_option (Pair (Inr [])) (on_manager (ProcessHeartbeat C T heartbeat) n))"

definition on_getvalidators :: "NetText \<Rightarrow> TrustNode \<Rightarrow> (ser_error + replies) \<times> TrustNode" where
  "on_getvalidators T n =
     (Inr (case g_heartbeat_manager n of
             None \<Rightarrow> [] | Some m \<Rightarrow> [(''validators'', ser_ValidatorList T (GetValidatorList m))]), n)"

definition on_validators :: "NetText \<Rightarrow> byte list \<Rightarrow> TrustNode \<Rightarrow> (ser_error + replies) \<times> TrustNode" where
  "on_validators T vRecv n =
     (case unser_ValidatorList T vRecv of
        Inl e \<Rightarrow> (Inl e, n) | Inr (vs, _) \<Rightarrow> (Inr [], with_manager (ProcessValidatorList vs) n))"

definition on_regvalidator :: "Crypto \<Rightarrow> byte list \<Rightarrow> TrustNode \<Rightarrow> (ser_error + replies) \<times> TrustNode" where
  "on_regvalidator C vRecv n =
     (case unser_ValidatorRegistration vRecv of
        Inl e \<Rightarrow> (Inl e, n)
      | Inr (reg, _) \<Rightarrow> (Inr [], with_manager (\<lambda>m. snd (ProcessValidatorRegistration C reg m)) n))"

definition ProcessTrustMessage ::
  "Crypto \<Rightarrow> NetText \<Rightarrow> string \<Rightarrow> byte list \<Rightarrow> TrustNode \<Rightarrow> ((ser_error + replies) \<times> TrustNode) option" where
  "ProcessTrustMessage C T msg_type vRecv n =
     (if msg_type = ''heartbeat'' then on_heartbeat C T vRecv n
      else if msg_type = ''getvalidators'' then Some (on_getvalidators T n)
      else if msg_type = ''validators'' then Some (on_validators T vRecv n)
      else if msg_type = ''regvalidator'' then Some (on_regvalidator C vRecv n)
      else Some (Inr [], n))"
section \<open>What a heartbeat does\<close>

text \<open>
  The specification: the conditions on which a heartbeat counts, the entry it leaves, and the peer
  discovery after a report of an address.
\<close>

definition admitted :: "TrustScoreManager \<Rightarrow> Heartbeat \<Rightarrow> ValidatorInfo option" where
  "admitted tm hb =
     (case map_of (tsm_validators tm) (hb_validatorId hb) of
        None \<Rightarrow> None
      | Some info \<Rightarrow>
          if vi_isActive info \<and> s32 (vi_lastHeartbeatHeight info + nHeartbeatInterval (tsm_params tm)) \<le> hb_blockHeight hb
          then Some info else None)"

definition recorded :: "Heartbeat \<Rightarrow> ValidatorInfo \<Rightarrow> ValidatorInfo" where
  "recorded hb info =
     (let counted = info\<lparr>vi_heartbeatsReceived := s32 (vi_heartbeatsReceived info + 1),
                         vi_lastHeartbeatHeight := hb_blockHeight hb\<rparr>
      in if CService_IsValid (hb_nodeAddress hb)
         then counted\<lparr>vi_lastKnownAddress := hb_nodeAddress hb, vi_lastCheckInTime := hb_timestamp hb,
                      vi_consecutiveCheckIns := s32 (vi_consecutiveCheckIns info + 1)\<rparr>
         else counted)"

definition learn_peer :: "CService \<Rightarrow> PeerDiscoveryManager \<Rightarrow> PeerDiscoveryManager" where
  "learn_peer a pd =
     (if \<not> CService_IsValid a \<or> map_of (knownValidatorPeers pd) (service_key a) \<noteq> None then pd
      else pd\<lparr>pendingAdditions := set_insert a (pendingAdditions pd),
              knownValidatorPeers := set_insert a (knownValidatorPeers pd)\<rparr>)"

definition peers_free :: "PeerDiscoveryManager option \<Rightarrow> bool" where
  "peers_free g \<longleftrightarrow> pred_option (\<lambda>pd. \<not> cs_peers pd) g"

lemma length_om_put: "map_of m k = None \<Longrightarrow> length (om_put k v m) = Suc (length m)"
  by (induction m) (auto split: if_splits)

lemma om_put_put: "om_put k v (om_put k u m) = om_put k v m"
  by (induction m) auto

lemma TSM_ProcessHeartbeat_admitted:
  "TSM_ProcessHeartbeat hb (hb_blockHeight hb) tm =
     (case admitted tm hb of
        None \<Rightarrow> (False, tm)
      | Some info \<Rightarrow> (True, put_info (hb_validatorId hb)
          (info\<lparr>vi_heartbeatsReceived := s32 (vi_heartbeatsReceived info + 1), vi_lastHeartbeatHeight := hb_blockHeight hb\<rparr>) tm))"
  by (auto simp: TSM_ProcessHeartbeat_def admitted_def split: option.splits)

lemma ProcessValidatorAddress_learns:
  assumes "\<not> cs_peers pd"
  shows "ProcessValidatorAddress a pd =
    Some (CService_IsValid a \<and> map_of (knownValidatorPeers pd) (service_key a) = None, learn_peer a pd)"
  using assms by (cases pd) (auto simp: ProcessValidatorAddress_def LOCK_def learn_peer_def)

lemma map_of_set_insert [store]:
  "map_of (set_insert s m) k = (if k = service_key s \<and> map_of m k = None then Some s else map_of m k)"
  by (auto simp: set_insert_def map_of_om_put)

lemma learned_known: "CService_IsValid a \<Longrightarrow> map_of (knownValidatorPeers (learn_peer a pd)) (service_key a) \<noteq> None"
  by (auto simp: learn_peer_def store)

lemma learn_peer_free [simp]: "cs_peers (learn_peer a pd) = cs_peers pd"
  by (simp add: learn_peer_def)

text \<open>
  The first report already files the address, so that the second finds it known and the branch that
  adds the node is never reached.
\<close>

lemma discover_peer_learns:
  assumes "map_of (tsm_validators (m_trust_manager m)) (hb_validatorId hb) = Some info"
    and "CService_IsValid (hb_nodeAddress hb)" and "peers_free g"
  shows "discover_peer T hb (m, g) =
    Some (m\<lparr>m_trust_manager := put_info (hb_validatorId hb)
        (info\<lparr>vi_lastKnownAddress := hb_nodeAddress hb, vi_lastCheckInTime := hb_timestamp hb,
              vi_consecutiveCheckIns := s32 (vi_consecutiveCheckIns info + 1)\<rparr>) (m_trust_manager m)\<rparr>,
      map_option (learn_peer (hb_nodeAddress hb)) g)"
proof (cases g)
  case None
  with assms show ?thesis by (simp add: discover_peer_def UpdateValidatorAddress_def)
next
  case (Some pd)
  let ?a = "hb_nodeAddress hb"
  from Some assms(3) have free: "\<not> cs_peers pd" by (simp add: peers_free_def)
  have again: "ProcessValidatorAddress ?a (learn_peer ?a pd) = Some (False, learn_peer ?a pd)"
    using ProcessValidatorAddress_learns [of "learn_peer ?a pd" ?a] free learned_known [OF assms(2), of pd]
    by (simp add: learn_peer_def [of _ "learn_peer _ _"])
  show ?thesis
    using Some assms(1,2) free
    by (simp add: discover_peer_def UpdateValidatorAddress_def ProcessValidatorAddress_learns [OF free] again)
qed

lemma ProcessHeartbeat_cases:
  assumes "\<not> cs_heartbeat m" and "peers_free g"
  shows "ProcessHeartbeat C T hb (m, g) =
    (let h = Heartbeat_GetHash C T hb; seen = m_seen_heartbeats m
     in if map_of seen h \<noteq> None then Some (False, m, g)
        else if MAX_SEEN_HEARTBEATS \<le> length seen then None
        else
          (case admitted (m_trust_manager m) hb of
             None \<Rightarrow> Some (False, m\<lparr>m_seen_heartbeats := om_put h () seen\<rparr>, g)
           | Some info \<Rightarrow>
               Some (True, m\<lparr>m_seen_heartbeats := om_put h () seen,
                   m_trust_manager := put_info (hb_validatorId hb) (recorded hb info) (m_trust_manager m)\<rparr>,
                 map_option (learn_peer (hb_nodeAddress hb)) g)))"
proof -
  let ?h = "Heartbeat_GetHash C T hb" and ?seen = "m_seen_heartbeats m" and ?tm = "m_trust_manager m"
  have same: "hold_heartbeat False (hold_heartbeat True m) = m" using assms(1) by (cases m) simp
  consider (replayed) "map_of ?seen ?h \<noteq> None"
    | (full) "map_of ?seen ?h = None" "MAX_SEEN_HEARTBEATS \<le> length ?seen"
    | (refused) "map_of ?seen ?h = None" "length ?seen < MAX_SEEN_HEARTBEATS" "admitted ?tm hb = None"
    | (counted) info where "map_of ?seen ?h = None" "length ?seen < MAX_SEEN_HEARTBEATS" "admitted ?tm hb = Some info"
    by (metis not_le option.exhaust)
  then show ?thesis
  proof cases
    case replayed
    with assms(1) same show ?thesis by (simp add: ProcessHeartbeat_def LOCK_def Let_def)
  next
    case full
    then show ?thesis
      using hbm.relock_blocks by (simp add: ProcessHeartbeat_def LOCK_def CleanupSeenHeartbeats_def Let_def length_om_put)
  next
    case refused
    with assms(1) show ?thesis
      by (cases m) (simp add: ProcessHeartbeat_def LOCK_def Let_def length_om_put TSM_ProcessHeartbeat_admitted)
  next
    case counted
    note step = ProcessHeartbeat_def LOCK_def Let_def length_om_put TSM_ProcessHeartbeat_admitted recorded_def
    show ?thesis
    proof (cases "CService_IsValid (hb_nodeAddress hb)")
      case True
      with assms counted show ?thesis
        by (cases m) (simp add: step discover_peer_learns put_info_def store om_put_put)
    next
      case False
      moreover have "map_option (learn_peer (hb_nodeAddress hb)) g = g"
        using False by (cases g) (simp_all add: learn_peer_def)
      ultimately show ?thesis
        using assms(1) counted by (cases m) (simp add: step put_info_def)
    qed
  qed
qed

text \<open>
  C37. \<^verbatim>\<open>ProcessHeartbeat\<close> on every branch. A heartbeat whose hash has been seen is refused and
  changes nothing. One that has not been seen, when ten thousand hashes are stored, makes the call
  clean the set up under a mutex it already holds, and it never returns. Otherwise the hash is stored
  whatever follows. The heartbeat counts exactly if its validator is known and active and its own
  height is an interval past the last one; then the counters, the height and a valid address are
  recorded, and the address is filed with the peer discovery. The list of added nodes of the
  connection manager is never changed: the address is already known when it is asked for the second time.
\<close>

theorem ProcessHeartbeat_decides:
  assumes "\<not> cs_heartbeat m" and "peers_free g"
  shows "ProcessHeartbeat C T hb (m, g) =
    (let h = Heartbeat_GetHash C T hb; seen = m_seen_heartbeats m
     in if map_of seen h \<noteq> None then Some (False, m, g)
        else if MAX_SEEN_HEARTBEATS \<le> length seen then None
        else
          (case admitted (m_trust_manager m) hb of
             None \<Rightarrow> Some (False, m\<lparr>m_seen_heartbeats := om_put h () seen\<rparr>, g)
           | Some info \<Rightarrow>
               Some (True, m\<lparr>m_seen_heartbeats := om_put h () seen,
                   m_trust_manager := put_info (hb_validatorId hb) (recorded hb info) (m_trust_manager m)\<rparr>,
                 map_option (learn_peer (hb_nodeAddress hb)) g)))"
  using assms by (rule ProcessHeartbeat_cases)
definition sample_conn :: CConnman where
  "sample_conn = \<lparr>m_added_nodes_mutex = False, m_added_node_params = [], GetDefaultPort = (\<lambda>_. 18888)\<rparr>"

definition sample_trust :: TrustScoreManager where
  "sample_trust = (TrustScoreManager_new CMainParams)\<lparr>tsm_validators := [(7, sample_info 10 9)]\<rparr>"

definition sample_manager :: HeartbeatManager where
  "sample_manager = SetConnman (Some sample_conn) (HeartbeatManager_new sample_trust CMainParams)"

definition sample_heartbeat :: Heartbeat where
  "sample_heartbeat = Heartbeat_new\<lparr>hb_validatorId := 7, hb_blockHeight := 600, hb_nodeAddress := ipv4 10 0 0 1 18888\<rparr>"

definition const_crypto :: Crypto where
  "const_crypto = toy_crypto\<lparr>Hash := (\<lambda>_. 20000)\<rparr>"

definition seen_hashes :: "nat \<Rightarrow> (uint256, unit) omap" where
  "seen_hashes n = map (\<lambda>i. (of_nat i, ())) [0..<n]"

lemma seen_hashes_miss: "n \<le> 20000 \<Longrightarrow> map_of (seen_hashes n) 20000 = None"
proof -
  assume n: "n \<le> 20000"
  have "(of_nat i :: uint256) \<noteq> 20000" if "i < n" for i
  proof
    assume "(of_nat i :: uint256) = 20000"
    then have "unat (of_nat i :: uint256) = unat (20000 :: uint256)" by simp
    with that n show False by (simp add: unat_of_nat)
  qed
  then show ?thesis by (auto simp: seen_hashes_def map_of_eq_None_iff)
qed

lemma sample_address_valid: "CService_IsValid (ipv4 10 0 0 1 18888)"
  by code_simp

lemma sample_admitted:
  "admitted sample_trust sample_heartbeat = Some (sample_info 10 9)"
  "admitted sample_trust (sample_heartbeat\<lparr>hb_nodeAddress := a, hb_signature := s\<rparr>) = Some (sample_info 10 9)"
  by (simp_all add: admitted_def sample_trust_def TrustScoreManager_new_def sample_heartbeat_def sample_info_def
      ValidatorInfo_new_def CMainParams_def s32_id)

lemmas sample_manager_simps = sample_manager_def SetConnman_def HeartbeatManager_new_def

theorem ProcessHeartbeat_decides_witness:
  "ProcessHeartbeat const_crypto no_names sample_heartbeat
      (sample_manager\<lparr>m_seen_heartbeats := seen_hashes 10000\<rparr>, Some PeerDiscoveryManager_new) = None \<and>
   ProcessHeartbeat const_crypto no_names sample_heartbeat
      (sample_manager\<lparr>m_seen_heartbeats := seen_hashes 9999\<rparr>, Some PeerDiscoveryManager_new) =
     Some (True, sample_manager\<lparr>m_seen_heartbeats := om_put 20000 () (seen_hashes 9999),
         m_trust_manager := put_info 7 (recorded sample_heartbeat (sample_info 10 9)) sample_trust\<rparr>,
       Some (learn_peer (ipv4 10 0 0 1 18888) PeerDiscoveryManager_new))"
proof -
  have hash: "Heartbeat_GetHash const_crypto no_names sample_heartbeat = 20000"
    by (simp add: Heartbeat_GetHash_def const_crypto_def)
  have free: "\<not> cs_heartbeat (sample_manager\<lparr>m_seen_heartbeats := s\<rparr>)" for s by (simp add: sample_manager_simps)
  have pd: "peers_free (Some PeerDiscoveryManager_new)" by (simp add: peers_free_def PeerDiscoveryManager_new_def)
  have tm: "m_trust_manager (sample_manager\<lparr>m_seen_heartbeats := s\<rparr>) = sample_trust" for s
    by (simp add: sample_manager_simps)
  have len: "length (seen_hashes n) = n" for n by (simp add: seen_hashes_def)
  have id7: "hb_validatorId sample_heartbeat = 7" "hb_nodeAddress sample_heartbeat = ipv4 10 0 0 1 18888"
    by (simp_all add: sample_heartbeat_def)
  show ?thesis
    unfolding ProcessHeartbeat_decides [OF free pd] Let_def hash tm
    by (simp add: seen_hashes_miss len MAX_SEEN_HEARTBEATS_def sample_admitted id7)
qed

section \<open>The node\<close>

text \<open>
  Everything that changes the state of a node. First the calls on the trust manager that the heartbeat
  manager refers to, and on the peer discovery. The numbers are in the range of their types.
\<close>

definition on_trust :: "(TrustScoreManager \<Rightarrow> TrustScoreManager) \<Rightarrow> HeartbeatManager \<Rightarrow> HeartbeatManager" where
  "on_trust f m = m\<lparr>m_trust_manager := f (m_trust_manager m)\<rparr>"

inductive trust_call :: "(TrustScoreManager \<Rightarrow> TrustScoreManager) \<Rightarrow> bool" where
  register: "fits 64 s \<Longrightarrow> fits 32 h \<Longrightarrow> trust_call (\<lambda>tm. snd (TSM_RegisterValidator k s f h tm))"
| stake: "fits 64 s \<Longrightarrow> trust_call (\<lambda>tm. snd (UpdateStake k s tm))"
| fee: "trust_call (\<lambda>tm. snd (UpdatePoolFee k s tm))"
| heartbeat: "fits 32 h \<Longrightarrow> trust_call (\<lambda>tm. snd (TSM_ProcessHeartbeat hb h tm))"
| deactivate: "trust_call (\<lambda>tm. snd (DeactivateValidator k tm))"
| height: "trust_call (TSM_SetHeight h)"
| missed: "trust_call (RecordMissedCheckIns h)"

inductive peer_call :: "NetText \<Rightarrow> PeerDiscoveryManager \<Rightarrow> PeerDiscoveryManager \<Rightarrow> bool" for T where
  config_path: "SetConfigPath path pd = Some (u, pd') \<Longrightarrow> peer_call T pd pd'"
| report: "ProcessValidatorAddress a pd = Some (b, pd') \<Longrightarrow> peer_call T pd pd'"
| added: "MarkPeerAdded a pd = Some (u, pd') \<Longrightarrow> peer_call T pd pd'"
| loaded: "LoadPeersFromConfig T f pd = Some (b, pd') \<Longrightarrow> peer_call T pd pd'"

text \<open>
  What the manager holds while \<^verbatim>\<open>ProcessHeartbeat\<close> waits in \<^verbatim>\<open>CleanupSeenHeartbeats\<close> for the mutex it
  has taken itself: the new hash is stored and the mutex is held, for good.
\<close>

definition waiting :: "Crypto \<Rightarrow> NetText \<Rightarrow> Heartbeat \<Rightarrow> HeartbeatManager \<Rightarrow> HeartbeatManager" where
  "waiting C T hb m = hold_heartbeat True
     (m\<lparr>m_seen_heartbeats := om_put (Heartbeat_GetHash C T hb) () (m_seen_heartbeats m)\<rparr>)"

text \<open>
  A step of a running node: one of the four messages, with any bytes, a heartbeat whose call waits for
  ever, a new block, a broadcast, the configuration of the key and of the connection manager, and the
  calls above. A call that finds the mutex held waits and changes nothing, except for a new block: it
  has by then made its two calls on the trust manager, which are steps of their own.
\<close>

inductive node_step :: "Crypto \<Rightarrow> NetText \<Rightarrow> TrustNode \<Rightarrow> TrustNode \<Rightarrow> bool" for C T where
  message: "ProcessTrustMessage C T msg_type vRecv n = Some (r, n') \<Longrightarrow> node_step C T n n'"
| message_waits: "unser_Heartbeat T Heartbeat_new vRecv = Inr (hb, rest) \<Longrightarrow> g_heartbeat_manager n = Some m \<Longrightarrow>
    \<not> cs_heartbeat m \<Longrightarrow> ProcessHeartbeat C T hb (m, g_peer_discovery n) = None \<Longrightarrow>
    node_step C T n (n\<lparr>g_heartbeat_manager := Some (waiting C T hb m)\<rparr>)"
| block: "g_heartbeat_manager n = Some m \<Longrightarrow> fits 32 height \<Longrightarrow> OnNewBlock height m = Some m' \<Longrightarrow>
    node_step C T n (n\<lparr>g_heartbeat_manager := Some m'\<rparr>)"
| broadcast: "on_manager (BroadcastHeartbeat C T now height hash) n = Some n' \<Longrightarrow> node_step C T n n'"
| set_key: "on_manager (SetValidatorKey key) n = Some n' \<Longrightarrow> node_step C T n n'"
| set_connman: "node_step C T n (with_manager (SetConnman c) n)"
| trust: "trust_call f \<Longrightarrow> node_step C T n (with_manager (on_trust f) n)"
| expectations: "g_heartbeat_manager n = Some m \<Longrightarrow> UpdateHeartbeatExpectations height (m_trust_manager m) = Some tm \<Longrightarrow>
    node_step C T n (n\<lparr>g_heartbeat_manager := Some (m\<lparr>m_trust_manager := tm\<rparr>)\<rparr>)"
| address: "g_heartbeat_manager n = Some m \<Longrightarrow> fits 64 ts \<Longrightarrow>
    UpdateValidatorAddress k a ts (m_trust_manager m, g_peer_discovery n) = Some (b, tm, g) \<Longrightarrow>
    node_step C T n \<lparr>g_heartbeat_manager = Some (m\<lparr>m_trust_manager := tm\<rparr>), g_peer_discovery = g\<rparr>"
| peers: "g_peer_discovery n = Some pd \<Longrightarrow> peer_call T pd pd' \<Longrightarrow> node_step C T n (n\<lparr>g_peer_discovery := Some pd'\<rparr>)"
| peers_stopped: "ShutdownPeerDiscovery T can_open (g_peer_discovery n) = Some (written, g) \<Longrightarrow>
    node_step C T n (n\<lparr>g_peer_discovery := g\<rparr>)"

text \<open>
  The steps that forget hashes: the clean-up, and stopping the manager or putting a new one in its
  place, which refers to the same trust manager. Destroying a mutex that is held is undefined, so the
  last two need it free.
\<close>

inductive trust_step :: "Crypto \<Rightarrow> NetText \<Rightarrow> TrustNode \<Rightarrow> TrustNode \<Rightarrow> bool" for C T where
  running: "node_step C T n n' \<Longrightarrow> trust_step C T n n'"
| cleanup: "on_manager CleanupSeenHeartbeats n = Some n' \<Longrightarrow> trust_step C T n n'"
| restart: "g_heartbeat_manager n = Some m \<Longrightarrow> \<not> cs_heartbeat m \<Longrightarrow>
    trust_step C T n (InitHeartbeatManager (m_trust_manager m) (m_consensus_params m) n)"
| shutdown: "pred_option (\<lambda>m. \<not> cs_heartbeat m) (g_heartbeat_manager n) \<Longrightarrow>
    trust_step C T n (ShutdownHeartbeatManager n)"

text \<open>The invariant: of an entry, of the trust manager, of the peer discovery, and of the node.\<close>

definition info_ok :: "Params \<Rightarrow> CKeyID \<Rightarrow> ValidatorInfo \<Rightarrow> bool" where
  "info_ok p k i \<longleftrightarrow> vi_validatorId i = k \<and> (vi_isActive i \<longrightarrow> nMinValidatorStake p \<le> vi_stakeAmount i) \<and>
     0 \<le> vi_poolFeeRate i \<and> vi_poolFeeRate i \<le> 10000 \<and> 0 \<le> vi_heartbeatsExpected i \<and>
     fits 64 (vi_stakeAmount i) \<and> fits 32 (vi_registrationHeight i) \<and> fits 32 (vi_lastHeartbeatHeight i) \<and>
     fits 32 (vi_heartbeatsExpected i) \<and> fits 32 (vi_heartbeatsReceived i) \<and> fits 64 (vi_lastCheckInTime i) \<and>
     fits 32 (vi_consecutiveCheckIns i) \<and> fits 32 (vi_missedCheckIns i)"

definition tsm_inv :: "Params \<Rightarrow> TrustScoreManager \<Rightarrow> bool" where
  "tsm_inv p tm \<longleftrightarrow> tsm_params tm = p \<and> om_wf (tsm_validators tm) \<and>
     (\<forall>k i. map_of (tsm_validators tm) k = Some i \<longrightarrow> info_ok p k i)"

definition pd_inv :: "PeerDiscoveryManager \<Rightarrow> bool" where
  "pd_inv pd \<longleftrightarrow> \<not> cs_peers pd \<and>
     (\<forall>a. map_of (pendingAdditions pd) a \<noteq> None \<longrightarrow> map_of (knownValidatorPeers pd) a \<noteq> None)"

definition addresses_known :: "TrustScoreManager \<Rightarrow> PeerDiscoveryManager \<Rightarrow> bool" where
  "addresses_known tm pd \<longleftrightarrow>
     (\<forall>k i. map_of (tsm_validators tm) k = Some i \<longrightarrow> CService_IsValid (vi_lastKnownAddress i) \<longrightarrow>
        map_of (knownValidatorPeers pd) (service_key (vi_lastKnownAddress i)) \<noteq> None)"

definition hb_inv :: "Params \<Rightarrow> hb_state \<Rightarrow> bool" where
  "hb_inv p = (\<lambda>(m, g). \<not> cs_heartbeat m \<and> m_consensus_params m = p \<and> tsm_inv p (m_trust_manager m) \<and>
     pred_option pd_inv g \<and> pred_option (addresses_known (m_trust_manager m)) g)"

definition trust_inv :: "Params \<Rightarrow> TrustNode \<Rightarrow> bool" where
  "trust_inv p n \<longleftrightarrow> (\<exists>m. g_heartbeat_manager n = Some m \<and> hb_inv p (m, g_peer_discovery n))"

lemma tsm_invD:
  "tsm_inv p tm \<Longrightarrow> tsm_params tm = p" "tsm_inv p tm \<Longrightarrow> om_wf (tsm_validators tm)"
  "tsm_inv p tm \<Longrightarrow> map_of (tsm_validators tm) k = Some i \<Longrightarrow> info_ok p k i"
  by (simp_all add: tsm_inv_def)

lemma put_info_inv: "tsm_inv p tm \<Longrightarrow> info_ok p k i \<Longrightarrow> tsm_inv p (put_info k i tm)"
  by (auto simp: tsm_inv_def put_info_def store)

lemma put_info_known:
  assumes "addresses_known tm pd"
    and "CService_IsValid (vi_lastKnownAddress i) \<Longrightarrow>
      map_of (knownValidatorPeers pd) (service_key (vi_lastKnownAddress i)) \<noteq> None"
  shows "addresses_known (put_info k i tm) pd"
  using assms by (auto simp: addresses_known_def put_info_def store)

text \<open>An operation of the trust manager is safe if it keeps both invariants for every peer discovery.\<close>

definition trust_safe :: "Params \<Rightarrow> (TrustScoreManager \<Rightarrow> TrustScoreManager) \<Rightarrow> bool" where
  "trust_safe p f \<longleftrightarrow> (\<forall>tm. tsm_inv p tm \<longrightarrow>
     tsm_inv p (f tm) \<and> (\<forall>pd. addresses_known tm pd \<longrightarrow> addresses_known (f tm) pd))"

lemma trust_safeI:
  "(\<And>tm. tsm_inv p tm \<Longrightarrow> tsm_inv p (f tm)) \<Longrightarrow>
   (\<And>tm pd. tsm_inv p tm \<Longrightarrow> addresses_known tm pd \<Longrightarrow> addresses_known (f tm) pd) \<Longrightarrow> trust_safe p f"
  by (simp add: trust_safe_def)

lemma trust_safe_id: "trust_safe p (\<lambda>tm. tm)"
  by (simp add: trust_safe_def)

lemma trust_safe_comp: "trust_safe p f \<Longrightarrow> trust_safe p g \<Longrightarrow> trust_safe p (\<lambda>tm. g (f tm))"
  by (simp add: trust_safe_def)

text \<open>Updating one entry in place, keeping its address.\<close>

lemma trust_safe_entry:
  assumes "\<And>tm. tsm_inv p tm \<Longrightarrow> f tm = tm \<or>
    (\<exists>i i'. map_of (tsm_validators tm) k = Some i \<and> f tm = put_info k i' tm \<and>
       (info_ok p k i \<longrightarrow> info_ok p k i') \<and> vi_lastKnownAddress i' = vi_lastKnownAddress i)"
  shows "trust_safe p f"
proof (rule trust_safeI)
  fix tm assume inv: "tsm_inv p tm"
  from assms [OF inv] show "tsm_inv p (f tm)"
    using inv tsm_invD(3) [OF inv] put_info_inv [OF inv] by metis
  fix pd assume k: "addresses_known tm pd"
  from assms [OF inv] show "addresses_known (f tm) pd"
    using k put_info_known [OF k] unfolding addresses_known_def by metis
qed
lemma fits_s32 [simp]: "fits 32 (s32 x)"
  by (rule fits_wrap) simp

lemma fits_0 [simp]: "fits w 0"
  by (simp add: fits_def)

lemma UpdateStake_safe: "fits 64 s \<Longrightarrow> trust_safe p (\<lambda>tm. snd (UpdateStake k s tm))"
  by (rule trust_safe_entry [where k = k])
    (auto simp: UpdateStake_def Let_def info_ok_def tsm_inv_def split: option.splits)

lemma UpdatePoolFee_safe: "trust_safe p (\<lambda>tm. snd (UpdatePoolFee k s tm))"
  by (rule trust_safe_entry [where k = k])
    (auto simp: UpdatePoolFee_def info_ok_def split: option.splits)

lemma DeactivateValidator_safe: "trust_safe p (\<lambda>tm. snd (DeactivateValidator k tm))"
  by (rule trust_safe_entry [where k = k])
    (auto simp: DeactivateValidator_def info_ok_def split: option.splits)

text \<open>Rewriting every entry, keeping the addresses.\<close>

lemma trust_safe_vals:
  assumes "\<And>k i. info_ok p k i \<Longrightarrow> info_ok p k (f i)" and "\<And>i. vi_lastKnownAddress (f i) = vi_lastKnownAddress i"
  shows "trust_safe p (\<lambda>tm. tm\<lparr>tsm_validators := om_vals f (tsm_validators tm)\<rparr>)"
  using assms by (intro trust_safeI) (auto simp: tsm_inv_def addresses_known_def store)

lemma RecordMissedCheckIns_safe: "trust_safe p (RecordMissedCheckIns h)"
proof -
  have "trust_safe p (\<lambda>tm. tm\<lparr>tsm_validators := om_vals (miss_check_in p h) (tsm_validators tm)\<rparr>)"
    by (rule trust_safe_vals) (auto simp: miss_check_in_def info_ok_def)
  then show ?thesis by (simp add: trust_safe_def RecordMissedCheckIns_def tsm_inv_def)
qed

text \<open>Where the interval is positive a block updates every entry.\<close>

definition expected_entry :: "Params \<Rightarrow> int \<Rightarrow> ValidatorInfo \<Rightarrow> ValidatorInfo" where
  "expected_entry p height i =
     (let blocks = s32 (height - vi_registrationHeight i); window = min blocks (nUptimeWindow p)
      in if vi_isActive i \<and> 0 < window then i\<lparr>vi_heartbeatsExpected := cdiv window (nHeartbeatInterval p)\<rparr>
         else if vi_isActive i \<and> 0 < blocks then i\<lparr>vi_heartbeatsExpected := cdiv blocks (nHeartbeatInterval p)\<rparr>
         else i)"

lemma expect_heartbeats_entry:
  "0 < nHeartbeatInterval p \<Longrightarrow> expect_heartbeats p height i = Some (expected_entry p height i)"
  by (auto simp: expect_heartbeats_def expected_entry_def Let_def)

lemma expect_all_entries:
  "0 < nHeartbeatInterval p \<Longrightarrow> expect_all p height vs = Some (om_vals (expected_entry p height) vs)"
  by (induction p height vs rule: expect_all.induct) (simp_all add: expect_heartbeats_entry om_vals_def)

lemma cdiv_fits:
  assumes "0 < x" and "x < 2147483648" and "0 < y"
  shows "0 \<le> cdiv x y \<and> fits 32 (cdiv x y)"
proof -
  have "x div y \<le> x" using zdiv_mono2 [of x 1 y] assms by simp
  moreover have "0 \<le> x div y" using assms by (simp add: pos_imp_zdiv_nonneg_iff)
  ultimately show ?thesis using assms by (simp add: cdiv_nonneg fits_def)
qed

lemma expected_entry_ok:
  assumes "0 < nHeartbeatInterval p" and "info_ok p k i"
  shows "info_ok p k (expected_entry p height i)"
proof -
  have top: "s32 x < 2147483648" for x using fits_s32 [of x] by (simp add: fits_def)
  have "0 \<le> cdiv x (nHeartbeatInterval p) \<and> fits 32 (cdiv x (nHeartbeatInterval p))"
    if "0 < x" "x \<le> s32 y" for x y
    using cdiv_fits [of x] that top [of y] assms(1) by simp
  from this [OF _ order_refl] this [OF _ min.cobounded1] assms(2) show ?thesis
    unfolding expected_entry_def Let_def by (auto simp: info_ok_def)
qed

lemma UpdateHeartbeatExpectations_safe:
  assumes "0 < nHeartbeatInterval p"
  shows "trust_safe p (\<lambda>tm. the (UpdateHeartbeatExpectations height tm))"
    and "tsm_params tm = p \<Longrightarrow> \<exists>tm'. UpdateHeartbeatExpectations height tm = Some tm'"
proof -
  have "trust_safe p (\<lambda>tm. tm\<lparr>tsm_validators := om_vals (expected_entry p height) (tsm_validators tm)\<rparr>)"
    by (rule trust_safe_vals, erule expected_entry_ok [OF assms]) (simp add: expected_entry_def Let_def)
  moreover have upd: "UpdateHeartbeatExpectations height tm =
      Some (tm\<lparr>tsm_currentHeight := height, tsm_validators := om_vals (expected_entry p height) (tsm_validators tm)\<rparr>)"
    if "tsm_params tm = p" for tm
    using assms that by (simp add: UpdateHeartbeatExpectations_def expect_all_entries)
  ultimately show "trust_safe p (\<lambda>tm. the (UpdateHeartbeatExpectations height tm))"
    by (simp add: trust_safe_def tsm_inv_def addresses_known_def)
  show "tsm_params tm = p \<Longrightarrow> \<exists>tm'. UpdateHeartbeatExpectations height tm = Some tm'"
    using upd by blast
qed

text \<open>Registration: the entry a new validator gets.\<close>

definition registered :: "CKeyID \<Rightarrow> int \<Rightarrow> int \<Rightarrow> int \<Rightarrow> ValidatorInfo" where
  "registered k stake fee height = ValidatorInfo_new\<lparr>vi_validatorId := k, vi_stakeAmount := stake,
     vi_poolFeeRate := fee, vi_registrationHeight := height, vi_lastHeartbeatHeight := height, vi_isActive := True\<rparr>"

definition may_register :: "CKeyID \<Rightarrow> int \<Rightarrow> int \<Rightarrow> TrustScoreManager \<Rightarrow> bool" where
  "may_register k stake fee tm \<longleftrightarrow> nMinValidatorStake (tsm_params tm) \<le> stake \<and>
     map_of (tsm_validators tm) k = None \<and> 0 \<le> fee \<and> fee \<le> 10000"

lemma TSM_RegisterValidator_decides:
  "TSM_RegisterValidator k stake fee height tm =
     (if may_register k stake fee tm then (True, put_info k (registered k stake fee height) tm) else (False, tm))"
  by (auto simp: TSM_RegisterValidator_def may_register_def registered_def ValidatorInfo_new_def)

lemma no_address_yet: "\<not> CService_IsValid (vi_lastKnownAddress (registered k stake fee height))"
  by (simp add: registered_def ValidatorInfo_new_def) code_simp

lemma registered_ok:
  "may_register k stake fee tm \<Longrightarrow> tsm_params tm = p \<Longrightarrow> fits 64 stake \<Longrightarrow> fits 32 height \<Longrightarrow>
   info_ok p k (registered k stake fee height)"
  by (simp add: info_ok_def registered_def may_register_def ValidatorInfo_new_def fits_def)

lemma TSM_RegisterValidator_safe:
  assumes "fits 64 stake" and "fits 32 height"
  shows "trust_safe p (\<lambda>tm. snd (TSM_RegisterValidator k stake fee height tm))"
  using assms no_address_yet
  by (intro trust_safeI)
    (auto simp: TSM_RegisterValidator_decides tsm_invD registered_ok intro!: put_info_inv put_info_known)

lemma process_listed_safe:
  assumes "fits 64 (vi_stakeAmount i)" and "fits 32 (vi_registrationHeight i)"
  shows "trust_safe p (process_listed q i)"
  using TSM_RegisterValidator_safe [OF assms]
  unfolding trust_safe_def process_listed_def by (auto split: option.splits)

lemma trust_safe_fold: "(\<And>x. x \<in> set xs \<Longrightarrow> trust_safe p (f x)) \<Longrightarrow> trust_safe p (fold f xs)"
  by (induction xs) (simp_all add: trust_safe_def)
text \<open>Numbers read from a stream are in the range of their types.\<close>

lemma rd_bindE:
  assumes "rd_bind p f bs = Inr (y, r)"
  obtains x s where "p bs = Inr (x, s)" and "f x s = Inr (y, r)"
  using assms by (auto simp: rd_bind_def split: sum.splits)

lemma unser_int_fits: "unser_int n bs = Inr (x, r) \<Longrightarrow> 0 < n \<Longrightarrow> fits (8 * n) x"
  by (auto simp: unser_int_def rd_bind_def rd_ret_def split: sum.splits intro!: fits_wrap)

lemmas read_fits = unser_int_fits [of 4, simplified] unser_int_fits [of 8, simplified]

lemma unser_Heartbeat_fits:
  "unser_Heartbeat T old bs = Inr (hb, r) \<Longrightarrow> fits 32 (hb_blockHeight hb) \<and> fits 64 (hb_timestamp hb)"
  unfolding unser_Heartbeat_def by (elim rd_bindE) (auto simp: rd_ret_def read_fits)

lemma unser_ValidatorInfo_fits:
  "unser_ValidatorInfo T old bs = Inr (i, r) \<Longrightarrow> fits 64 (vi_stakeAmount i) \<and> fits 32 (vi_registrationHeight i)"
  unfolding unser_ValidatorInfo_def by (elim rd_bindE) (auto simp: rd_ret_def read_fits)

lemma unser_ValidatorRegistration_fits:
  "unser_ValidatorRegistration bs = Inr (reg, r) \<Longrightarrow>
   fits 64 (vr_stakeAmount reg) \<and> fits 32 (vr_registrationHeight reg)"
  unfolding unser_ValidatorRegistration_def by (elim rd_bindE) (auto simp: rd_ret_def read_fits)

lemma rd_times_all:
  assumes "\<And>bs x r. p bs = Inr (x, r) \<Longrightarrow> P x"
  shows "rd_times n p bs = Inr (xs, r) \<Longrightarrow> \<forall>x \<in> set xs. P x"
proof (induction n arbitrary: bs xs r)
  case 0
  then show ?case by (simp add: rd_ret_def)
next
  case (Suc n)
  then show ?case using assms by (auto simp: rd_ret_def elim!: rd_bindE)
qed

lemma unser_ValidatorList_fits:
  "unser_ValidatorList T bs = Inr (vs, r) \<Longrightarrow>
   \<forall>i \<in> set vs. fits 64 (vi_stakeAmount i) \<and> fits 32 (vi_registrationHeight i)"
  unfolding unser_ValidatorList_def unser_list_def
  by (elim rd_bindE) (rule rd_times_all, rule unser_ValidatorInfo_fits)

section \<open>The invariant is kept\<close>

lemma hb_invD:
  assumes "hb_inv p (m, g)"
  shows "\<not> cs_heartbeat m" "m_consensus_params m = p" "tsm_inv p (m_trust_manager m)" "peers_free g"
  using assms by (auto simp: hb_inv_def peers_free_def pd_inv_def elim!: option.pred_mono_strong)

lemma on_trust_inv: "trust_safe p f \<Longrightarrow> hb_inv p (m, g) \<Longrightarrow> hb_inv p (on_trust f m, g)"
  by (cases g) (simp_all add: trust_safe_def hb_inv_def on_trust_def)

text \<open>
  The invariant of a node that may wait: the invariant of the manager with its mutex free holds of
  what it stores, and the mutex is held only if more hashes are stored than the limit. A node without
  a manager keeps the invariant of the peer discovery.
\<close>

definition node_inv :: "Params \<Rightarrow> TrustNode \<Rightarrow> bool" where
  "node_inv p n \<longleftrightarrow>
     (case g_heartbeat_manager n of
        None \<Rightarrow> pred_option pd_inv (g_peer_discovery n)
      | Some m \<Rightarrow> hb_inv p (hold_heartbeat False m, g_peer_discovery n) \<and>
          (cs_heartbeat m \<longrightarrow> MAX_SEEN_HEARTBEATS < length (m_seen_heartbeats m)))"

lemma hold_free: "\<not> cs_heartbeat m \<Longrightarrow> hold_heartbeat False m = m"
  by (cases m) simp

lemma trust_inv_node: "trust_inv p n \<Longrightarrow> node_inv p n"
  by (auto simp: trust_inv_def node_inv_def) (metis hb_invD(1) hold_free, metis hb_invD(1))

lemma node_inv_free:
  "node_inv p n \<Longrightarrow> g_heartbeat_manager n = Some m \<Longrightarrow> \<not> cs_heartbeat m \<Longrightarrow> hb_inv p (m, g_peer_discovery n)"
  by (simp add: node_inv_def hold_free)

lemma node_invI:
  "hb_inv p (m, g) \<Longrightarrow> node_inv p \<lparr>g_heartbeat_manager = Some m, g_peer_discovery = g\<rparr>"
  by (rule trust_inv_node) (simp add: trust_inv_def)

text \<open>Calls that do not take the mutex, whether it is held or not.\<close>

lemma with_manager_inv:
  assumes "node_inv p n" and "\<And>m g. hb_inv p (m, g) \<Longrightarrow> hb_inv p (f m, g)"
    and "\<And>m b. f (hold_heartbeat b m) = hold_heartbeat b (f m)"
    and "\<And>m. m_seen_heartbeats (f m) = m_seen_heartbeats m \<and> cs_heartbeat (f m) = cs_heartbeat m"
  shows "node_inv p (with_manager f n)"
  using assms(1) assms(2) [of "hold_heartbeat False _"] assms(3,4)
  by (auto simp: node_inv_def with_manager_def split: option.splits)

lemma on_trust_node: "node_inv p n \<Longrightarrow> trust_safe p f \<Longrightarrow> node_inv p (with_manager (on_trust f) n)"
  by (rule with_manager_inv, assumption, rule on_trust_inv) (simp_all add: on_trust_def)

text \<open>Calls that take it and return.\<close>

lemma on_manager_inv:
  assumes "on_manager f n = Some n'" and "node_inv p n"
    and "\<And>m g r s. hb_inv p (m, g) \<Longrightarrow> f (m, g) = Some (r, s) \<Longrightarrow> hb_inv p s"
    and "\<And>m g. cs_heartbeat m \<Longrightarrow> f (m, g) = None"
  shows "node_inv p n'"
proof (cases "g_heartbeat_manager n")
  case None
  then show ?thesis using assms(1,2) by (simp add: on_manager_def)
next
  case (Some m)
  then obtain r m' g' where run: "f (m, g_peer_discovery n) = Some (r, m', g')"
    and n': "n' = n\<lparr>g_heartbeat_manager := Some m', g_peer_discovery := g'\<rparr>"
    using assms(1) by (auto simp: on_manager_def Option.bind_eq_Some_conv)
  then have "\<not> cs_heartbeat m" using assms(4) by fastforce
  from assms(3) [OF node_inv_free [OF assms(2) Some this] run] show ?thesis
    by (cases n) (auto simp: n' intro: node_invI)
qed

lemma learn_peer_inv: "pd_inv pd \<Longrightarrow> pd_inv (learn_peer a pd)"
  by (auto simp: pd_inv_def learn_peer_def store split: if_splits)

lemma learn_peer_more:
  "map_of (knownValidatorPeers pd) k \<noteq> None \<Longrightarrow> map_of (knownValidatorPeers (learn_peer a pd)) k \<noteq> None"
  by (auto simp: learn_peer_def store)

lemma recorded_ok:
  assumes "info_ok p k info" and "fits 32 (hb_blockHeight hb)" and "fits 64 (hb_timestamp hb)"
  shows "info_ok p k (recorded hb info)"
  using assms by (simp add: info_ok_def recorded_def Let_def)

lemma admittedD: "admitted tm hb = Some info \<Longrightarrow> map_of (tsm_validators tm) (hb_validatorId hb) = Some info"
  by (auto simp: admitted_def split: option.splits if_splits)

lemma addresses_known_mono:
  "addresses_known tm pd \<Longrightarrow>
   (\<And>k. map_of (knownValidatorPeers pd) k \<noteq> None \<Longrightarrow> map_of (knownValidatorPeers pd') k \<noteq> None) \<Longrightarrow>
   addresses_known tm pd'"
  unfolding addresses_known_def by meson

lemma recorded_known:
  assumes "addresses_known tm pd" and "map_of (tsm_validators tm) k = Some info"
  shows "addresses_known (put_info k (recorded hb info) tm) (learn_peer (hb_nodeAddress hb) pd)"
proof (rule put_info_known)
  show "addresses_known tm (learn_peer (hb_nodeAddress hb) pd)"
    using assms(1) learn_peer_more by (rule addresses_known_mono)
  show "map_of (knownValidatorPeers (learn_peer (hb_nodeAddress hb) pd))
      (service_key (vi_lastKnownAddress (recorded hb info))) \<noteq> None"
    if "CService_IsValid (vi_lastKnownAddress (recorded hb info))"
  proof (cases "CService_IsValid (hb_nodeAddress hb)")
    case True
    then show ?thesis using learned_known by (simp add: recorded_def)
  next
    case False
    with that assms show ?thesis by (auto simp: recorded_def addresses_known_def learn_peer_def)
  qed
qed

lemma counted_inv:
  assumes inv: "hb_inv p (m, g)" and adm: "admitted (m_trust_manager m) hb = Some info"
    and fit: "fits 32 (hb_blockHeight hb)" "fits 64 (hb_timestamp hb)"
  shows "hb_inv p (m\<lparr>m_seen_heartbeats := seen,
      m_trust_manager := put_info (hb_validatorId hb) (recorded hb info) (m_trust_manager m)\<rparr>,
    map_option (learn_peer (hb_nodeAddress hb)) g)"
proof -
  note entry = admittedD [OF adm]
  have "tsm_inv p (put_info (hb_validatorId hb) (recorded hb info) (m_trust_manager m))"
    using hb_invD(3) [OF inv] entry fit by (blast intro: put_info_inv recorded_ok tsm_invD(3))
  then show ?thesis
    using inv recorded_known [OF _ entry] learn_peer_inv by (cases g) (simp_all add: hb_inv_def)
qed
lemma ProcessHeartbeat_inv:
  assumes inv: "hb_inv p (m, g)" and fit: "fits 32 (hb_blockHeight hb)" "fits 64 (hb_timestamp hb)"
    and run: "ProcessHeartbeat C T hb (m, g) = Some (r, s)"
  shows "hb_inv p s"
proof -
  note decide = ProcessHeartbeat_cases [OF hb_invD(1,4) [OF inv]]
  show ?thesis
  proof (cases "admitted (m_trust_manager m) hb")
    case None
    with run inv show ?thesis unfolding decide Let_def by (auto simp: hb_inv_def split: if_splits)
  next
    case (Some info)
    from run inv counted_inv [OF inv Some fit] show ?thesis
      unfolding decide Let_def Some by (auto split: if_splits)
  qed
qed

lemma BroadcastHeartbeat_inv:
  assumes "hb_inv p (m, g)" and "BroadcastHeartbeat C T now height hash (m, g) = Some (r, s)"
  shows "hb_inv p s"
proof -
  have "\<not> cs_heartbeat m" using assms(1) by (rule hb_invD)
  with assms show ?thesis
    by (cases m) (auto simp: BroadcastHeartbeat_def LOCK_def hb_inv_def Option.bind_eq_Some_conv
        split: option.splits if_splits prod.splits bool.splits)
qed

lemma SetValidatorKey_inv:
  "hb_inv p (m, g) \<Longrightarrow> SetValidatorKey key (m, g) = Some (r, s) \<Longrightarrow> hb_inv p s"
  by (auto simp: SetValidatorKey_def LOCK_def hb_inv_def Option.bind_eq_Some_conv split: if_splits)

lemma ShouldBroadcastHeartbeat_returns:
  "\<not> cs_heartbeat m \<Longrightarrow> 0 < nHeartbeatInterval (m_consensus_params m) \<Longrightarrow>
   \<exists>b. ShouldBroadcastHeartbeat height m = Some b"
  by (auto simp: ShouldBroadcastHeartbeat_def LOCK_const_def Let_def)

lemma OnNewBlock_inv:
  assumes "0 < nHeartbeatInterval p" and inv: "hb_inv p (m, g)"
  shows "\<exists>m'. OnNewBlock height m = Some m' \<and> hb_inv p (m', g) \<and> m_seen_heartbeats m' = m_seen_heartbeats m"
proof -
  from UpdateHeartbeatExpectations_safe(2) [OF assms(1)] tsm_invD(1) [OF hb_invD(3) [OF inv]]
  obtain tm where tm: "UpdateHeartbeatExpectations height (m_trust_manager m) = Some tm" by blast
  let ?m = "m\<lparr>m_trust_manager := TSM_SetHeight height tm\<rparr>"
  have "hb_inv p (on_trust (\<lambda>tm. the (UpdateHeartbeatExpectations height tm)) m, g)"
    by (rule on_trust_inv [OF UpdateHeartbeatExpectations_safe(1) [OF assms(1)] inv])
  then have new: "hb_inv p (?m, g)"
    by (cases g) (simp_all add: tm on_trust_def hb_inv_def TSM_SetHeight_def tsm_inv_def addresses_known_def)
  from ShouldBroadcastHeartbeat_returns [of ?m] hb_invD(1,2) [OF inv] assms(1)
  obtain b where "ShouldBroadcastHeartbeat height ?m = Some b" by auto
  with new tm show ?thesis by (simp add: OnNewBlock_def Let_def)
qed

lemma ProcessValidatorRegistration_on_trust:
  "\<exists>f. (f = (\<lambda>tm. tm) \<or> f = (\<lambda>tm. snd (TSM_RegisterValidator (CPubKey_GetID C (vr_validatorPubKey reg))
     (vr_stakeAmount reg) (vr_poolFeeRate reg) (vr_registrationHeight reg) tm))) \<and>
   snd (ProcessValidatorRegistration C reg m) = on_trust f m"
  by (auto simp: ProcessValidatorRegistration_def on_trust_def split: prod.splits)

lemma lock_waits: "cs_heartbeat m \<Longrightarrow> heartbeat_lock F (m, g) = None"
  by (simp add: LOCK_def)

lemma message_inv:
  assumes "ProcessTrustMessage C T msg_type vRecv n = Some (r, n')" and inv: "node_inv p n"
  shows "node_inv p n'"
proof -
  have hb: "node_inv p n'" if "on_heartbeat C T vRecv n = Some (r, n')"
    using that inv by (auto simp: on_heartbeat_def split: sum.splits
        dest!: unser_Heartbeat_fits elim!: on_manager_inv [OF _ inv] intro: ProcessHeartbeat_inv
        simp: ProcessHeartbeat_def lock_waits)
  have vs: "node_inv p (snd (on_validators T vRecv n))"
  proof (cases "unser_ValidatorList T vRecv")
    case (Inr a)
    then obtain vs rest where a: "unser_ValidatorList T vRecv = Inr (vs, rest)" by (cases a) auto
    have "trust_safe p (fold (process_listed q) vs)" for q
      using unser_ValidatorList_fits [OF a] by (intro trust_safe_fold process_listed_safe) auto
    then have "hb_inv p (ProcessValidatorList vs m, g)" if "hb_inv p (m, g)" for m g
      using on_trust_inv [OF _ that] by (simp add: ProcessValidatorList_def on_trust_def)
    then have "node_inv p (with_manager (ProcessValidatorList vs) n)"
      by (rule with_manager_inv [OF inv]) (simp_all add: ProcessValidatorList_def)
    with a show ?thesis by (simp add: on_validators_def)
  qed (simp add: on_validators_def inv)
  have reg: "node_inv p (snd (on_regvalidator C vRecv n))"
  proof (cases "unser_ValidatorRegistration vRecv")
    case (Inr a)
    then obtain reg rest where a: "unser_ValidatorRegistration vRecv = Inr (reg, rest)" by (cases a) auto
    note fit = unser_ValidatorRegistration_fits [OF a]
    have "hb_inv p (snd (ProcessValidatorRegistration C reg m), g)" if "hb_inv p (m, g)" for m g
      using ProcessValidatorRegistration_on_trust [of C reg m] fit that
      by (metis on_trust_inv trust_safe_id TSM_RegisterValidator_safe)
    then have "node_inv p (with_manager (\<lambda>m. snd (ProcessValidatorRegistration C reg m)) n)"
      by (rule with_manager_inv [OF inv]) (simp_all add: ProcessValidatorRegistration_def split: prod.split)
    with a show ?thesis by (simp add: on_regvalidator_def)
  qed (simp add: on_regvalidator_def inv)
  from assms(1) hb vs reg inv show ?thesis
    by (auto simp: ProcessTrustMessage_def on_getvalidators_def split: if_splits)
qed

lemma load_line_more: "map_of known k \<noteq> None \<Longrightarrow> map_of (load_line T line known) k \<noteq> None"
  by (auto simp: load_line_def store Let_def split: option.splits)

lemma load_lines_more: "map_of known k \<noteq> None \<Longrightarrow> map_of (fold (load_line T) ls known) k \<noteq> None"
proof (induction ls arbitrary: known)
  case (Cons l ls)
  show ?case using Cons.IH [OF load_line_more [OF Cons.prems]] by simp
qed simp

lemma LoadPeersFromConfig_keeps:
  assumes "LoadPeersFromConfig T f pd = Some (b, pd')" and "pd_inv pd"
  shows "pd_inv pd' \<and> (addresses_known tm pd \<longrightarrow> addresses_known tm pd')"
proof -
  from assms obtain ls where pd': "pd' = pd\<lparr>knownValidatorPeers := fold (load_line T) ls (knownValidatorPeers pd)\<rparr>
      \<or> pd' = pd"
    by (cases pd) (fastforce simp: LoadPeersFromConfig_def LOCK_def pd_inv_def split: if_splits option.splits)
  then show ?thesis
  proof
    assume pd': "pd' = pd\<lparr>knownValidatorPeers := fold (load_line T) ls (knownValidatorPeers pd)\<rparr>"
    have more: "map_of (knownValidatorPeers pd') k \<noteq> None" if "map_of (knownValidatorPeers pd) k \<noteq> None" for k
      using load_lines_more [OF that] by (simp add: pd')
    have "cs_peers pd' = cs_peers pd" "pendingAdditions pd' = pendingAdditions pd" by (simp_all add: pd')
    then have "pd_inv pd'" using assms(2) unfolding pd_inv_def by (metis more)
    then show ?thesis using addresses_known_mono [OF _ more] by metis
  qed (simp add: assms(2))
qed

lemma MarkPeerAdded_keeps:
  assumes "MarkPeerAdded a pd = Some (u, pd')" and "pd_inv pd"
  shows "pd_inv pd' \<and> (addresses_known tm pd \<longrightarrow> addresses_known tm pd')"
  using assms by (auto simp: MarkPeerAdded_def LOCK_def pd_inv_def addresses_known_def store split: if_splits)

lemma TSM_ProcessHeartbeat_safe: "fits 32 h \<Longrightarrow> trust_safe p (\<lambda>tm. snd (TSM_ProcessHeartbeat hb h tm))"
  by (rule trust_safe_entry [where k = "hb_validatorId hb"])
    (auto simp: TSM_ProcessHeartbeat_def info_ok_def split: option.splits)

lemma TSM_SetHeight_safe: "trust_safe p (TSM_SetHeight h)"
  by (rule trust_safeI) (auto simp: TSM_SetHeight_def tsm_inv_def addresses_known_def)

lemma trust_call_safe: "trust_call f \<Longrightarrow> trust_safe p f"
  by (induction rule: trust_call.induct)
    (auto intro: TSM_RegisterValidator_safe UpdateStake_safe UpdatePoolFee_safe TSM_ProcessHeartbeat_safe
      DeactivateValidator_safe TSM_SetHeight_safe RecordMissedCheckIns_safe)

lemma peer_call_keeps:
  "peer_call T pd pd' \<Longrightarrow> pd_inv pd \<Longrightarrow> pd_inv pd' \<and> (addresses_known tm pd \<longrightarrow> addresses_known tm pd')"
proof (induction rule: peer_call.induct)
  case (config_path path pd u pd')
  then show ?case by (auto simp: SetConfigPath_def LOCK_def pd_inv_def addresses_known_def split: if_splits)
next
  case (report a pd b pd')
  then have "pd' = learn_peer a pd" by (simp add: ProcessValidatorAddress_learns pd_inv_def)
  then show ?case using report.prems learn_peer_inv addresses_known_mono [OF _ learn_peer_more] by metis
qed (auto dest: MarkPeerAdded_keeps LoadPeersFromConfig_keeps)

lemma address_inv:
  assumes inv: "hb_inv p (m, g)" and fit: "fits 64 ts"
    and run: "UpdateValidatorAddress k a ts (m_trust_manager m, g) = Some (b, tm, g')"
  shows "hb_inv p (m\<lparr>m_trust_manager := tm\<rparr>, g')"
proof (cases "\<exists>info. map_of (tsm_validators (m_trust_manager m)) k = Some info \<and> CService_IsValid a")
  case False
  then have "tm = m_trust_manager m" "g' = g"
    using run by (auto simp: UpdateValidatorAddress_def split: option.splits if_splits)
  then show ?thesis using inv by simp
next
  case True
  then obtain info where info: "map_of (tsm_validators (m_trust_manager m)) k = Some info" and a: "CService_IsValid a" by blast
  let ?i = "info\<lparr>vi_lastKnownAddress := a, vi_lastCheckInTime := ts, vi_consecutiveCheckIns := s32 (vi_consecutiveCheckIns info + 1)\<rparr>"
  have tm: "tm = put_info k ?i (m_trust_manager m)" and g': "g' = map_option (learn_peer a) g"
    using run info a hb_invD(4) [OF inv]
    by (cases g; simp add: UpdateValidatorAddress_def peers_free_def ProcessValidatorAddress_learns)+
  have addr: "vi_lastKnownAddress ?i = a" by simp
  have known: "map_of (knownValidatorPeers (learn_peer a pd)) (service_key (vi_lastKnownAddress ?i)) \<noteq> None" for pd
    unfolding addr by (rule learned_known [OF a])
  have "info_ok p k ?i" using tsm_invD(3) [OF hb_invD(3) [OF inv] info] fit by (simp add: info_ok_def)
  then have "tsm_inv p tm" unfolding tm by (rule put_info_inv [OF hb_invD(3) [OF inv]])
  moreover have "addresses_known tm (learn_peer a pd)" if "addresses_known (m_trust_manager m) pd" for pd
    unfolding tm
    by (rule put_info_known [OF addresses_known_mono [OF that learn_peer_more]]) (assumption, rule known)
  ultimately show ?thesis using inv learn_peer_inv unfolding g' by (cases g) (simp_all add: hb_inv_def)
qed

lemma CleanupSeenHeartbeats_inv:
  "hb_inv p (m, g) \<Longrightarrow> CleanupSeenHeartbeats (m, g) = Some (r, s) \<Longrightarrow> hb_inv p s"
  by (auto simp: CleanupSeenHeartbeats_def LOCK_def hb_inv_def split: if_splits)

lemma message_waits_inv:
  assumes inv: "node_inv p n" and m: "g_heartbeat_manager n = Some m" "\<not> cs_heartbeat m"
    and run: "ProcessHeartbeat C T hb (m, g_peer_discovery n) = None"
  shows "node_inv p (n\<lparr>g_heartbeat_manager := Some (waiting C T hb m)\<rparr>)"
proof -
  note hb = node_inv_free [OF inv m]
  have "map_of (m_seen_heartbeats m) (Heartbeat_GetHash C T hb) = None" "MAX_SEEN_HEARTBEATS \<le> length (m_seen_heartbeats m)"
    using run unfolding ProcessHeartbeat_cases [OF hb_invD(1,4) [OF hb]] Let_def
    by (cases "map_of (m_seen_heartbeats m) (Heartbeat_GetHash C T hb)"; simp split: if_splits option.splits)+
  then show ?thesis using hb by (simp add: node_inv_def waiting_def hb_inv_def length_om_put)
qed

lemma expectations_inv:
  assumes "0 < nHeartbeatInterval p" and inv: "node_inv p n" and m: "g_heartbeat_manager n = Some m"
    and tm: "UpdateHeartbeatExpectations h (m_trust_manager m) = Some tm"
  shows "node_inv p (n\<lparr>g_heartbeat_manager := Some (m\<lparr>m_trust_manager := tm\<rparr>)\<rparr>)"
proof -
  have "n\<lparr>g_heartbeat_manager := Some (m\<lparr>m_trust_manager := tm\<rparr>)\<rparr> =
      with_manager (on_trust (\<lambda>tm. the (UpdateHeartbeatExpectations h tm))) n"
    using m tm by (simp add: with_manager_def on_trust_def)
  then show ?thesis using on_trust_node [OF inv UpdateHeartbeatExpectations_safe(1) [OF assms(1)]] by simp
qed

lemma OnNewBlock_waits: "cs_heartbeat m \<Longrightarrow> OnNewBlock h m = None"
  by (auto simp: OnNewBlock_def ShouldBroadcastHeartbeat_def LOCK_const_def Let_def split: bind_splits)

lemma node_step_inv:
  assumes "node_step C T n n'" and "0 < nHeartbeatInterval p" and inv: "node_inv p n"
  shows "node_inv p n'"
  using assms(1)
proof cases
  case (message ty bs r)
  then show ?thesis using message_inv inv by blast
next
  case (message_waits bs hb rest m)
  then show ?thesis using message_waits_inv [OF inv] by blast
next
  case (block m h m')
  then have "\<not> cs_heartbeat m" using OnNewBlock_waits by fastforce
  from OnNewBlock_inv [OF assms(2) node_inv_free [OF inv block(2) this], of h] block show ?thesis
    by (cases n) (auto intro: node_invI)
next
  case (broadcast now h hash)
  then show ?thesis by (rule on_manager_inv [OF _ inv]) (auto intro: BroadcastHeartbeat_inv simp: BroadcastHeartbeat_def lock_waits)
next
  case (set_key key)
  then show ?thesis by (rule on_manager_inv [OF _ inv]) (auto intro: SetValidatorKey_inv simp: SetValidatorKey_def lock_waits)
next
  case (set_connman c)
  show ?thesis unfolding set_connman by (rule with_manager_inv [OF inv]) (auto simp: SetConnman_def hb_inv_def)
next
  case (trust f)
  then show ?thesis using on_trust_node [OF inv trust_call_safe] by simp
next
  case (expectations m h tm)
  then show ?thesis using expectations_inv [OF assms(2) inv] by blast
next
  case (address m ts k a b tm g)
  have swap: "hold_heartbeat False (m\<lparr>m_trust_manager := tm\<rparr>) = (hold_heartbeat False m)\<lparr>m_trust_manager := tm\<rparr>"
    by (cases m) simp
  have "hb_inv p (hold_heartbeat False (m\<lparr>m_trust_manager := tm\<rparr>), g)"
    unfolding swap by (rule address_inv [OF _ address(3), of _ _ "g_peer_discovery n" k a b]) (use inv address in \<open>simp_all add: node_inv_def\<close>)
  then show ?thesis using inv address by (simp add: node_inv_def)
next
  case (peers pd pd')
  with inv peer_call_keeps [OF peers(3)] show ?thesis by (auto simp: node_inv_def hb_inv_def split: option.splits)
next
  case (peers_stopped w written g)
  then have "g = None" by (auto simp: ShutdownPeerDiscovery_def Option.bind_eq_Some_conv split: option.splits)
  with inv peers_stopped show ?thesis by (auto simp: node_inv_def hb_inv_def split: option.splits)
qed

lemma trust_step_inv:
  assumes "trust_step C T n n'" and "0 < nHeartbeatInterval p" and inv: "node_inv p n"
  shows "node_inv p n'"
  using assms(1)
proof cases
  case running
  then show ?thesis using node_step_inv assms(2) inv by blast
next
  case cleanup
  then show ?thesis
    by (rule on_manager_inv [OF _ inv]) (auto intro: CleanupSeenHeartbeats_inv simp: CleanupSeenHeartbeats_def lock_waits)
next
  case (restart m)
  from node_inv_free [OF inv restart(2,3)] restart show ?thesis
    by (simp add: node_inv_def InitHeartbeatManager_def HeartbeatManager_new_def hb_inv_def)
next
  case shutdown
  with inv show ?thesis by (auto simp: node_inv_def ShutdownHeartbeatManager_def hb_inv_def split: option.splits)
qed

lemma trust_steps_inv:
  assumes "(trust_step C T)\<^sup>*\<^sup>* n n'" and "0 < nHeartbeatInterval p" and "node_inv p n"
  shows "node_inv p n'"
  using assms(1,3) by induction (auto intro: trust_step_inv assms(2))

text \<open>
  C36. A node that started with an empty trust manager, with or without peer discovery, keeps its
  invariant over every sequence of messages with arbitrary bytes, blocks, broadcasts, local calls,
  clean-ups, restarts and the shutdown of the heartbeat manager, heartbeats whose call never returns
  included. Every validator is stored under its own id, an active one has the minimum stake, fees are at
  most 100 percent, and every number is in the range of its type. The mutex of the peer discovery is
  free. The mutex of the manager is held only if more than ten thousand hashes are stored; a new block is
  processed exactly if it is free. Every address the trust manager reports for a validator is a known peer.
\<close>

theorem trust_node_invariant:
  assumes "0 < nHeartbeatInterval p"
    and "\<And>pd. g = Some pd \<Longrightarrow> InitPeerDiscovery T dir files = Some pd"
    and "(trust_step C T)\<^sup>*\<^sup>* (InitHeartbeatManager (TrustScoreManager_new p) p
      \<lparr>g_heartbeat_manager = None, g_peer_discovery = g\<rparr>) n"
  shows "pred_option pd_inv (g_peer_discovery n) \<and>
    pred_option (\<lambda>m. m_consensus_params m = p \<and> tsm_inv p (m_trust_manager m) \<and>
      (cs_heartbeat m \<longrightarrow> MAX_SEEN_HEARTBEATS < length (m_seen_heartbeats m)) \<and>
      (\<forall>height. (\<exists>m'. OnNewBlock height m = Some m') \<longleftrightarrow> \<not> cs_heartbeat m) \<and>
      (\<forall>a \<in> set (GetValidatorAddresses (m_trust_manager m)).
         pred_option (\<lambda>pd. IsKnownPeer a pd = Some True) (g_peer_discovery n))) (g_heartbeat_manager n)"
proof -
  have "pd_inv pd" if "g = Some pd" for pd
    using assms(2) [OF that] LoadPeersFromConfig_keeps
    by (force simp: InitPeerDiscovery_def SetConfigPath_def LOCK_def PeerDiscoveryManager_new_def pd_inv_def
        Option.bind_eq_Some_conv)
  then have "node_inv p (InitHeartbeatManager (TrustScoreManager_new p) p
      \<lparr>g_heartbeat_manager = None, g_peer_discovery = g\<rparr>)"
    by (cases g) (simp_all add: node_inv_def hb_inv_def InitHeartbeatManager_def HeartbeatManager_new_def
        TrustScoreManager_new_def tsm_inv_def addresses_known_def)
  note inv = trust_steps_inv [OF assms(3,1) this]
  show ?thesis
  proof (cases "g_heartbeat_manager n")
    case None
    then show ?thesis using inv by (simp add: node_inv_def)
  next
    case (Some m)
    have data: "hb_inv p (hold_heartbeat False m, g_peer_discovery n)"
      and full: "cs_heartbeat m \<longrightarrow> MAX_SEEN_HEARTBEATS < length (m_seen_heartbeats m)"
      using inv Some by (simp_all add: node_inv_def)
    have "(\<exists>m'. OnNewBlock height m = Some m') \<longleftrightarrow> \<not> cs_heartbeat m" for height
      using OnNewBlock_waits [of m height] OnNewBlock_inv [OF assms(1) node_inv_free [OF inv Some], of height] by auto
    moreover have "pred_option (\<lambda>pd. IsKnownPeer a pd = Some True) (g_peer_discovery n)"
      if "a \<in> set (GetValidatorAddresses (m_trust_manager m))" for a
      using that data tsm_invD(2) [OF hb_invD(3) [OF data]]
      by (cases "g_peer_discovery n") (auto simp: GetValidatorAddresses_def hb_inv_def addresses_known_def pd_inv_def
          IsKnownPeer_def LOCK_const_def om_in_set)
    ultimately show ?thesis using Some full data by (simp add: hb_inv_def)
  qed
qed

definition sample_start :: TrustNode where
  "sample_start = InitHeartbeatManager (TrustScoreManager_new CMainParams) CMainParams
     \<lparr>g_heartbeat_manager = None, g_peer_discovery = None\<rparr>"

theorem trust_node_invariant_witness:
  "\<exists>m n. (trust_step toy_crypto no_names)\<^sup>*\<^sup>* sample_start n \<and> g_heartbeat_manager n = Some m \<and>
     m_connman m = Some sample_conn \<and> m_validator_key m = Some [3] \<and> (\<exists>m'. OnNewBlock 600 m = Some m')"
proof -
  let ?n = "with_manager (SetConnman (Some sample_conn)) sample_start"
  let ?m = "\<lambda>k v. (HeartbeatManager_new (TrustScoreManager_new CMainParams) CMainParams)\<lparr>m_validator_key := k,
    m_is_validator := v, m_connman := Some sample_conn\<rparr>"
  let ?n' = "\<lparr>g_heartbeat_manager = Some (?m (Some [3]) True), g_peer_discovery = None\<rparr>"
  have "on_manager (SetValidatorKey [3]) ?n = Some ?n'"
    by (simp add: on_manager_def SetValidatorKey_def LOCK_def with_manager_def SetConnman_def sample_start_def
        InitHeartbeatManager_def HeartbeatManager_new_def)
  then have "trust_step toy_crypto no_names ?n ?n'" by (intro trust_step.running node_step.set_key)
  moreover have "trust_step toy_crypto no_names sample_start ?n" by (intro trust_step.running node_step.set_connman)
  ultimately have steps: "(trust_step toy_crypto no_names)\<^sup>*\<^sup>* sample_start ?n'"
    by (blast intro: rtranclp.intros)
  have "\<forall>height. (\<exists>m'. OnNewBlock height (?m (Some [3]) True) = Some m') \<longleftrightarrow> \<not> cs_heartbeat (?m (Some [3]) True)"
    using trust_node_invariant [of CMainParams None no_names "[]" "\<lambda>_. None" toy_crypto ?n'] steps
    by (simp add: sample_start_def CMainParams_def)
  moreover have "\<not> cs_heartbeat (?m (Some [3]) True)" by (simp add: HeartbeatManager_new_def)
  ultimately have "\<exists>m'. OnNewBlock 600 (?m (Some [3]) True) = Some m'" by blast
  moreover have "g_heartbeat_manager ?n' = Some (?m (Some [3]) True)" "m_connman (?m (Some [3]) True) = Some sample_conn"
    "m_validator_key (?m (Some [3]) True) = Some [3]" by simp_all
  ultimately show ?thesis using steps by blast
qed

section \<open>Replays\<close>

definition has_seen :: "uint256 \<Rightarrow> TrustNode \<Rightarrow> bool" where
  "has_seen h n \<longleftrightarrow> (\<exists>m. g_heartbeat_manager n = Some m \<and> map_of (m_seen_heartbeats m) h \<noteq> None)"

lemma ProcessHeartbeat_sees:
  assumes inv: "hb_inv p (m, g)" and run: "ProcessHeartbeat C T hb (m, g) = Some (r, m', g')"
  shows "map_of (m_seen_heartbeats m') = (map_of (m_seen_heartbeats m))(Heartbeat_GetHash C T hb \<mapsto> ())"
  using run unfolding ProcessHeartbeat_cases [OF hb_invD(1,4) [OF inv]] Let_def
  by (auto simp: store fun_eq_iff split: if_splits option.splits)

lemma with_manager_seen: "(\<And>m. m_seen_heartbeats (f m) = m_seen_heartbeats m) \<Longrightarrow> has_seen h (with_manager f n) = has_seen h n"
  by (auto simp: has_seen_def with_manager_def)

lemma on_manager_seen:
  assumes "on_manager f n = Some n'" and "node_inv p n" and "has_seen h n"
    and "\<And>m g r m' g'. hb_inv p (m, g) \<Longrightarrow> f (m, g) = Some (r, m', g') \<Longrightarrow>
      map_of (m_seen_heartbeats m) h \<noteq> None \<Longrightarrow> map_of (m_seen_heartbeats m') h \<noteq> None"
    and "\<And>m g. cs_heartbeat m \<Longrightarrow> f (m, g) = None"
  shows "has_seen h n'"
proof -
  obtain m where m: "g_heartbeat_manager n = Some m" "map_of (m_seen_heartbeats m) h \<noteq> None"
    using assms(3) by (auto simp: has_seen_def)
  then obtain r m' g' where run: "f (m, g_peer_discovery n) = Some (r, m', g')" and n': "g_heartbeat_manager n' = Some m'"
    using assms(1) by (auto simp: on_manager_def Option.bind_eq_Some_conv)
  then have "\<not> cs_heartbeat m" using assms(5) by fastforce
  from assms(4) [OF node_inv_free [OF assms(2) m(1) this] run m(2)] show ?thesis by (simp add: has_seen_def n')
qed

lemma message_seen:
  assumes "ProcessTrustMessage C T msg_type vRecv n = Some (r, n')" and inv: "node_inv p n" and seen: "has_seen h n"
  shows "has_seen h n'"
proof -
  have "has_seen h n'" if "on_heartbeat C T vRecv n = Some (r, n')"
    using that seen
    by (auto simp: on_heartbeat_def ProcessHeartbeat_sees split: sum.splits elim!: on_manager_seen [OF _ inv seen])
      (simp add: ProcessHeartbeat_def lock_waits)
  moreover have "has_seen h (snd (on_validators T vRecv n))" "has_seen h (snd (on_regvalidator C vRecv n))"
    using seen
    by (simp_all add: on_validators_def on_regvalidator_def with_manager_seen ProcessValidatorList_def
        ProcessValidatorRegistration_def split: sum.splits prod.splits)
  ultimately show ?thesis
    using assms(1) seen by (auto simp: ProcessTrustMessage_def on_getvalidators_def split: if_splits)
qed

lemma node_step_seen:
  assumes "node_step C T n n'" and inv: "node_inv p n" and seen: "has_seen h n"
  shows "has_seen h n'"
  using assms(1)
proof cases
  case (message ty bs r)
  then show ?thesis using message_seen inv seen by blast
next
  case (block m h' m')
  then have "m_seen_heartbeats m' = m_seen_heartbeats m" by (auto simp: OnNewBlock_def Let_def Option.bind_eq_Some_conv)
  with block seen show ?thesis by (auto simp: has_seen_def)
next
  case (broadcast now h' hash)
  then show ?thesis
    by (rule on_manager_seen [OF _ inv seen])
      (auto simp: BroadcastHeartbeat_def LOCK_def Option.bind_eq_Some_conv store
        split: option.splits if_splits prod.splits bool.splits)
next
  case (set_key key)
  then show ?thesis
    by (rule on_manager_seen [OF _ inv seen]) (auto simp: SetValidatorKey_def LOCK_def split: if_splits)
qed (use seen in \<open>auto simp: has_seen_def with_manager_def SetConnman_def on_trust_def waiting_def store\<close>)

lemma node_steps_seen:
  assumes "(node_step C T)\<^sup>*\<^sup>* n n'" and "0 < nHeartbeatInterval p" and "node_inv p n" and "has_seen h n"
  shows "node_inv p n' \<and> has_seen h n'"
  using assms(1,3,4) by induction (auto intro: node_step_inv node_step_seen assms(2))

text \<open>
  C38. A running node processes a heartbeat at most once. After its message was handled, with whatever
  result, and after any further messages, blocks and calls other than a clean-up of the stored hashes, a
  restart or the shutdown of the manager, every message with the same signed fields, under any signature,
  is handled and leaves the node as it is, or waits for the mutex if that is held.
\<close>

theorem heartbeat_processed_once:
  assumes "0 < nHeartbeatInterval p" and "trust_inv p n0"
    and "unser_Heartbeat T Heartbeat_new bs = Inr (hb, rest)" and "ProcessTrustMessage C T ''heartbeat'' bs n0 = Some (r, n1)"
    and "(node_step C T)\<^sup>*\<^sup>* n1 n"
    and "unser_Heartbeat T Heartbeat_new bs' = Inr (hb', rest')" and "Heartbeat_preimage T hb' = Heartbeat_preimage T hb"
  shows "\<exists>m. g_heartbeat_manager n = Some m \<and>
    ProcessTrustMessage C T ''heartbeat'' bs' n = (if cs_heartbeat m then None else Some (Inr [], n))"
proof -
  let ?h = "Heartbeat_GetHash C T hb"
  have hash: "Heartbeat_GetHash C T hb' = ?h" using assms(7) by (simp add: Heartbeat_GetHash_def)
  from assms(2-4) obtain m g m' g' b where "hb_inv p (m, g)" "ProcessHeartbeat C T hb (m, g) = Some (b, m', g')"
    "g_heartbeat_manager n1 = Some m'"
    by (auto simp: ProcessTrustMessage_def on_heartbeat_def on_manager_def trust_inv_def Option.bind_eq_Some_conv)
  then have "has_seen ?h n1" by (simp add: has_seen_def ProcessHeartbeat_sees)
  with message_inv [OF assms(4) trust_inv_node [OF assms(2)]]
  have inv: "node_inv p n" and "has_seen ?h n" using node_steps_seen [OF assms(5,1)] by blast+
  then obtain m where m: "g_heartbeat_manager n = Some m" "map_of (m_seen_heartbeats m) ?h \<noteq> None"
    by (auto simp: has_seen_def)
  have "ProcessHeartbeat C T hb' (m, g_peer_discovery n) =
      (if cs_heartbeat m then None else Some (False, m, g_peer_discovery n))"
  proof (cases "cs_heartbeat m")
    case False
    then show ?thesis
      using ProcessHeartbeat_cases [OF hb_invD(1,4) [OF node_inv_free [OF inv m(1) False]], of C T hb'] m(2) hash by simp
  qed (simp add: ProcessHeartbeat_def lock_waits)
  then show ?thesis
    using assms(6) m(1) by (simp add: ProcessTrustMessage_def on_heartbeat_def on_manager_def)
qed

text \<open>A heartbeat read back from its bytes; the address is what the parser makes of its text.\<close>

lemma unser_Heartbeat_back:
  assumes "fits 32 (hb_blockHeight h)" and "fits 64 (hb_timestamp h)" and "hb_nodePort h < 2 ^ 16"
    and "length (ToStringAddrPort T (hb_nodeAddress h)) \<le> MAX_SIZE" and "length (hb_signature h) \<le> MAX_SIZE"
  shows "unser_Heartbeat T old (ser_Heartbeat T h @ r) =
    Inr (h\<lparr>hb_nodeAddress := parse_address T (ToStringAddrPort T (hb_nodeAddress h)) (hb_nodeAddress old)\<rparr>, r)"
  using assms by (simp add: unser_Heartbeat_def ser_Heartbeat_def rd_bind_def rd_ret_def read_backs [simplified])

definition sample_node :: TrustNode where
  "sample_node = \<lparr>g_heartbeat_manager = Some sample_manager, g_peer_discovery = None\<rparr>"

lemma sample_node_inv: "trust_inv CMainParams sample_node"
  by (simp add: trust_inv_def sample_node_def hb_inv_def sample_manager_simps sample_trust_def
      TrustScoreManager_new_def tsm_inv_def om_wf_def info_ok_def sample_info_def ValidatorInfo_new_def fits_def
      CMainParams_def COIN_def)

definition sample_bytes :: "byte list \<Rightarrow> byte list" where
  "sample_bytes sig = ser_Heartbeat no_names (sample_heartbeat\<lparr>hb_signature := sig\<rparr>)"

lemma sample_text: "ToStringAddrPort no_names (ipv4 10 0 0 1 18888) = ''10.0.0.1:18888''"
  by (simp add: ToStringAddrPort_def ToStringAddr_def IPv4ToString_def IsIPv4_def ipv4_def CNetAddr.truncate_def Let_def
      digits.simps)

lemma sample_lookup: "LookupNumeric no_names t d = CService_new"
  by (simp add: no_names_def)

lemma sample_bytes_back:
  "length sig < 100 \<Longrightarrow> unser_Heartbeat no_names Heartbeat_new (sample_bytes sig) =
     Inr (sample_heartbeat\<lparr>hb_nodeAddress := CService_new, hb_signature := sig\<rparr>, [])"
  using unser_Heartbeat_back [of "sample_heartbeat\<lparr>hb_signature := sig\<rparr>" no_names Heartbeat_new "[]"]
  by (simp add: sample_bytes_def sample_heartbeat_def Heartbeat_new_def fits_def sample_text MAX_SIZE_def
      parse_address_def sample_lookup)

theorem heartbeat_processed_once_witness:
  "\<exists>n. ProcessTrustMessage const_crypto no_names ''heartbeat'' (sample_bytes [1]) sample_node = Some (Inr [], n) \<and>
     n \<noteq> sample_node \<and>
     ProcessTrustMessage const_crypto no_names ''heartbeat'' (sample_bytes [2]) n = Some (Inr [], n)"
proof -
  let ?hb = "sample_heartbeat\<lparr>hb_nodeAddress := CService_new, hb_signature := [1]\<rparr>"
  have hash: "Heartbeat_GetHash const_crypto no_names ?hb = 20000" by (simp add: Heartbeat_GetHash_def const_crypto_def)
  obtain m' g' where run: "ProcessHeartbeat const_crypto no_names ?hb (sample_manager, None) = Some (True, m', g')"
    and new: "m_seen_heartbeats m' \<noteq> m_seen_heartbeats sample_manager"
    using ProcessHeartbeat_cases [of sample_manager None const_crypto no_names ?hb]
    by (auto simp: hash sample_admitted sample_manager_simps peers_free_def MAX_SEEN_HEARTBEATS_def Let_def)
  let ?n = "\<lparr>g_heartbeat_manager = Some m', g_peer_discovery = g'\<rparr>"
  have one: "ProcessTrustMessage const_crypto no_names ''heartbeat'' (sample_bytes [1]) sample_node = Some (Inr [], ?n)"
    using run by (simp add: ProcessTrustMessage_def on_heartbeat_def sample_bytes_back on_manager_def sample_node_def)
  have free: "\<not> cs_heartbeat m'"
    using ProcessHeartbeat_inv [OF _ _ _ run, of CMainParams] sample_node_inv hb_invD(1)
    by (fastforce simp: trust_inv_def sample_node_def sample_heartbeat_def Heartbeat_new_def fits_def)
  have "\<exists>m. g_heartbeat_manager ?n = Some m \<and>
      ProcessTrustMessage const_crypto no_names ''heartbeat'' (sample_bytes [2]) ?n = (if cs_heartbeat m then None else Some (Inr [], ?n))"
    by (rule heartbeat_processed_once [OF _ sample_node_inv sample_bytes_back one rtranclp.rtrancl_refl sample_bytes_back])
      (simp_all add: CMainParams_def Heartbeat_preimage_def)
  with free have "ProcessTrustMessage const_crypto no_names ''heartbeat'' (sample_bytes [2]) ?n = Some (Inr [], ?n)" by simp
  with one new show ?thesis by (auto simp: sample_node_def)
qed

text \<open>
  A node remembers the heartbeats it broadcasts as seen and does not hand them to its trust manager, so
  that its own heartbeat coming back is refused: the node never counts the heartbeats of its own validator.
\<close>

lemma own_heartbeat_not_counted:
  assumes "\<not> cs_heartbeat m" and "peers_free g" and "m_validator_key m = Some key"
    and "BroadcastHeartbeat C T now height hash (m, g) = Some (True, m', g')"
  shows "m_trust_manager m' = m_trust_manager m \<and>
    ProcessHeartbeat C T ((own_heartbeat C now key height hash)\<lparr>hb_signature := sig\<rparr>) (m', g') = Some (False, m', g')"
proof -
  let ?hb = "own_heartbeat C now key height hash"
  have hash: "Heartbeat_GetHash C T (?hb\<lparr>hb_signature := s\<rparr>) = Heartbeat_GetHash C T ?hb" for s
    by (simp add: Heartbeat_GetHash_def Heartbeat_preimage_def)
  from assms have m': "m' = m\<lparr>m_seen_heartbeats := om_put (Heartbeat_GetHash C T ?hb) () (m_seen_heartbeats m),
      m_last_heartbeat_height := height\<rparr>" and g': "g' = g"
    by (cases m; auto simp: BroadcastHeartbeat_def LOCK_def Heartbeat_Sign_def hash split: option.splits if_splits)+
  show ?thesis
    using ProcessHeartbeat_cases [of m' g' C T "?hb\<lparr>hb_signature := sig\<rparr>"] assms(1,2)
    by (simp add: m' g' hash store Let_def)
qed

section \<open>Registrations\<close>

definition registration_fields :: "ValidatorRegistration \<Rightarrow> CPubKey \<times> int \<times> int \<times> int" where
  "registration_fields r = (vr_validatorPubKey r, vr_stakeAmount r, vr_poolFeeRate r, vr_registrationHeight r)"

definition ser_registration_fields :: "CPubKey \<times> int \<times> int \<times> int \<Rightarrow> byte list" where
  "ser_registration_fields = (\<lambda>(k, s, f, h). ser_pubkey k @ ser_int 8 s @ ser_int 8 f @ ser_int 4 h)"

definition unser_registration_fields :: "(CPubKey \<times> int \<times> int \<times> int) reader" where
  "unser_registration_fields =
     rd_bind unser_pubkey (\<lambda>k. rd_bind (unser_int 8) (\<lambda>s. rd_bind (unser_int 8) (\<lambda>f.
     rd_bind (unser_int 4) (\<lambda>h. rd_ret (k, s, f, h)))))"

definition registration_fields_ok :: "CPubKey \<times> int \<times> int \<times> int \<Rightarrow> bool" where
  "registration_fields_ok = (\<lambda>(k, s, f, h). CPubKey_ok k \<and> fits 64 s \<and> fits 64 f \<and> fits 32 h)"

interpretation regmsg: signed_message ser_registration_fields unser_registration_fields registration_fields_ok
    registration_fields ValidatorRegistration_preimage
  by unfold_locales
    (auto simp: ser_registration_fields_def unser_registration_fields_def registration_fields_ok_def rd_bind_def
      rd_ret_def read_backs [simplified] pubk.read_back registration_fields_def ValidatorRegistration_preimage_def)

definition registration_typed :: "ValidatorRegistration \<Rightarrow> bool" where
  "registration_typed r \<longleftrightarrow> registration_fields_ok (registration_fields r) \<and> length (vr_signature r) \<le> MAX_SIZE"

interpretation regwire: codec ser_ValidatorRegistration unser_ValidatorRegistration registration_typed
  by unfold_locales
    (auto simp: ser_ValidatorRegistration_def unser_ValidatorRegistration_def registration_typed_def
      registration_fields_ok_def registration_fields_def rd_bind_def rd_ret_def read_backs [simplified] pubk.read_back)

lemma CreateRegistration_signs:
  assumes "CreateRegistration C stake fee height old m = Some (True, reg)"
  obtains key where "registration_fields reg = (CKey_GetPubKey C key, stake, fee, height)"
    and "CKey_Sign C key (ValidatorRegistration_GetHash C reg) = Some (vr_signature reg)"
    and "GetValidatorId C m = Some (CPubKey_GetID C (CKey_GetPubKey C key))"
  using assms
  by (auto simp: CreateRegistration_def LOCK_const_def ValidatorRegistration_Sign_def registration_fields_def
      GetValidatorId_def ValidatorRegistration_GetHash_def ValidatorRegistration_preimage_def
      split: option.splits if_splits)

text \<open>
  C39. A registration a validator creates reaches its peers. It verifies, and its message makes a peer
  register the validator under the id of its key with the announced values, active and with no
  heartbeats, exactly if the stake reaches the minimum, the fee is at most 100 percent and the
  validator is not registered; otherwise the peer's validators do not change. The signature commits to
  all announced values: a message in the range of its types that hashes the same bytes announces the same.
\<close>

theorem registration_reaches_peers:
  assumes "sign_correct C" and "CreateRegistration C stake fee height old m = Some (True, reg)"
    and "registration_typed reg" and "trust_inv p n"
  shows "\<exists>k m' n'. GetValidatorId C m = Some k \<and> ValidatorRegistration_Verify C reg \<and>
    ProcessTrustMessage C T ''regvalidator'' (ser_ValidatorRegistration reg) n = Some (Inr [], n') \<and>
    g_heartbeat_manager n = Some m' \<and>
    g_heartbeat_manager n' = Some (m'\<lparr>m_trust_manager :=
      (if may_register k stake fee (m_trust_manager m')
       then put_info k (registered k stake fee height) (m_trust_manager m') else m_trust_manager m')\<rparr>) \<and>
    (\<forall>reg'. registration_typed reg' \<longrightarrow> ValidatorRegistration_preimage reg' = ValidatorRegistration_preimage reg \<longrightarrow>
       registration_fields reg' = registration_fields reg)"
proof -
  from assms(2) obtain key where fields: "registration_fields reg = (CKey_GetPubKey C key, stake, fee, height)"
    and sig: "CKey_Sign C key (ValidatorRegistration_GetHash C reg) = Some (vr_signature reg)"
    and k: "GetValidatorId C m = Some (CPubKey_GetID C (CKey_GetPubKey C key))"
    by (rule CreateRegistration_signs)
  have ver: "ValidatorRegistration_Verify C reg"
    using assms(1) sig fields by (simp add: sign_correct_def ValidatorRegistration_Verify_def registration_fields_def)
  from assms(4) obtain m' where m': "g_heartbeat_manager n = Some m'" and inv: "hb_inv p (m', g_peer_discovery n)"
    by (auto simp: trust_inv_def)
  have params: "m_consensus_params m' = tsm_params (m_trust_manager m')"
    using hb_invD(2) [OF inv] tsm_invD(1) [OF hb_invD(3) [OF inv]] by simp
  let ?k = "CPubKey_GetID C (CKey_GetPubKey C key)"
  let ?m = "m'\<lparr>m_trust_manager := (if may_register ?k stake fee (m_trust_manager m')
    then put_info ?k (registered ?k stake fee height) (m_trust_manager m') else m_trust_manager m')\<rparr>"
  have "snd (ProcessValidatorRegistration C reg m') = ?m"
    using ver fields params
    by (simp add: ProcessValidatorRegistration_def TSM_RegisterValidator_decides registration_fields_def may_register_def)
  then have "ProcessTrustMessage C T ''regvalidator'' (ser_ValidatorRegistration reg) n =
      Some (Inr [], n\<lparr>g_heartbeat_manager := Some ?m\<rparr>)"
    using m' regwire.read_all [OF assms(3)]
    by (simp add: ProcessTrustMessage_def on_regvalidator_def with_manager_def)
  moreover have "registration_fields reg' = registration_fields reg"
    if "registration_typed reg'" "ValidatorRegistration_preimage reg' = ValidatorRegistration_preimage reg" for reg'
    using regmsg.preimage_binds that assms(3) unfolding registration_typed_def by blast
  ultimately show ?thesis
    using k ver m' by (intro exI [of _ ?k] exI [of _ m'] exI [of _ "n\<lparr>g_heartbeat_manager := Some ?m\<rparr>"] conjI allI impI) simp_all
qed
definition sample_signer :: HeartbeatManager where
  "sample_signer = (HeartbeatManager_new (TrustScoreManager_new CMainParams) CMainParams)\<lparr>
     m_validator_key := Some (2 # replicate 32 1), m_is_validator := True\<rparr>"

lemma sample_start_inv: "trust_inv CMainParams sample_start"
  by (simp add: sample_start_def trust_inv_def hb_inv_def InitHeartbeatManager_def HeartbeatManager_new_def
      TrustScoreManager_new_def tsm_inv_def)

theorem registration_reaches_peers_witness:
  "\<exists>k reg n' m. CreateRegistration toy_crypto (100000 * COIN) 100 5 ValidatorRegistration_new sample_signer = Some (True, reg) \<and>
     GetValidatorId toy_crypto sample_signer = Some k \<and>
     ProcessTrustMessage toy_crypto no_names ''regvalidator'' (ser_ValidatorRegistration reg) sample_start = Some (Inr [], n') \<and>
     g_heartbeat_manager n' = Some m \<and>
     TSM_GetValidator k (m_trust_manager m) = Some (registered k (100000 * COIN) 100 5)"
proof -
  obtain reg where reg: "CreateRegistration toy_crypto (100000 * COIN) 100 5 ValidatorRegistration_new sample_signer = Some (True, reg)"
    and typed: "registration_typed reg"
    by (simp add: CreateRegistration_def LOCK_const_def sample_signer_def HeartbeatManager_new_def
        ValidatorRegistration_Sign_def toy_crypto_def registration_typed_def registration_fields_ok_def
        registration_fields_def ValidatorRegistration_new_def CPubKey_ok_def CPubKey_GetLen_def fits_def COIN_def MAX_SIZE_def)
  have start: "g_heartbeat_manager sample_start = Some (HeartbeatManager_new (TrustScoreManager_new CMainParams) CMainParams)"
    by (simp add: sample_start_def InitHeartbeatManager_def)
  have may: "may_register k (100000 * COIN) 100 (TrustScoreManager_new CMainParams)" for k
    by (simp add: may_register_def TrustScoreManager_new_def CMainParams_def)
  from registration_reaches_peers [OF toy_sign_correct reg typed sample_start_inv, of no_names] reg start may
  show ?thesis by (fastforce simp: HeartbeatManager_new_def TSM_GetValidator_def put_info_def store)
qed

section \<open>Exchange of validator lists\<close>









end
