(* ===== verification/BlstTypes.thy ===== *)
theory BlstTypes
  imports Serial
begin

text \<open>
  The values the blst bindings exchange with JavaScript (blst/bindings/node.js/blst.hpp.ts,
  blst/bindings/blst.swg): strings as UTF-16 code units and the bytes they are passed as, byte
  arrays, the \<^verbatim>\<open>scalar\<close> and \<^verbatim>\<open>binary_string\<close> unions, the error codes, and the
  ways a call ends. The helper \<^verbatim>\<open>toHexString\<close> of runnable.js and the C reader of
  hexadecimal text (blst/src/bytes.h) are here too.
\<close>

unbundle bit_operations_syntax

section \<open>Strings and byte arrays\<close>

type_synonym js_string = "16 word list"

type_synonym bytes = "byte list"

definition js :: "string \<Rightarrow> js_string" where
  "js s = map (\<lambda>c. of_nat (of_char c)) s"

definition js_repeat :: "js_string \<Rightarrow> nat \<Rightarrow> js_string" where
  "js_repeat s n = concat (replicate n s)"

text \<open>
  The UTF-8 bytes of a string: a surrogate pair is one code point of four bytes, a lone surrogate
  keeps its three bytes.
\<close>

definition utf8_tail :: "nat \<Rightarrow> byte" where
  "utf8_tail c = of_nat (0x80 + c mod 0x40)"

fun utf8 :: "js_string \<Rightarrow> bytes" where
  "utf8 [] = []"
| "utf8 (u # us) =
     (let c = unat u in
      if c < 0x80 then of_nat c # utf8 us
      else if c < 0x800 then of_nat (0xc0 + c div 0x40) # utf8_tail c # utf8 us
      else case us of
        v # vs \<Rightarrow>
          if 0xd800 \<le> c \<and> c < 0xdc00 \<and> 0xdc00 \<le> unat v \<and> unat v < 0xe000
          then let p = 0x10000 + (c - 0xd800) * 0x400 + (unat v - 0xdc00)
               in of_nat (0xf0 + p div 0x40000) # utf8_tail (p div 0x1000) # utf8_tail (p div 0x40) #
                  utf8_tail p # utf8 vs
          else of_nat (0xe0 + c div 0x1000) # utf8_tail (c div 0x40) # utf8_tail c # utf8 us
      | [] \<Rightarrow> [of_nat (0xe0 + c div 0x1000), utf8_tail (c div 0x40), utf8_tail c])"

lemma utf8_ascii:
  assumes "\<forall>c \<in> set s. (of_char c :: nat) < 128"
  shows "utf8 (js s) = map byte_of_char s"
  using assms
proof (induction s)
  case (Cons c s)
  then have "unat (of_nat (of_char c) :: 16 word) = of_char c" by (simp add: unat_of_nat)
  with Cons show ?case by (simp add: js_def byte_of_char_def)
qed (simp add: js_def)

section \<open>Unions and error codes\<close>

datatype 'sc scalar = Scalar_object 'sc | Scalar_bigint int | Scalar_bytes bytes

datatype binary_string = Text js_string | Binary bytes

datatype BLST_ERROR =
  BLST_SUCCESS | BLST_BAD_ENCODING | BLST_POINT_NOT_ON_CURVE | BLST_POINT_NOT_IN_GROUP
| BLST_AGGR_TYPE_MISMATCH | BLST_VERIFY_FAIL | BLST_PK_IS_INFINITY | BLST_BAD_SCALAR

definition BLST_ERROR_code :: "BLST_ERROR \<Rightarrow> nat" where
  "BLST_ERROR_code e = (case e of
     BLST_SUCCESS \<Rightarrow> 0 | BLST_BAD_ENCODING \<Rightarrow> 1 | BLST_POINT_NOT_ON_CURVE \<Rightarrow> 2
   | BLST_POINT_NOT_IN_GROUP \<Rightarrow> 3 | BLST_AGGR_TYPE_MISMATCH \<Rightarrow> 4 | BLST_VERIFY_FAIL \<Rightarrow> 5
   | BLST_PK_IS_INFINITY \<Rightarrow> 6 | BLST_BAD_SCALAR \<Rightarrow> 7)"

text \<open>
  How a call from JavaScript ends other than by returning: a thrown value, an \<^verbatim>\<open>Error\<close> with
  a message, an access outside an object, after which nothing is known, or not at all.
\<close>

datatype js_exn = Throw js_string | Error string | Fault | Hang

type_synonym 'a js_result = "js_exn + 'a"

definition js_bind :: "'a js_result \<Rightarrow> ('a \<Rightarrow> 'b js_result) \<Rightarrow> 'b js_result" where
  "js_bind m f = (case m of Inl e \<Rightarrow> Inl e | Inr x \<Rightarrow> f x)"

lemma js_bind_simps [simp]: "js_bind (Inl e) f = Inl e" "js_bind (Inr x) f = f x"
  by (simp_all add: js_bind_def)

text \<open>The table of messages in the SWIG interface, and the exception a C++ throw becomes.\<close>

definition BLST_ERROR_str :: "string list" where
  "BLST_ERROR_str = [''BLST_ERROR: success'', ''BLST_ERROR: bad point encoding'',
     ''BLST_ERROR: point is not on curve'', ''BLST_ERROR: point is not in group'',
     ''BLST_ERROR: context type mismatch'', ''BLST_ERROR: verify failed'',
     ''BLST_ERROR: public key is infinite'']"

definition blst_throw :: "BLST_ERROR \<Rightarrow> 'a js_result" where
  "blst_throw e =
     (let i = BLST_ERROR_code e
      in if i < length BLST_ERROR_str then Inl (Error (BLST_ERROR_str ! i)) else Inl Fault)"

text \<open>The bytes the wrapper passes for a message, and for an optional argument left out.\<close>

definition bytes_of :: "binary_string \<Rightarrow> bytes" where
  "bytes_of s = (case s of Text t \<Rightarrow> utf8 t | Binary b \<Rightarrow> b)"

definition text_or_empty :: "js_string option \<Rightarrow> bytes" where
  "text_or_empty s = (case s of None \<Rightarrow> [] | Some t \<Rightarrow> utf8 t)"

definition bytes_or_empty :: "bytes option \<Rightarrow> bytes" where
  "bytes_or_empty b = (case b of None \<Rightarrow> [] | Some x \<Rightarrow> x)"

text \<open>
  The little-endian bytes of a scalar argument. A \<^verbatim>\<open>BigInt\<close> is passed as its 64-bit words,
  of which zero has none; a negative one is refused.
\<close>

fun bigint_words :: "nat \<Rightarrow> nat" where
  "bigint_words n = (if n = 0 then 0 else Suc (bigint_words (n div 2 ^ 64)))"

declare bigint_words.simps [simp del]

definition bigint_bytes :: "int \<Rightarrow> bytes js_result" where
  "bigint_bytes i =
     (if i < 0 then Inl (Error ''expecting unsigned value'')
      else Inr (le_enc (8 * bigint_words (nat i)) (nat i)))"

lemma bigint_words_bound: "n < 2 ^ (64 * bigint_words n)"
proof (induction n rule: bigint_words.induct)
  case (1 n)
  show ?case
  proof (cases "n = 0")
    case False
    with 1 have "n div 2 ^ 64 < 2 ^ (64 * bigint_words (n div 2 ^ 64))" by simp
    then have "n < 2 ^ 64 * 2 ^ (64 * bigint_words (n div 2 ^ 64))"
      by (simp add: div_less_iff_less_mult mult.commute)
    with False show ?thesis by (subst bigint_words.simps) (simp add: power_add)
  qed simp
qed

section \<open>Hexadecimal text\<close>

definition toHexString :: "bytes \<Rightarrow> string" where
  "toHexString buffer =
     (let h = ''0123456789abcdef''
      in fold (\<lambda>v s. s @ [h ! unat (drop_bit 4 v)] @ [h ! unat (v AND 15)]) buffer '''')"

text \<open>
  The branch-free reader of one hexadecimal digit, 16 for any other character, and the loop that
  fills a little-endian buffer from the digits. A \<^verbatim>\<open>char\<close> is signed, and the shift by 31
  spreads the sign of an \<^verbatim>\<open>int\<close>.
\<close>

definition char_int :: "char \<Rightarrow> int" where
  "char_int c = wrap 8 (int (of_char c))"

definition hex_mask :: "int \<Rightarrow> int \<Rightarrow> int \<Rightarrow> int" where
  "hex_mask lo hi c = drop_bit 31 ((lo - c - 1) AND (c - 1 - hi))"

definition nibble_from_hex :: "char \<Rightarrow> nat" where
  "nibble_from_hex ch =
     (let c = char_int ch;
          a = (10 + c - 97) AND hex_mask 97 102 c;
          b = a OR ((10 + c - 65) AND hex_mask 65 70 c);
          mask = hex_mask 48 57 c;
          d = b OR ((c - 48) AND mask);
          e = d OR (16 AND drop_bit 31 ((d - 1) AND NOT mask))
      in nat (e mod 256))"

fun hex_loop :: "bytes \<Rightarrow> byte \<Rightarrow> nat \<Rightarrow> string \<Rightarrow> bytes" where
  "hex_loop ret b 0 hex = ret"
| "hex_loop ret b (Suc len) (c # hex) =
     (let b' = push_bit 4 b OR of_nat (nibble_from_hex c)
      in hex_loop (if len mod 2 = 0 then ret[len div 2 := b'] else ret) b' len hex)"
| "hex_loop ret b (Suc len) [] = ret"

definition bytes_from_hexascii :: "nat \<Rightarrow> string \<Rightarrow> bytes" where
  "bytes_from_hexascii sz hex =
     (let hex' = (case hex of x0 # x1 # rest \<Rightarrow>
                    if x0 = CHR ''0'' \<and> (x1 = CHR ''x'' \<or> x1 = CHR ''X'') then rest else hex
                  | _ \<Rightarrow> hex);
          len = length (takeWhile (\<lambda>c. nibble_from_hex c < 16) (take (2 * sz) hex'))
      in hex_loop (replicate sz 0) 0 len hex')"

section \<open>The two readings of hexadecimal text agree\<close>

lemma shift31:
  assumes "- 2147483648 \<le> z" and "z < 2147483648"
  shows "drop_bit 31 z = (if z < 0 then - 1 else (0::int))"
proof (cases "z < 0")
  case True
  have "(z + 2147483648) div 2147483648 = z div 2147483648 + 1" by simp
  moreover have "(z + 2147483648) div 2147483648 = 0"
    using assms True by (intro div_pos_pos_trivial) simp_all
  ultimately show ?thesis using True by (simp add: drop_bit_eq_div)
qed (use assms in \<open>simp add: drop_bit_eq_div\<close>)

lemma drop_bit_int_eq_0: "0 \<le> z \<Longrightarrow> z < 2147483648 \<Longrightarrow> drop_bit 31 z = (0::int)"
  by (simp add: shift31)

lemma hex_mask:
  assumes "- 256 \<le> c" "c < 256" "0 \<le> lo" "lo < 256" "0 \<le> hi" "hi < 256"
  shows "hex_mask lo hi c = (if lo \<le> c \<and> c \<le> hi then - 1 else 0)"
proof -
  let ?x = "lo - c - 1" and ?y = "c - 1 - hi"
  have "signed_take_bit 31 ?x = ?x" "signed_take_bit 31 ?y = ?y"
    using assms by (simp_all add: signed_take_bit_int_eq_self_iff)
  moreover have "signed_take_bit 31 (?x AND ?y) = signed_take_bit 31 ?x AND signed_take_bit 31 ?y"
    by (rule bit_eqI) (auto simp: bit_simps)
  ultimately have "signed_take_bit 31 (?x AND ?y) = ?x AND ?y" by simp
  then have r: "- 2147483648 \<le> ?x AND ?y" "?x AND ?y < 2147483648"
    by (simp_all add: signed_take_bit_int_eq_self_iff)
  have "?x AND ?y < 0 \<longleftrightarrow> lo \<le> c \<and> c \<le> hi" by (simp add: and_negative_int_iff; linarith)
  moreover have "drop_bit 31 (?x AND ?y) = (if ?x AND ?y < 0 then - 1 else 0)"
    by (rule shift31 [OF r])
  ultimately show ?thesis by (simp add: hex_mask_def)
qed

lemma nibble_from_hex_int:
  assumes "c = char_int ch"
  shows "nibble_from_hex ch =
    (if 48 \<le> c \<and> c \<le> 57 then nat (c - 48) else if 97 \<le> c \<and> c \<le> 102 then nat (c - 87)
     else if 65 \<le> c \<and> c \<le> 70 then nat (c - 55) else 16)"
proof -
  have c: "- 256 \<le> c" "c < 256"
    unfolding assms char_int_def wrap_def by simp_all
  note m = hex_mask [OF c, of 97 102, simplified] hex_mask [OF c, of 65 70, simplified]
    hex_mask [OF c, of 48 57, simplified]
  note d = nibble_from_hex_def assms [symmetric] Let_def
  consider "48 \<le> c" "c \<le> 57" | "65 \<le> c" "c \<le> 70" | "97 \<le> c" "c \<le> 102"
    | "(48 \<le> c \<and> c \<le> 57) = False" "(65 \<le> c \<and> c \<le> 70) = False" "(97 \<le> c \<and> c \<le> 102) = False"
    by blast
  then show ?thesis
  proof cases
    case 1
    then have "hex_mask 97 102 c = 0" "hex_mask 65 70 c = 0" "hex_mask 48 57 c = - 1" using m by simp_all
    with 1 show ?thesis unfolding d by simp
  next
    case 2
    then have "hex_mask 97 102 c = 0" "hex_mask 65 70 c = - 1" "hex_mask 48 57 c = 0" using m by simp_all
    moreover from 2 have "drop_bit 31 (c - 56) = 0" by (intro drop_bit_int_eq_0) simp_all
    ultimately show ?thesis using 2 unfolding d by simp
  next
    case 3
    then have "hex_mask 97 102 c = - 1" "hex_mask 65 70 c = 0" "hex_mask 48 57 c = 0" using m by simp_all
    moreover from 3 have "drop_bit 31 (c - 88) = 0" by (intro drop_bit_int_eq_0) simp_all
    ultimately show ?thesis using 3 unfolding d by simp
  next
    case 4
    then have "hex_mask 97 102 c = 0" "hex_mask 65 70 c = 0" "hex_mask 48 57 c = 0"
      using m by (simp_all only: if_False)
    with 4 show ?thesis unfolding d by (simp only: if_False) simp
  qed
qed

lemma nibble_from_hex_digits: "map nibble_from_hex ''0123456789abcdef'' = [0..<16]"
  by (simp add: nibble_from_hex_int [OF refl] char_int_def wrap_def upt_rec)


definition hex_pair :: "byte \<Rightarrow> string" where
  "hex_pair v = [''0123456789abcdef'' ! unat (drop_bit 4 v), ''0123456789abcdef'' ! unat (v AND 15)]"

lemma toHexString_concat: "toHexString bs = concat (map hex_pair bs)"
proof -
  have "fold (\<lambda>v s. s @ [''0123456789abcdef'' ! unat (drop_bit 4 v)] @ [''0123456789abcdef'' ! unat (v AND 15)]) bs s
     = s @ concat (map hex_pair bs)" for s
    by (induction bs arbitrary: s) (simp_all add: hex_pair_def)
  then show ?thesis by (simp add: toHexString_def)
qed

lemma length_toHexString: "length (toHexString bs) = 2 * length bs"
  unfolding toHexString_concat by (induction bs) (simp_all add: hex_pair_def)

lemma nibble_nth: "i < 16 \<Longrightarrow> nibble_from_hex (''0123456789abcdef'' ! i) = i"
  using arg_cong [OF nibble_from_hex_digits, of "\<lambda>l. l ! i"] by (simp del: map_map list.map)

lemma byte_nibbles:
  fixes v :: byte
  shows "unat (drop_bit 4 v) < 16" and "unat (v AND 15) < 16"
    and "push_bit 4 (push_bit 4 b OR of_nat (unat (drop_bit 4 v))) OR of_nat (unat (v AND 15)) = v"
proof -
  have "unat (drop_bit 4 v) = unat v div 16" 
    using unat_drop_bit_eq [of 4 v] by (simp add: drop_bit_eq_div)
  moreover have "unat v < 256" using unsigned_less [of v] by simp
  ultimately show "unat (drop_bit 4 v) < 16" by simp
  have m: "v AND 15 = take_bit 4 v" by (simp add: take_bit_eq_mask mask_eq_exp_minus_1)
  show "unat (v AND 15) < 16"
    unfolding m unsigned_take_bit_eq by (simp add: take_bit_eq_mod)
  show "push_bit 4 (push_bit 4 b OR of_nat (unat (drop_bit 4 v))) OR of_nat (unat (v AND 15)) = v"
  proof (rule bit_word_eqI)
    fix n assume "n < LENGTH(8)"
    then have n: "n < 8" by simp
    show "bit (push_bit 4 (push_bit 4 b OR of_nat (unat (drop_bit 4 v))) OR of_nat (unat (v AND 15))) n = bit v n"
      unfolding m using n by (cases "n < 4") (simp_all add: bit_or_iff bit_push_bit_iff bit_take_bit_iff bit_drop_bit_eq)
  qed
qed

lemma hex_loop_toHexString:
  assumes "length bs \<le> length ret"
  shows "hex_loop ret b (2 * length bs) (toHexString bs @ rest) = rev bs @ drop (length bs) ret"
  using assms
proof (induction bs arbitrary: ret b)
  case (Cons v bs)
  let ?h = "''0123456789abcdef''"
  have n: "nibble_from_hex (?h ! unat (drop_bit 4 v)) = unat (drop_bit 4 v)"
    "nibble_from_hex (?h ! unat (v AND 15)) = unat (v AND 15)"
    using byte_nibbles [of v] by (simp_all add: nibble_nth)
  have "hex_loop ret b (2 * length (v # bs)) (toHexString (v # bs) @ rest)
    = hex_loop (ret[length bs := v]) v (2 * length bs) (toHexString bs @ rest)"
    using byte_nibbles(3) [of b v]
    by (simp add: toHexString_concat hex_pair_def n Let_def del: of_nat_unat)
  also have "\<dots> = rev bs @ drop (length bs) (ret[length bs := v])"
    using Cons by simp
  also have "\<dots> = rev (v # bs) @ drop (length (v # bs)) ret"
    using Cons.prems by (simp add: upd_conv_take_nth_drop)
  finally show ?case .
qed (simp add: toHexString_concat)

lemma toHexString_digits: "c \<in> set (toHexString bs) \<Longrightarrow> nibble_from_hex c < 16"
  using byte_nibbles by (auto simp: toHexString_concat hex_pair_def nibble_nth)

text \<open>
  C23. The hexadecimal text that \<^verbatim>\<open>toHexString\<close> of runnable.js prints has two digits per byte. The
  constant-time reader of the C library takes it for a number and stores that least significant byte
  first, so that it gives the bytes of the buffer in reverse order.
\<close>

theorem toHexString_read_back:
  "length (toHexString bs) = 2 * length bs \<and> bytes_from_hexascii (length bs) (toHexString bs) = rev bs"
proof -
  have "nibble_from_hex (CHR ''x'') = 16" "nibble_from_hex (CHR ''X'') = 16"
    by (simp_all add: nibble_from_hex_int [OF refl] char_int_def wrap_def)
  then have x: "CHR ''x'' \<notin> set (toHexString bs)" "CHR ''X'' \<notin> set (toHexString bs)"
    using toHexString_digits [of _ bs] by force+
  have prefix: "(case toHexString bs of x0 # x1 # rest \<Rightarrow>
      if x0 = CHR ''0'' \<and> (x1 = CHR ''x'' \<or> x1 = CHR ''X'') then rest else toHexString bs
    | _ \<Rightarrow> toHexString bs) = toHexString bs"
    using x by (auto split: list.splits)
  have w: "takeWhile (\<lambda>c. nibble_from_hex c < 16) (take (2 * length bs) (toHexString bs)) = toHexString bs"
    using toHexString_digits by (simp add: takeWhile_eq_all_conv length_toHexString)
  show ?thesis
    using hex_loop_toHexString [of bs "replicate (length bs) 0" 0 "[]"]
    unfolding bytes_from_hexascii_def prefix Let_def w by (simp add: length_toHexString)
qed

end
