(* ===== verification/Sha256.thy ===== *)
theory Sha256
  imports BlstTypes
begin

text \<open>
  SHA-256 as blst has it: the compression function of the portable build (blst/src/no_asm.h) and the
  streaming interface (blst/src/sha256.h). The streaming interface takes the compression of one block
  as an argument, since the build chooses among several. The reference is the function of the
  standard: padding, the message schedule, sixty-four rounds a block.
\<close>

unbundle bit_operations_syntax

type_synonym u32 = "32 word"

section \<open>The compression function\<close>

definition ROTR :: "u32 \<Rightarrow> nat \<Rightarrow> u32" where
  "ROTR x n = drop_bit n x OR push_bit (32 - n) x"

definition Sigma0 :: "u32 \<Rightarrow> u32" where
  "Sigma0 x = ROTR x 2 XOR ROTR x 13 XOR ROTR x 22"

definition Sigma1 :: "u32 \<Rightarrow> u32" where
  "Sigma1 x = ROTR x 6 XOR ROTR x 11 XOR ROTR x 25"

definition sigma0 :: "u32 \<Rightarrow> u32" where
  "sigma0 x = ROTR x 7 XOR ROTR x 18 XOR drop_bit 3 x"

definition sigma1 :: "u32 \<Rightarrow> u32" where
  "sigma1 x = ROTR x 17 XOR ROTR x 19 XOR drop_bit 10 x"

definition Ch :: "u32 \<Rightarrow> u32 \<Rightarrow> u32 \<Rightarrow> u32" where
  "Ch x y z = (x AND y) XOR (NOT x AND z)"

definition Maj :: "u32 \<Rightarrow> u32 \<Rightarrow> u32 \<Rightarrow> u32" where
  "Maj x y z = (x AND y) XOR (x AND z) XOR (y AND z)"

definition K256 :: "u32 list" where
  "K256 = concat [
     [0x428a2f98, 0x71374491, 0xb5c0fbcf, 0xe9b5dba5],
     [0x3956c25b, 0x59f111f1, 0x923f82a4, 0xab1c5ed5],
     [0xd807aa98, 0x12835b01, 0x243185be, 0x550c7dc3],
     [0x72be5d74, 0x80deb1fe, 0x9bdc06a7, 0xc19bf174],
     [0xe49b69c1, 0xefbe4786, 0x0fc19dc6, 0x240ca1cc],
     [0x2de92c6f, 0x4a7484aa, 0x5cb0a9dc, 0x76f988da],
     [0x983e5152, 0xa831c66d, 0xb00327c8, 0xbf597fc7],
     [0xc6e00bf3, 0xd5a79147, 0x06ca6351, 0x14292967],
     [0x27b70a85, 0x2e1b2138, 0x4d2c6dfc, 0x53380d13],
     [0x650a7354, 0x766a0abb, 0x81c2c92e, 0x92722c85],
     [0xa2bfe8a1, 0xa81a664b, 0xc24b8b70, 0xc76c51a3],
     [0xd192e819, 0xd6990624, 0xf40e3585, 0x106aa070],
     [0x19a4c116, 0x1e376c08, 0x2748774c, 0x34b0bcb5],
     [0x391c0cb3, 0x4ed8aa4a, 0x5b9cca4f, 0x682e6ff3],
     [0x748f82ee, 0x78a5636f, 0x84c87814, 0x8cc70208],
     [0x90befffa, 0xa4506ceb, 0xbef9a3f7, 0xc67178f2]]"

text \<open>The eight working variables, and one round on them with a word of the schedule.\<close>

type_synonym vars = "u32 \<times> u32 \<times> u32 \<times> u32 \<times> u32 \<times> u32 \<times> u32 \<times> u32"

definition sha_round :: "u32 \<Rightarrow> u32 \<Rightarrow> vars \<Rightarrow> vars" where
  "sha_round k x v = (case v of (a, b, c, d, e, f, g, h) \<Rightarrow>
     let T1 = x + (h + Sigma1 e + Ch e f g + k); T2 = Sigma0 a + Maj a b c
     in (T1 + T2, a, b, c, d + T1, e, f, g))"

text \<open>A word of the input, most significant byte first.\<close>

definition load_word :: "bytes \<Rightarrow> nat \<Rightarrow> u32" where
  "load_word data i =
     (push_bit 24 (ucast (data ! (4 * i))) OR push_bit 16 (ucast (data ! (4 * i + 1)))) OR
     push_bit 8 (ucast (data ! (4 * i + 2))) OR ucast (data ! (4 * i + 3))"

text \<open>
  The first sixteen rounds load the block into the circular buffer, the others update it in place.
\<close>

definition sha_load_round :: "bytes \<Rightarrow> nat \<Rightarrow> u32 list \<times> vars \<Rightarrow> u32 list \<times> vars" where
  "sha_load_round data i s = (case s of (X, v) \<Rightarrow>
     let l = load_word data i in (X[i := l], sha_round (K256 ! i) l v))"

definition sha_mix_round :: "nat \<Rightarrow> u32 list \<times> vars \<Rightarrow> u32 list \<times> vars" where
  "sha_mix_round i s = (case s of (X, v) \<Rightarrow>
     let s0 = sigma0 (X ! ((i + 1) mod 16)); s1 = sigma1 (X ! ((i + 14) mod 16));
         T1 = X ! (i mod 16) + (s0 + s1 + X ! ((i + 9) mod 16))
     in (X[i mod 16 := T1], sha_round (K256 ! i) T1 v))"

definition vars_of :: "u32 list \<Rightarrow> vars" where
  "vars_of v = (v ! 0, v ! 1, v ! 2, v ! 3, v ! 4, v ! 5, v ! 6, v ! 7)"

definition add_vars :: "vars \<Rightarrow> u32 list \<Rightarrow> u32 list" where
  "add_vars w v = (case w of (a, b, c, d, e, f, g, h) \<Rightarrow>
     [a + v ! 0, b + v ! 1, c + v ! 2, d + v ! 3, e + v ! 4, f + v ! 5, g + v ! 6, h + v ! 7])"

text \<open>One pass of the loop over blocks; the sixteen words of the buffer start with whatever the stack held.\<close>

definition sha256_block :: "(nat \<Rightarrow> u32) \<Rightarrow> u32 list \<Rightarrow> bytes \<Rightarrow> u32 list" where
  "sha256_block stack v data =
     (let loaded = fold (sha_load_round data) [0..<16] (map stack [0..<16], vars_of v);
          mixed = fold sha_mix_round [16..<64] loaded
      in add_vars (snd mixed) v)"

text \<open>The loop, for any compression of one block.\<close>

fun sha256_blocks :: "(u32 list \<Rightarrow> bytes \<Rightarrow> u32 list) \<Rightarrow> u32 list \<Rightarrow> bytes \<Rightarrow> nat \<Rightarrow> u32 list" where
  "sha256_blocks blk v data 0 = v"
| "sha256_blocks blk v data (Suc n) = sha256_blocks blk (blk v (take 64 data)) (drop 64 data) n"

definition sha256_emit :: "u32 list \<Rightarrow> bytes" where
  "sha256_emit h = concat (map (\<lambda>x. [ucast (drop_bit 24 x), ucast (drop_bit 16 x), ucast (drop_bit 8 x), ucast x]) h)"

section \<open>The streaming interface\<close>

record SHA256_CTX =
  sha_h :: "u32 list"
  sha_N :: "64 word"
  sha_buf :: bytes
  sha_off :: nat

definition sha256_init_h :: "u32 list" where
  "sha256_init_h = [0x6a09e667, 0xbb67ae85, 0x3c6ef372, 0xa54ff53a, 0x510e527f, 0x9b05688c, 0x1f83d9ab, 0x5be0cd19]"

definition sha256_init :: SHA256_CTX where
  "sha256_init = \<lparr>sha_h = sha256_init_h, sha_N = 0, sha_buf = replicate 64 0, sha_off = 0\<rparr>"

definition sha256_bcopy :: "bytes \<Rightarrow> nat \<Rightarrow> bytes \<Rightarrow> bytes" where
  "sha256_bcopy dst off src = take off dst @ src @ drop (off + length src) dst"

text \<open>The part of the update after the buffer is empty: whole blocks, then the rest.\<close>

definition sha256_update_tail :: "(u32 list \<Rightarrow> bytes \<Rightarrow> u32 list) \<Rightarrow> SHA256_CTX \<Rightarrow> bytes \<Rightarrow> SHA256_CTX" where
  "sha256_update_tail blk ctx inp =
     (let n = length inp div 64;
          ctx = (if 0 < n then ctx\<lparr>sha_h := sha256_blocks blk (sha_h ctx) inp n\<rparr> else ctx);
          rest = drop (n * 64) inp
      in if rest \<noteq> [] then ctx\<lparr>sha_buf := sha256_bcopy (sha_buf ctx) 0 rest, sha_off := length rest\<rparr> else ctx)"

definition sha256_update :: "(u32 list \<Rightarrow> bytes \<Rightarrow> u32 list) \<Rightarrow> SHA256_CTX \<Rightarrow> bytes \<Rightarrow> SHA256_CTX" where
  "sha256_update blk ctx inp =
     (let ctx = ctx\<lparr>sha_N := sha_N ctx + of_nat (length inp)\<rparr>; n = sha_off ctx in
      if length inp \<noteq> 0 \<and> n \<noteq> 0 then
        let rm = 64 - n in
        if length inp < rm then
          ctx\<lparr>sha_buf := sha256_bcopy (sha_buf ctx) n inp, sha_off := n + length inp\<rparr>
        else
          let full = sha256_bcopy (sha_buf ctx) n (take rm inp)
          in sha256_update_tail blk
               (ctx\<lparr>sha_h := sha256_blocks blk (sha_h ctx) full 1, sha_buf := replicate 64 0, sha_off := 0\<rparr>) (drop rm inp)
      else sha256_update_tail blk ctx inp)"

definition TOBE32 :: "u32 \<Rightarrow> bytes" where
  "TOBE32 x = [ucast (drop_bit 24 x), ucast (drop_bit 16 x), ucast (drop_bit 8 x), ucast x]"

definition sha256_final :: "(u32 list \<Rightarrow> bytes \<Rightarrow> u32 list) \<Rightarrow> SHA256_CTX \<Rightarrow> SHA256_CTX \<times> bytes" where
  "sha256_final blk ctx =
     (let bits = sha_N ctx * 8; n = sha_off ctx;
          buf = (sha_buf ctx)[n := 0x80];
          (h, buf) = (if 64 - 8 < n + 1 then (sha256_blocks blk (sha_h ctx) buf 1, replicate 64 0) else (sha_h ctx, buf));
          buf = sha256_bcopy buf (64 - 8) (TOBE32 (ucast (drop_bit 32 bits)) @ TOBE32 (ucast bits));
          h = sha256_blocks blk h buf 1
      in (ctx\<lparr>sha_h := h, sha_buf := buf\<rparr>, sha256_emit h))"

text \<open>The digest of a message in one call.\<close>

definition blst_sha256 :: "(u32 list \<Rightarrow> bytes \<Rightarrow> u32 list) \<Rightarrow> bytes \<Rightarrow> bytes" where
  "blst_sha256 blk msg = snd (sha256_final blk (sha256_update blk sha256_init msg))"

section \<open>The reference\<close>

fun sha_W :: "bytes \<Rightarrow> nat \<Rightarrow> u32" where
  "sha_W data t =
     (if t < 16 then load_word data t
      else sigma1 (sha_W data (t - 2)) + sha_W data (t - 7) + sigma0 (sha_W data (t - 15)) + sha_W data (t - 16))"

declare sha_W.simps [simp del]

definition sha256_compress :: "u32 list \<Rightarrow> bytes \<Rightarrow> u32 list" where
  "sha256_compress v data = add_vars (fold (\<lambda>t. sha_round (K256 ! t) (sha_W data t)) [0..<64] (vars_of v)) v"

text \<open>Padding to a multiple of 64 bytes: a one bit, zeros, the length in bits.\<close>

definition sha_pad :: "nat \<Rightarrow> bytes" where
  "sha_pad n =
     (let bits = of_nat n * 8 :: 64 word
      in 0x80 # replicate (nat ((55 - int n) mod 64)) 0 @ TOBE32 (ucast (drop_bit 32 bits)) @ TOBE32 (ucast bits))"

definition sha256_spec :: "(u32 list \<Rightarrow> bytes \<Rightarrow> u32 list) \<Rightarrow> bytes \<Rightarrow> bytes" where
  "sha256_spec blk msg =
     (let padded = msg @ sha_pad (length msg)
      in sha256_emit (sha256_blocks blk sha256_init_h padded (length padded div 64)))"

section \<open>The compression function is that of the standard\<close>

definition spec_vars :: "bytes \<Rightarrow> vars \<Rightarrow> nat \<Rightarrow> vars" where
  "spec_vars data v t = fold (\<lambda>t. sha_round (K256 ! t) (sha_W data t)) [0..<t] v"

lemma spec_vars_Suc: "spec_vars data v (Suc t) = sha_round (K256 ! t) (sha_W data t) (spec_vars data v t)"
  by (simp add: spec_vars_def)

lemma spec_vars_0: "spec_vars data v 0 = v"
  by (simp add: spec_vars_def)

lemma sha_W_load: "t < 16 \<Longrightarrow> sha_W data t = load_word data t"
  by (simp add: sha_W.simps [of _ t])

lemma sha_W_mix:
  "16 \<le> t \<Longrightarrow> sha_W data t = sigma1 (sha_W data (t - 2)) + sha_W data (t - 7) + sigma0 (sha_W data (t - 15)) + sha_W data (t - 16)"
  by (simp add: sha_W.simps [of _ t])

lemma load_rounds:
  assumes "length stack = 16" "t \<le> 16"
  shows "\<exists>X. fold (sha_load_round data) [0..<t] (stack, v) = (X, spec_vars data v t) \<and>
    length X = 16 \<and> (\<forall>j<t. X ! j = sha_W data j)"
  using assms(2)
proof (induction t)
  case 0
  then show ?case by (simp add: assms spec_vars_0)
next
  case (Suc t)
  then obtain X where X: "fold (sha_load_round data) [0..<t] (stack, v) = (X, spec_vars data v t)"
      "length X = 16" "\<forall>j<t. X ! j = sha_W data j" by auto
  have "sha_load_round data t (X, spec_vars data v t) = (X[t := sha_W data t], spec_vars data v (Suc t))"
    using Suc.prems by (simp add: sha_load_round_def Let_def sha_W_load spec_vars_Suc)
  then have "fold (sha_load_round data) [0..<Suc t] (stack, v) = (X[t := sha_W data t], spec_vars data v (Suc t))"
    using X(1) by simp
  moreover have "\<forall>j<Suc t. X[t := sha_W data t] ! j = sha_W data j"
    using X(2,3) Suc.prems by (auto simp: nth_list_update less_Suc_eq)
  ultimately show ?case using X(2) by auto
qed

text \<open>The circular buffer holds the last sixteen words of the schedule.\<close>

definition sha_window :: "bytes \<Rightarrow> nat \<Rightarrow> u32 list \<Rightarrow> bool" where
  "sha_window data t X \<longleftrightarrow> length X = 16 \<and> (\<forall>j. t \<le> j + 16 \<and> j < t \<longrightarrow> X ! (j mod 16) = sha_W data j)"

lemma sha_window_at: "sha_window data t X \<Longrightarrow> t \<le> j + 16 \<Longrightarrow> j < t \<Longrightarrow> X ! (j mod 16) = sha_W data j"
  by (simp add: sha_window_def)

lemma sha_window_mix:
  assumes w: "sha_window data t X" and t: "16 \<le> t"
  shows "X ! (t mod 16) + (sigma0 (X ! ((t + 1) mod 16)) + sigma1 (X ! ((t + 14) mod 16)) + X ! ((t + 9) mod 16)) = sha_W data t"
proof -
  have shift: "X ! ((t + k) mod 16) = sha_W data (t + k - 16)" if "k < 16" for k
  proof -
    have "(t + k) mod 16 = (t + k - 16) mod 16" using t by (simp add: mod_if [of "t + k"])
    then show ?thesis using sha_window_at [OF w, of "t + k - 16"] t that by simp
  qed
  have "sha_W data (t + 1 - 16) = sha_W data (t - 15)" "sha_W data (t + 14 - 16) = sha_W data (t - 2)"
    "sha_W data (t + 9 - 16) = sha_W data (t - 7)" by simp_all
  then show ?thesis
    using shift [of 0] shift [of 1] shift [of 14] shift [of 9] by (simp add: sha_W_mix [OF t] ac_simps)
qed

lemma sha_window_update:
  assumes w: "sha_window data t X" and t: "16 \<le> t"
  shows "sha_window data (Suc t) (X[t mod 16 := sha_W data t])"
proof -
  have "j mod 16 \<noteq> t mod 16" if "Suc t \<le> j + 16" "j < t" for j
  proof
    assume "j mod 16 = t mod 16"
    then have "16 dvd t - j" using that by (metis less_imp_le_nat mod_eq_dvd_iff_nat)
    then show False using that by (auto dest: dvd_imp_le)
  qed
  then show ?thesis using w unfolding sha_window_def nth_list_update by (metis length_list_update less_Suc_eq mod_less_divisor nth_list_update_eq nth_list_update_neq Suc_leD zero_less_numeral)
qed

lemma mix_rounds:
  assumes "sha_window data 16 X" "16 \<le> t"
  shows "\<exists>Y. fold sha_mix_round [16..<t] (X, spec_vars data v 16) = (Y, spec_vars data v t) \<and> sha_window data t Y"
  using assms(2)
proof (induction t rule: dec_induct)
  case base
  then show ?case using assms(1) by simp
next
  case (step t)
  then obtain Y where Y: "fold sha_mix_round [16..<t] (X, spec_vars data v 16) = (Y, spec_vars data v t)"
      "sha_window data t Y" by blast
  have "sha_mix_round t (Y, spec_vars data v t) = (Y[t mod 16 := sha_W data t], spec_vars data v (Suc t))"
    unfolding spec_vars_Suc using sha_window_mix [OF Y(2) step.hyps(1)] by (simp add: sha_mix_round_def Let_def)
  then have "fold sha_mix_round [16..<Suc t] (X, spec_vars data v 16) = (Y[t mod 16 := sha_W data t], spec_vars data v (Suc t))"
    using Y(1) step.hyps(1) by (simp add: upt_Suc_append)
  then show ?case using sha_window_update [OF Y(2) step.hyps(1)] by blast
qed

lemma sha256_block_compress: "sha256_block stack v data = sha256_compress v data"
proof -
  have "length (map stack [0..<16]) = 16" by (simp only: length_map length_upt)
  then obtain X where X: "fold (sha_load_round data) [0..<16] (map stack [0..<16], vars_of v) = (X, spec_vars data (vars_of v) 16)"
      "length X = 16" "\<forall>j<16. X ! j = sha_W data j" using load_rounds [OF _ order_refl] by blast
  then have "sha_window data 16 X" by (simp add: sha_window_def)
  then have "\<exists>Y. fold sha_mix_round [16..<64] (X, spec_vars data (vars_of v) 16) = (Y, spec_vars data (vars_of v) 64) \<and> sha_window data 64 Y"
    by (rule mix_rounds) simp
  then obtain Y where "fold sha_mix_round [16..<64] (X, spec_vars data (vars_of v) 16) = (Y, spec_vars data (vars_of v) 64)"
    by blast
  then show ?thesis unfolding sha256_block_def sha256_compress_def Let_def X(1) by (simp only: snd_conv spec_vars_def)
qed

lemma sha256_blocks_cong:
  "(\<And>v d. blk v d = blk' v d) \<Longrightarrow> sha256_blocks blk v data n = sha256_blocks blk' v data n"
  by (induction n arbitrary: v data) simp_all

section \<open>The streaming interface computes the digest of the whole message\<close>

lemma sha256_blocks_add:
  "sha256_blocks blk v data (m + n) = sha256_blocks blk (sha256_blocks blk v data m) (drop (64 * m) data) n"
  by (induction m arbitrary: v data) (simp_all add: algebra_simps)

lemma sha256_blocks_append:
  "64 * n \<le> length xs \<Longrightarrow> sha256_blocks blk v (xs @ ys) n = sha256_blocks blk v xs n"
  by (induction n arbitrary: v xs) simp_all

lemma sha256_blocks_concat:
  "length xs = 64 * m \<Longrightarrow> sha256_blocks blk v (xs @ ys) (m + n) = sha256_blocks blk (sha256_blocks blk v xs m) ys n"
  by (simp add: sha256_blocks_add sha256_blocks_append)

text \<open>
  The part of the message that fills whole blocks, and the rest. A context stands for a message when
  its chaining value is that of the whole blocks and its buffer holds the rest and zeros.
\<close>

definition sha_whole :: "'a list \<Rightarrow> 'a list" where
  "sha_whole m = take (64 * (length m div 64)) m"

definition sha_rest :: "'a list \<Rightarrow> 'a list" where
  "sha_rest m = drop (64 * (length m div 64)) m"

lemma whole_rest: "sha_whole m @ sha_rest m = m"
  by (simp add: sha_whole_def sha_rest_def)

lemma rest_Nil [simp]: "sha_rest [] = []"
  by (simp add: sha_rest_def)

lemma length_whole: "length (sha_whole m) = 64 * (length m div 64)"
  by (simp add: sha_whole_def)

lemma length_rest: "length (sha_rest m) = length m mod 64"
  by (simp add: sha_rest_def minus_mult_div_eq_mod)

definition sha_repr :: "(u32 list \<Rightarrow> bytes \<Rightarrow> u32 list) \<Rightarrow> SHA256_CTX \<Rightarrow> bytes \<Rightarrow> bool" where
  "sha_repr blk ctx m \<longleftrightarrow>
     sha_h ctx = sha256_blocks blk sha256_init_h m (length m div 64) \<and> sha_N ctx = of_nat (length m) \<and>
     sha_off ctx = length m mod 64 \<and> sha_buf ctx = sha_rest m @ replicate (64 - length m mod 64) 0"

lemma sha_repr_init: "sha_repr blk sha256_init []"
  by (simp add: sha_repr_def sha256_init_def sha_rest_def)

text \<open>A message that ends on a block boundary, extended.\<close>

lemma aligned_append:
  assumes "length m = 64 * k"
  shows "length (m @ x) div 64 = k + length x div 64" "sha_rest (m @ x) = sha_rest x" "length (m @ x) mod 64 = length x mod 64"
  using assms by (simp_all add: sha_rest_def algebra_simps)

lemma sha256_update_tail_repr:
  assumes h: "sha_h ctx = sha256_blocks blk sha256_init_h m k" and m: "length m = 64 * k"
    and N: "sha_N ctx = of_nat (length (m @ x))" and b: "sha_buf ctx = replicate 64 0" and o: "sha_off ctx = 0"
  shows "sha_repr blk (sha256_update_tail blk ctx x) (m @ x)"
proof -
  let ?out = "sha256_update_tail blk ctx x"
  have d: "drop (length x div 64 * 64) x = sha_rest x" by (simp add: sha_rest_def mult.commute)
  have e: "sha_rest x = [] \<longleftrightarrow> length x mod 64 = 0" using length_rest [of x] by auto
  have "sha_h ?out = sha256_blocks blk (sha_h ctx) x (length x div 64)"
    by (simp add: sha256_update_tail_def Let_def)
  also have "\<dots> = sha256_blocks blk sha256_init_h (m @ x) (length (m @ x) div 64)"
    unfolding h aligned_append(1) [OF m] by (simp add: sha256_blocks_concat m)
  finally have "sha_h ?out = sha256_blocks blk sha256_init_h (m @ x) (length (m @ x) div 64)" .
  moreover have "sha_N ?out = of_nat (length (m @ x))"
    using N by (simp add: sha256_update_tail_def Let_def)
  moreover have "sha_off ?out = length x mod 64"
    unfolding sha256_update_tail_def Let_def d using o e length_rest [of x] by simp
  moreover have "sha_buf ?out = sha_rest x @ replicate (64 - length x mod 64) 0"
    unfolding sha256_update_tail_def Let_def d using b e length_rest [of x] by (simp add: sha256_bcopy_def)
  ultimately show ?thesis unfolding sha_repr_def aligned_append(2,3) [OF m] by simp
qed

lemma sha_reprD:
  assumes "sha_repr blk ctx m"
  shows "sha_h ctx = sha256_blocks blk sha256_init_h m (length m div 64)" "sha_N ctx = of_nat (length m)"
    "sha_off ctx = length m mod 64" "sha_buf ctx = sha_rest m @ replicate (64 - length m mod 64) 0"
  using assms by (simp_all add: sha_repr_def)

lemma sha_h_whole:
  assumes "sha_repr blk ctx m"
  shows "sha256_blocks blk sha256_init_h (sha_whole m) (length m div 64) = sha_h ctx"
  using sha256_blocks_append [of "length m div 64" "sha_whole m" blk sha256_init_h "sha_rest m"]
  by (simp add: length_whole whole_rest sha_reprD(1) [OF assms])

lemma short_length:
  "b < 64 - a mod 64 \<Longrightarrow> (a + b) div 64 = a div 64 \<and> (a + b) mod 64 = a mod 64 + b" for a b :: nat
proof -
  assume "b < 64 - a mod 64"
  then have lt: "a mod 64 + b < 64" by linarith
  have "a + b = (a mod 64 + b) + 64 * (a div 64)" by simp
  then show ?thesis
    using lt by (metis add.commute add_cancel_left_left div_less div_mult_self2 mod_less mod_mult_self2 zero_neq_numeral)
qed

lemma update_repr_short:
  assumes r: "sha_repr blk ctx m" and x: "x \<noteq> []" "length m mod 64 \<noteq> 0" "length x < 64 - length m mod 64"
  shows "sha_repr blk (sha256_update blk ctx x) (m @ x)"
proof -
  let ?out = "sha256_update blk ctx x"
  have d: "length (m @ x) div 64 = length m div 64" and o: "length (m @ x) mod 64 = length m mod 64 + length x"
    using short_length [OF x(3)] by simp_all
  have out: "?out = ctx\<lparr>sha_N := sha_N ctx + of_nat (length x),
      sha_buf := sha256_bcopy (sha_buf ctx) (length m mod 64) x, sha_off := length m mod 64 + length x\<rparr>"
    using x by (simp add: sha256_update_def Let_def sha_reprD(3) [OF r])
  have "sha_rest (m @ x) = sha_rest m @ x" unfolding sha_rest_def d by simp
  moreover have "sha256_bcopy (sha_buf ctx) (length m mod 64) x = sha_rest m @ x @ replicate (64 - (length m mod 64 + length x)) 0"
    using length_rest [of m] by (simp add: sha256_bcopy_def sha_reprD(4) [OF r])
  moreover have "sha256_blocks blk sha256_init_h (m @ x) (length m div 64) = sha_h ctx"
    by (simp add: sha256_blocks_append sha_reprD(1) [OF r])
  ultimately show ?thesis
    unfolding sha_repr_def d o by (simp add: out sha_reprD(2) [OF r])
qed

lemma fill_length: "a + (64 - a mod 64) = 64 * (a div 64 + 1)" for a :: nat
proof -
  have "a = 64 * (a div 64) + a mod 64" "a mod 64 < 64" by simp_all
  then show ?thesis unfolding distrib_left by linarith
qed

lemma update_repr_fill:
  assumes r: "sha_repr blk ctx m" and x: "length m mod 64 \<noteq> 0" "64 - length m mod 64 \<le> length x"
  shows "sha_repr blk (sha256_update blk ctx x) (m @ x)"
proof -
  let ?n = "length m mod 64"
  define y z where "y = take (64 - ?n) x" and "z = drop (64 - ?n) x"
  let ?ctx = "ctx\<lparr>sha_N := sha_N ctx + of_nat (length x), sha_h := sha256_blocks blk (sha_h ctx) (sha_rest m @ y) 1,
      sha_buf := replicate 64 0, sha_off := 0\<rparr>"
  have ly: "length y = 64 - ?n" using x(2) by (simp add: y_def)
  have full: "sha256_bcopy (sha_buf ctx) ?n y = sha_rest m @ y"
    using ly length_rest [of m] by (simp add: sha256_bcopy_def sha_reprD(4) [OF r])
  have "length x \<noteq> 0" using x(2) mod_less_divisor [of 64 "length m"] by linarith
  then have out: "sha256_update blk ctx x = sha256_update_tail blk ?ctx z"
    using x full by (simp add: sha256_update_def Let_def sha_reprD(3) [OF r] y_def z_def not_less)
  have k: "length (m @ y) = 64 * (length m div 64 + 1)"
    unfolding length_append ly by (rule fill_length)
  have "sha256_blocks blk sha256_init_h (sha_whole m @ sha_rest m @ y) (length m div 64 + 1) =
      sha256_blocks blk (sha256_blocks blk sha256_init_h (sha_whole m) (length m div 64)) (sha_rest m @ y) 1"
    by (rule sha256_blocks_concat) (rule length_whole)
  then have h: "sha_h ?ctx = sha256_blocks blk sha256_init_h (m @ y) (length m div 64 + 1)"
    by (simp add: whole_rest sha_h_whole [OF r] flip: append_assoc)
  have "sha_repr blk (sha256_update_tail blk ?ctx z) ((m @ y) @ z)"
    by (rule sha256_update_tail_repr [OF h k]) (simp_all add: sha_reprD(2) [OF r] y_def z_def)
  then show ?thesis unfolding out by (simp add: y_def z_def)
qed

lemma sha256_update_repr:
  assumes r: "sha_repr blk ctx m"
  shows "sha_repr blk (sha256_update blk ctx x) (m @ x)"
proof -
  consider (empty) "x = []" | (aligned) "length m mod 64 = 0" | (short) "x \<noteq> []" "length m mod 64 \<noteq> 0" "length x < 64 - length m mod 64"
    | (fill) "length m mod 64 \<noteq> 0" "64 - length m mod 64 \<le> length x" by linarith
  then show ?thesis
  proof cases
    case empty
    then show ?thesis using r by (simp add: sha256_update_def sha256_update_tail_def Let_def)
  next
    case aligned
    let ?ctx = "ctx\<lparr>sha_N := sha_N ctx + of_nat (length x)\<rparr>"
    have k: "length m = 64 * (length m div 64)" using aligned div_mult_mod_eq [of "length m" 64] by linarith
    have "sha_rest m = []" using length_rest [of m] aligned by simp
    then have "sha_repr blk (sha256_update_tail blk ?ctx x) (m @ x)"
      by (intro sha256_update_tail_repr [OF _ k]) (simp_all add: sha_reprD [OF r] aligned)
    then show ?thesis using aligned sha_reprD(3) [OF r] by (simp add: sha256_update_def Let_def)
  next
    case short
    then show ?thesis by (rule update_repr_short [OF r])
  next
    case fill
    then show ?thesis by (rule update_repr_fill [OF r])
  qed
qed

lemma length_TOBE32 [simp]: "length (TOBE32 x) = 4"
  by (simp add: TOBE32_def)

text \<open>The zeros of the padding, by the number of bytes in the last block.\<close>

lemma pad_zeros:
  "nat ((55 - int n) mod 64) = (if n mod 64 \<le> 55 then 55 - n mod 64 else 119 - n mod 64)"
proof -
  define k where "k = n mod 64"
  have k: "k < 64" by (simp add: k_def)
  have "(55 - int n) mod 64 = (55 - int k) mod 64" by (simp add: k_def zmod_int mod_diff_right_eq)
  moreover have "(55 - int k) mod 64 = 55 - int k" if "k \<le> 55"
    using that by (intro mod_pos_pos_trivial) simp_all
  moreover have "(55 - int k) mod 64 = 119 - int k" if "\<not> k \<le> 55"
    using that k mod_add_self2 [of "55 - int k" 64] mod_pos_pos_trivial [of "119 - int k" 64] by simp
  ultimately show ?thesis by (auto simp flip: k_def)
qed

definition sha_len_bytes :: "64 word \<Rightarrow> bytes" where
  "sha_len_bytes N = TOBE32 (ucast (drop_bit 32 (N * 8))) @ TOBE32 (ucast (N * 8))"

lemma length_sha_len_bytes [simp]: "length (sha_len_bytes N) = 8"
  by (simp add: sha_len_bytes_def)

lemma sha256_spec_last:
  assumes r: "sha_repr blk ctx m"
    and t: "sha_rest m @ sha_pad (length m) = last_bytes" "length last_bytes = 64 * j"
  shows "sha256_spec blk m = sha256_emit (sha256_blocks blk (sha_h ctx) last_bytes j)"
proof -
  let ?k = "length m div 64"
  have p: "m @ sha_pad (length m) = sha_whole m @ last_bytes"
    unfolding t(1) [symmetric] by (simp add: whole_rest flip: append_assoc)
  have d: "length (sha_whole m @ last_bytes) div 64 = ?k + j"
    unfolding length_append length_whole t(2) by simp
  show ?thesis
    unfolding sha256_spec_def Let_def p d sha256_blocks_concat [OF length_whole] sha_h_whole [OF r] ..
qed

lemma sha256_bcopy_end:
  "length a = n \<Longrightarrow> length b = length src \<Longrightarrow> sha256_bcopy (a @ b) n src = a @ src"
  by (simp add: sha256_bcopy_def)

lemma final_buffer:
  assumes r: "sha_repr blk ctx m"
  shows "(sha_buf ctx)[length m mod 64 := 0x80] = sha_rest m @ 0x80 # replicate (63 - length m mod 64) 0"
proof -
  have "length m mod 64 < 64" by simp
  then have "64 - length m mod 64 = Suc (63 - length m mod 64)" by simp
  then have "sha_buf ctx = sha_rest m @ 0 # replicate (63 - length m mod 64) 0"
    by (simp add: sha_reprD(4) [OF r])
  then show ?thesis using length_rest [of m] by (simp add: list_update_append)
qed

lemma sha256_final_spec:
  assumes r: "sha_repr blk ctx m"
  shows "snd (sha256_final blk ctx) = sha256_spec blk m"
proof -
  define n where "n = length m mod 64"
  have n: "n < 64" "length (sha_rest m) = n" by (simp_all add: n_def length_rest)
  have fin: "snd (sha256_final blk ctx) = (let buf = sha_rest m @ 0x80 # replicate (63 - n) 0;
      (h, buf) = (if 55 < n then (sha256_blocks blk (sha_h ctx) buf 1, replicate 64 0) else (sha_h ctx, buf))
      in sha256_emit (sha256_blocks blk h (sha256_bcopy buf 56 (sha_len_bytes (of_nat (length m)))) 1))"
    unfolding sha256_final_def sha_reprD(2,3) [OF r] Let_def sha_len_bytes_def final_buffer [OF r] unfolding n_def [symmetric]
    by (simp cong: if_cong)
  have pad: "sha_pad (length m) = 0x80 # replicate (if n \<le> 55 then 55 - n else 119 - n) 0 @ sha_len_bytes (of_nat (length m))"
    by (simp add: sha_pad_def Let_def pad_zeros sha_len_bytes_def n_def)
  show ?thesis
  proof (cases "n \<le> 55")
    case True
    let ?last_bytes = "sha_rest m @ 0x80 # replicate (55 - n) 0 @ sha_len_bytes (of_nat (length m))"
    have "sha256_spec blk m = sha256_emit (sha256_blocks blk (sha_h ctx) ?last_bytes 1)"
      by (rule sha256_spec_last [OF r]) (use True n pad in simp_all)
    moreover have "sha256_bcopy (sha_rest m @ 0x80 # replicate (63 - n) 0) 56 (sha_len_bytes (of_nat (length m))) = ?last_bytes"
    proof -
      have "replicate (63 - n) (0 :: byte) = replicate (55 - n) 0 @ replicate 8 0"
        using True by (simp only: replicate_add [symmetric]) simp
      then show ?thesis
        using sha256_bcopy_end [of "sha_rest m @ 0x80 # replicate (55 - n) 0" 56 "replicate 8 0" "sha_len_bytes (of_nat (length m))"] True n
        by simp
    qed
    ultimately show ?thesis unfolding fin Let_def using True by simp
  next
    case False
    let ?one = "sha_rest m @ 0x80 # replicate (63 - n) 0" and ?two = "replicate 56 0 @ sha_len_bytes (of_nat (length m))"
    have "119 - n = (63 - n) + 56" using n by simp
    then have "sha_rest m @ sha_pad (length m) = ?one @ ?two"
      unfolding pad using False by (simp only: if_False replicate_add append_assoc append_Cons)
    then have "sha256_spec blk m = sha256_emit (sha256_blocks blk (sha_h ctx) (?one @ ?two) 2)"
      by (rule sha256_spec_last [OF r]) (use n in simp)
    also have "\<dots> = sha256_emit (sha256_blocks blk (sha256_blocks blk (sha_h ctx) ?one 1) ?two 1)"
      using sha256_blocks_concat [of ?one 1 blk "sha_h ctx" ?two 1] n by (simp only: one_add_one) simp
    also have "?two = sha256_bcopy (replicate 64 0) 56 (sha_len_bytes (of_nat (length m)))"
      by (simp add: sha256_bcopy_def)
    finally show ?thesis unfolding fin Let_def using False by simp
  qed
qed

section \<open>The contract of a streaming digest\<close>

text \<open>
  What the callers of a digest rely on: a context stands for the bytes it was given, however they
  were cut into calls, and the digest is a function of them.
\<close>

locale streaming =
  fixes represents :: "'c \<Rightarrow> bytes \<Rightarrow> bool" and init :: 'c and upd :: "'c \<Rightarrow> bytes \<Rightarrow> 'c"
    and digest :: "'c \<Rightarrow> bytes" and H :: "bytes \<Rightarrow> bytes"
  assumes init_law: "represents init []" and upd_law: "represents c m \<Longrightarrow> represents (upd c x) (m @ x)"
    and digest_law: "represents c m \<Longrightarrow> digest c = H m"
begin

lemma feed: "represents c m \<Longrightarrow> represents (foldl upd c chunks) (m @ concat chunks)"
proof (induction chunks arbitrary: c m)
  case (Cons x chunks)
  then show ?case using Cons.IH [OF upd_law [OF Cons.prems]] by simp
qed simp

lemma digest_chunks: "digest (foldl upd init chunks) = H (concat chunks)"
  using digest_law [OF feed [OF init_law]] by simp

lemma digest_one: "digest (upd init x) = H x"
  using digest_chunks [of "[x]"] by simp

lemma digest_two: "digest (upd (upd init x) y) = H (x @ y)"
  using digest_chunks [of "[x, y]"] by simp

end

interpretation sha: streaming "sha_repr blk" sha256_init "sha256_update blk" "\<lambda>c. snd (sha256_final blk c)" "sha256_spec blk" for blk
  by unfold_locales (rule sha_repr_init, erule sha256_update_repr, erule sha256_final_spec)

lemma blst_sha256_spec: "blst_sha256 blk msg = sha256_spec blk msg"
  unfolding blst_sha256_def by (rule sha.digest_one)

lemma sha256_spec_cong:
  "(\<And>v d. blk v d = blk' v d) \<Longrightarrow> sha256_spec blk m = sha256_spec blk' m"
  by (simp add: sha256_spec_def sha256_blocks_cong [of blk blk'])

lemma length_sha256_emit: "length (sha256_emit h) = 4 * length h"
  by (simp add: sha256_emit_def length_concat comp_def sum_list_triv)

text \<open>
  C15. The portable SHA-256 is the function of the standard: however a message is cut into calls of the
  update, and whatever the stack held, the digest is that of the padded message under the
  compression of sixty-four rounds with the expanded schedule.
\<close>

theorem sha256_streaming:
  "snd (sha256_final (sha256_block stack) (foldl (sha256_update (sha256_block stack)) sha256_init chunks)) =
    sha256_spec sha256_compress (concat chunks)"
  unfolding sha.digest_chunks using sha256_spec_cong sha256_block_compress by blast

end
