(* ===== verification/BlstScalar.thy ===== *)
theory BlstScalar
  imports BlstTypes
begin

text \<open>
  Scalars modulo the group order of BLS12-381: the Montgomery routines on 64-bit limbs
  (blst/src/no_asm.h), the conversions of byte strings of any length (blst/src/exports.c), and
  the classes \<^verbatim>\<open>SecretKey\<close> and \<^verbatim>\<open>Scalar\<close> of the C++ interface
  (blst/bindings/blst.hpp). A vector of limbs is the number it represents; the carry chains of the
  inner loops are addition and multiplication of numbers, the outer loops are kept.
\<close>

section \<open>Constants\<close>

definition BLS12_381_r :: nat where
  "BLS12_381_r = 0x73eda753299d7d483339d80809a1d80553bda402fffe5bfeffffffff00000001"

definition BLS12_381_rRR :: nat where
  "BLS12_381_rRR = 0x0748d9d99f59ff1105d314967254398f2b6cedcb87925c23c999e990f3f29c6d"

definition r0 :: nat where
  "r0 = 0xfffffffeffffffff"

section \<open>Limb routines\<close>

definition limbs :: "nat \<Rightarrow> nat \<Rightarrow> nat list" where
  "limbs n a = map (\<lambda>i. a div 2 ^ (64 * i) mod 2 ^ 64) [0..<n]"

definition of_limbs :: "nat list \<Rightarrow> nat" where
  "of_limbs ls = foldr (\<lambda>l a. l + 2 ^ 64 * a) ls 0"

text \<open>
  One round of \<^verbatim>\<open>mul_mont_n\<close>: add a multiple of \<open>a\<close>, then of \<open>p\<close> so that the low limb
  vanishes, and shift it out. The accumulator has one limb and a carry more than its operands.
\<close>

definition mont_round :: "nat \<Rightarrow> nat \<Rightarrow> nat \<Rightarrow> nat \<Rightarrow> nat \<Rightarrow> nat" where
  "mont_round p n0 a bj t =
     (let s = t + bj * a; mx = (n0 * s) mod 2 ^ 64 in (s + mx * p) div 2 ^ 64)"

definition mul_mont_n :: "nat \<Rightarrow> nat \<Rightarrow> nat \<Rightarrow> nat \<Rightarrow> nat \<Rightarrow> nat" where
  "mul_mont_n a b p n0 n =
     (let t = fold (mont_round p n0 a) (limbs n b) 0 in if p \<le> t then t - p else t)"

definition from_mont_n :: "nat \<Rightarrow> nat \<Rightarrow> nat \<Rightarrow> nat \<Rightarrow> nat" where
  "from_mont_n a p n0 n =
     (let t = (mont_round p n0 0 0 ^^ n) a in if p \<le> t then t - p else t)"

text \<open>
  The selection \<^verbatim>\<open>(ret & ~mask) | (tmp & mask)\<close> with the mask \<^verbatim>\<open>carry - borrow\<close>: all
  ones and zero choose one side, and the mask one, which operands out of range can give, mixes the
  lowest bit of every limb.
\<close>

definition mask_select :: "nat \<Rightarrow> nat \<Rightarrow> nat \<Rightarrow> nat \<Rightarrow> nat \<Rightarrow> nat" where
  "mask_select n carry borrow ret tmp =
     (if carry = borrow then ret else if carry < borrow then tmp
      else of_limbs (map2 (\<lambda>x t. x div 2 * 2 + t mod 2) (limbs n ret) (limbs n tmp)))"

definition add_mod_n :: "nat \<Rightarrow> nat \<Rightarrow> nat \<Rightarrow> nat \<Rightarrow> nat" where
  "add_mod_n a b p n =
     (let R = 2 ^ (64 * n); tmp = (a + b) mod R; carry = (a + b) div R;
          ret = (tmp + R - p) mod R; borrow = (if tmp < p then 1 else 0)
      in mask_select n carry borrow ret tmp)"

definition sub_mod_n :: "nat \<Rightarrow> nat \<Rightarrow> nat \<Rightarrow> nat \<Rightarrow> nat" where
  "sub_mod_n a b p n =
     (let R = 2 ^ (64 * n); ret = (a + R - b) mod R
      in if a < b then (ret + p) mod R else ret)"

definition check_mod_n :: "nat \<Rightarrow> nat \<Rightarrow> bool" where
  "check_mod_n a p \<longleftrightarrow> a < p \<and> a \<noteq> 0"

text \<open>Reduction of a number of twice the limbs: the low half is divided by the radix, the high half is added.\<close>

definition redc_mont_n :: "nat \<Rightarrow> nat \<Rightarrow> nat \<Rightarrow> nat \<Rightarrow> nat" where
  "redc_mont_n a p n0 n =
     (let R = 2 ^ (64 * n); t = (mont_round p n0 0 0 ^^ n) (a mod R); hi = a div R mod R;
          tmp = (hi + t) mod R; carry = (hi + t) div R;
          ret = (tmp + R - p) mod R; borrow = (if tmp < p then 1 else 0)
      in mask_select n carry borrow ret tmp)"

abbreviation mul_mont_256 :: "nat \<Rightarrow> nat \<Rightarrow> nat" where
  "mul_mont_256 a b \<equiv> mul_mont_n a b BLS12_381_r r0 4"

abbreviation from_mont_256 :: "nat \<Rightarrow> nat" where
  "from_mont_256 a \<equiv> from_mont_n a BLS12_381_r r0 4"

abbreviation add_mod_256 :: "nat \<Rightarrow> nat \<Rightarrow> nat" where
  "add_mod_256 a b \<equiv> add_mod_n a b BLS12_381_r 4"

abbreviation sub_mod_256 :: "nat \<Rightarrow> nat \<Rightarrow> nat" where
  "sub_mod_256 a b \<equiv> sub_mod_n a b BLS12_381_r 4"

section \<open>Secret keys and byte strings\<close>

definition be_dec :: "bytes \<Rightarrow> nat" where
  "be_dec bs = le_dec (rev bs)"

definition be_enc :: "nat \<Rightarrow> nat \<Rightarrow> bytes" where
  "be_enc n x = rev (le_enc n x)"

definition sub64 :: "nat \<Rightarrow> nat \<Rightarrow> nat" where
  "sub64 a b = (a + 2 ^ 64 - b) mod 2 ^ 64"

definition slice :: "bytes \<Rightarrow> nat \<Rightarrow> nat \<Rightarrow> bytes option" where
  "slice bs off len = (if off + len \<le> length bs then Some (take len (drop off bs)) else None)"

text \<open>
  \<^verbatim>\<open>blst_scalar_from_le_bytes\<close> and \<^verbatim>\<open>blst_scalar_from_be_bytes\<close>: base \<open>2\<^sup>256\<close> digits
  from the most significant one, in Montgomery form. Lengths are \<^verbatim>\<open>size_t\<close> and wrap; a read
  outside the buffer is \<^const>\<open>None\<close>. The flag says whether the result is not zero.
\<close>

function from_le_loop :: "bytes \<Rightarrow> nat \<Rightarrow> nat \<Rightarrow> nat option" where
  "from_le_loop bs n out =
     (if n = 0 then Some out
      else if n < 32 then None
      else case slice bs (n - 32) 32 of None \<Rightarrow> None
        | Some digit \<Rightarrow> from_le_loop bs (n - 32) (mul_mont_256 BLS12_381_rRR (add_mod_256 out (le_dec digit))))"
  by pat_completeness auto
termination by (relation "measure (\<lambda>(bs, n, out). n)") auto

declare from_le_loop.simps [simp del]

definition blst_scalar_from_le_bytes :: "bytes \<Rightarrow> (nat \<times> bool) option" where
  "blst_scalar_from_le_bytes bs =
     (let n = length bs; rm = sub64 n 1 mod 32 + 1; n' = sub64 n rm
      in case slice bs n' rm of None \<Rightarrow> None
         | Some hi \<Rightarrow>
             (case from_le_loop bs n' (mul_mont_256 BLS12_381_rRR (le_dec hi)) of None \<Rightarrow> None
              | Some out \<Rightarrow> let out' = from_mont_256 out in Some (out', out' \<noteq> 0)))"

function from_be_loop :: "bytes \<Rightarrow> nat \<Rightarrow> nat \<Rightarrow> nat option" where
  "from_be_loop bs n out =
     (if n = 0 then Some out
      else if n < 32 then None
      else case slice bs (length bs - n) 32 of None \<Rightarrow> None
        | Some digit \<Rightarrow> from_be_loop bs (n - 32) (mul_mont_256 BLS12_381_rRR (add_mod_256 out (be_dec digit))))"
  by pat_completeness auto
termination by (relation "measure (\<lambda>(bs, n, out). n)") auto

declare from_be_loop.simps [simp del]

definition blst_scalar_from_be_bytes :: "bytes \<Rightarrow> (nat \<times> bool) option" where
  "blst_scalar_from_be_bytes bs =
     (let n = length bs; rm = sub64 n 1 mod 32 + 1
      in case slice bs 0 rm of None \<Rightarrow> None
         | Some hi \<Rightarrow>
             (case from_be_loop bs (sub64 n rm) (mul_mont_256 BLS12_381_rRR (be_dec hi)) of None \<Rightarrow> None
              | Some out \<Rightarrow> let out' = from_mont_256 out in Some (out', out' \<noteq> 0)))"

definition blst_sk_check :: "nat \<Rightarrow> bool" where
  "blst_sk_check a \<longleftrightarrow> check_mod_n a BLS12_381_r"

definition blst_sk_add_n_check :: "nat \<Rightarrow> nat \<Rightarrow> nat \<times> bool" where
  "blst_sk_add_n_check a b = (let ret = add_mod_256 a b in (ret, ret \<noteq> 0))"

definition blst_sk_sub_n_check :: "nat \<Rightarrow> nat \<Rightarrow> nat \<times> bool" where
  "blst_sk_sub_n_check a b = (let ret = sub_mod_256 a b in (ret, ret \<noteq> 0))"

definition blst_sk_mul_n_check :: "nat \<Rightarrow> nat \<Rightarrow> nat \<times> bool" where
  "blst_sk_mul_n_check a b =
     (let t = mul_mont_256 BLS12_381_rRR a; t' = mul_mont_256 t b in (t', t' \<noteq> 0))"

text \<open>\<open>recip\<close> is \<^verbatim>\<open>reciprocal_fr\<close>, the inverse on Montgomery forms.\<close>

definition blst_sk_inverse :: "(nat \<Rightarrow> nat) \<Rightarrow> nat \<Rightarrow> nat" where
  "blst_sk_inverse recip a = from_mont_256 (recip (mul_mont_256 a BLS12_381_rRR))"

section \<open>The classes SecretKey and Scalar\<close>

datatype SecretKey = SecretKey (sk_key: nat)

definition SecretKey_new :: SecretKey where
  "SecretKey_new = SecretKey 0"

text \<open>The wrapper refuses a buffer that has not the 32 bytes of the array parameter.\<close>

definition expect_32 :: "bytes \<Rightarrow> bytes js_result" where
  "expect_32 b = (if length b = 32 then Inr b else Inl (Error ''expecting 32 bytes''))"

definition SecretKey_from_bendian :: "SecretKey \<Rightarrow> bytes \<Rightarrow> SecretKey js_result" where
  "SecretKey_from_bendian sk b = js_bind (expect_32 b) (\<lambda>b. Inr (SecretKey (be_dec b)))"

definition SecretKey_from_lendian :: "SecretKey \<Rightarrow> bytes \<Rightarrow> SecretKey js_result" where
  "SecretKey_from_lendian sk b = js_bind (expect_32 b) (\<lambda>b. Inr (SecretKey (le_dec b)))"

definition SecretKey_to_bendian :: "SecretKey \<Rightarrow> bytes" where
  "SecretKey_to_bendian sk = be_enc 32 (sk_key sk)"

definition SecretKey_to_lendian :: "SecretKey \<Rightarrow> bytes" where
  "SecretKey_to_lendian sk = le_enc 32 (sk_key sk)"

datatype Scalar = Scalar (sc_val: nat)

definition Scalar_new :: Scalar where
  "Scalar_new = Scalar 0"

definition scalar_or_fault :: "(nat \<times> bool) option \<Rightarrow> Scalar js_result" where
  "scalar_or_fault v = (case v of None \<Rightarrow> Inl Fault | Some (x, _) \<Rightarrow> Inr (Scalar x))"

definition Scalar_of_bytes :: "bytes \<Rightarrow> Scalar js_result" where
  "Scalar_of_bytes b = scalar_or_fault (blst_scalar_from_le_bytes b)"

text \<open>\<open>xmd\<close> is \<^verbatim>\<open>blst_expand_message_xmd\<close>: message, tag and number of bytes.\<close>

definition Scalar_hash_to :: "(bytes \<Rightarrow> bytes \<Rightarrow> nat \<Rightarrow> bytes) \<Rightarrow> Scalar \<Rightarrow> bytes \<Rightarrow> bytes \<Rightarrow> Scalar js_result" where
  "Scalar_hash_to xmd s msg DST = scalar_or_fault (blst_scalar_from_be_bytes (xmd msg DST 48))"

definition Scalar_from_bendian :: "Scalar \<Rightarrow> bytes \<Rightarrow> Scalar js_result" where
  "Scalar_from_bendian s msg = scalar_or_fault (blst_scalar_from_be_bytes msg)"

definition Scalar_from_lendian :: "Scalar \<Rightarrow> bytes \<Rightarrow> Scalar js_result" where
  "Scalar_from_lendian s msg = scalar_or_fault (blst_scalar_from_le_bytes msg)"

definition Scalar_to_bendian :: "Scalar \<Rightarrow> bytes" where
  "Scalar_to_bendian s = be_enc 32 (sc_val s)"

definition Scalar_to_lendian :: "Scalar \<Rightarrow> bytes" where
  "Scalar_to_lendian s = le_enc 32 (sc_val s)"

definition checked_scalar :: "nat \<times> bool \<Rightarrow> Scalar js_result" where
  "checked_scalar v = (if snd v then Inr (Scalar (fst v)) else blst_throw BLST_BAD_SCALAR)"

definition Scalar_add :: "Scalar \<Rightarrow> Scalar + SecretKey \<Rightarrow> Scalar js_result" where
  "Scalar_add s a =
     checked_scalar (blst_sk_add_n_check (sc_val s) (case a of Inl t \<Rightarrow> sc_val t | Inr sk \<Rightarrow> sk_key sk))"

definition Scalar_sub :: "Scalar \<Rightarrow> Scalar \<Rightarrow> Scalar js_result" where
  "Scalar_sub s a = checked_scalar (blst_sk_sub_n_check (sc_val s) (sc_val a))"

definition Scalar_mul :: "Scalar \<Rightarrow> Scalar \<Rightarrow> Scalar js_result" where
  "Scalar_mul s a = checked_scalar (blst_sk_mul_n_check (sc_val s) (sc_val a))"

definition Scalar_inverse :: "(nat \<Rightarrow> nat) \<Rightarrow> Scalar \<Rightarrow> Scalar" where
  "Scalar_inverse recip s = Scalar (blst_sk_inverse recip (sc_val s))"

section \<open>The contract of the Montgomery routines\<close>

lemma of_limbs_limbs: "of_limbs (limbs n a) = a mod 2 ^ (64 * n)"
proof (induction n arbitrary: a)
  case (Suc n)
  have "limbs (Suc n) a = a mod 2 ^ 64 # limbs n (a div 2 ^ 64)"
    unfolding limbs_def
    by (simp add: upt_conv_Cons map_Suc_upt [symmetric] comp_def div_mult2_eq [symmetric] power_add
        del: upt_Suc)
  with Suc show ?case
    by (simp add: of_limbs_def power_add mod_mult2_eq)
qed (simp add: limbs_def of_limbs_def)

lemma length_limbs [simp]: "length (limbs n a) = n"
  by (simp add: limbs_def)

locale montgomery =
  fixes p n0 n :: nat
  assumes inv: "2 ^ 64 dvd n0 * p + 1" and p_pos: "0 < p" and p_lt: "p < 2 ^ (64 * n)"
begin

lemma round_exact:
  "\<exists>m < 2 ^ 64. mont_round p n0 a l t * 2 ^ 64 = t + l * a + m * p"
proof -
  define s where "s = t + l * a"
  define m where "m = n0 * s mod 2 ^ 64"
  have "2 ^ 64 dvd s * (n0 * p + 1)" using inv by (rule dvd_mult)
  moreover have "(s + m * p) mod 2 ^ 64 = (s * (n0 * p + 1)) mod 2 ^ 64"
  proof -
    have "m * p mod 2 ^ 64 = n0 * s * p mod 2 ^ 64" unfolding m_def by (rule mod_mult_left_eq)
    then have "(s + m * p) mod 2 ^ 64 = (s + n0 * s * p) mod 2 ^ 64" by (metis mod_add_right_eq)
    also have "s + n0 * s * p = s * (n0 * p + 1)" by (simp add: algebra_simps)
    finally show ?thesis .
  qed
  ultimately have "2 ^ 64 dvd s + m * p" by (simp add: dvd_eq_mod_eq_0)
  then have "(s + m * p) div 2 ^ 64 * 2 ^ 64 = s + m * p" by simp
  moreover have "m < 2 ^ 64" by (simp add: m_def)
  ultimately show ?thesis unfolding mont_round_def Let_def s_def m_def by (metis add.assoc)
qed

lemma fold_exact:
  "\<exists>M < 2 ^ (64 * length ls).
     fold (mont_round p n0 a) ls t * 2 ^ (64 * length ls) = t + a * of_limbs ls + M * p"
proof (induction ls arbitrary: t)
  case (Cons l ls)
  obtain m where m: "m < 2 ^ 64" "mont_round p n0 a l t * 2 ^ 64 = t + l * a + m * p"
    using round_exact by blast
  obtain M where M: "M < 2 ^ (64 * length ls)"
    "fold (mont_round p n0 a) ls (mont_round p n0 a l t) * 2 ^ (64 * length ls)
       = mont_round p n0 a l t + a * of_limbs ls + M * p"
    using Cons.IH [of "mont_round p n0 a l t"] by blast
  have "fold (mont_round p n0 a) (l # ls) t * 2 ^ (64 * length (l # ls))
    = (fold (mont_round p n0 a) ls (mont_round p n0 a l t) * 2 ^ (64 * length ls)) * 2 ^ 64"
    by (simp add: power_add algebra_simps)
  also have "\<dots> = t + a * of_limbs (l # ls) + (m + M * 2 ^ 64) * p"
    unfolding M(2) using m(2) by (simp add: of_limbs_def algebra_simps)
  finally have "fold (mont_round p n0 a) (l # ls) t * 2 ^ (64 * length (l # ls))
    = t + a * of_limbs (l # ls) + (m + M * 2 ^ 64) * p" .
  moreover have "m + M * 2 ^ 64 < 2 ^ (64 * length (l # ls))"
  proof -
    have "m + M * 2 ^ 64 < (M + 1) * 2 ^ 64" using m(1) by simp
    also have "\<dots> \<le> 2 ^ (64 * length ls) * 2 ^ 64" using M(1) by (intro mult_right_mono) simp_all
    finally show ?thesis by (simp add: power_add mult.commute)
  qed
  ultimately show ?case by blast
qed (simp add: of_limbs_def)

lemma reduce_once:
  assumes "t * 2 ^ (64 * n) = c + M * p" and "M < 2 ^ (64 * n)"
  shows "((if p \<le> t then t - p else t) * 2 ^ (64 * n)) mod p = c mod p"
    and "c < 2 ^ (64 * n) * p \<Longrightarrow> (if p \<le> t then t - p else t) < p"
proof -
  have "(if p \<le> t then t - p else t) mod p = t mod p"
    by (simp add: le_mod_geq)
  then have "((if p \<le> t then t - p else t) * 2 ^ (64 * n)) mod p = (t * 2 ^ (64 * n)) mod p"
    by (metis mod_mult_left_eq)
  also have "\<dots> = c mod p" unfolding assms(1) by simp
  finally show "((if p \<le> t then t - p else t) * 2 ^ (64 * n)) mod p = c mod p" .
  assume "c < 2 ^ (64 * n) * p"
  moreover have "M * p \<le> 2 ^ (64 * n) * p" using assms(2) by (intro mult_right_mono) simp_all
  ultimately have "t * 2 ^ (64 * n) < 2 ^ (64 * n) * p + 2 ^ (64 * n) * p"
    unfolding assms(1) by (rule add_less_le_mono)
  then have "t * 2 ^ (64 * n) < (p + p) * 2 ^ (64 * n)" by (simp only: distrib_right mult.commute)
  then have "t < p + p" by (simp only: mult_less_cancel2)
  then show "(if p \<le> t then t - p else t) < p" by auto
qed

lemma mul_mont:
  assumes "b < 2 ^ (64 * n)"
  shows mul_mont_cong: "(mul_mont_n a b p n0 n * 2 ^ (64 * n)) mod p = (a * b) mod p"
    and mul_mont_lt: "a * b < 2 ^ (64 * n) * p \<Longrightarrow> mul_mont_n a b p n0 n < p"
proof -
  let ?t = "fold (mont_round p n0 a) (limbs n b) 0"
  obtain M where M: "M < 2 ^ (64 * n)" "?t * 2 ^ (64 * n) = a * b + M * p"
    using fold_exact [of "limbs n b" a 0] assms by (auto simp: of_limbs_limbs)
  show "(mul_mont_n a b p n0 n * 2 ^ (64 * n)) mod p = (a * b) mod p"
    unfolding mul_mont_n_def Let_def by (rule reduce_once(1) [OF M(2,1)])
  show "mul_mont_n a b p n0 n < p" if "a * b < 2 ^ (64 * n) * p"
    unfolding mul_mont_n_def Let_def by (rule reduce_once(2) [OF M(2,1) that])
qed

lemma unreduced_exact:
  "\<exists>M < 2 ^ (64 * n). (mont_round p n0 0 0 ^^ n) a * 2 ^ (64 * n) = a + M * p"
proof -
  have f: "(mont_round p n0 0 0 ^^ k) a = fold (mont_round p n0 0) (replicate k 0) a" for k
    by (induction k arbitrary: a) (simp_all add: funpow_Suc_right del: funpow.simps)
  have z: "of_limbs (replicate k 0) = 0" for k by (induction k) (simp_all add: of_limbs_def)
  show ?thesis
    using fold_exact [of "replicate n 0" 0 a] unfolding f [symmetric] z length_replicate by auto
qed

lemma from_mont:
  shows from_mont_cong: "(from_mont_n a p n0 n * 2 ^ (64 * n)) mod p = a mod p"
    and from_mont_lt: "a < 2 ^ (64 * n) \<Longrightarrow> from_mont_n a p n0 n < p"
proof -
  obtain M where M: "M < 2 ^ (64 * n)" "(mont_round p n0 0 0 ^^ n) a * 2 ^ (64 * n) = a + M * p"
    using unreduced_exact by blast
  show "(from_mont_n a p n0 n * 2 ^ (64 * n)) mod p = a mod p"
    unfolding from_mont_n_def Let_def by (rule reduce_once(1) [OF M(2,1)])
  assume "a < 2 ^ (64 * n)"
  also have "\<dots> \<le> 2 ^ (64 * n) * p" using p_pos by simp
  finally show "from_mont_n a p n0 n < p"
    unfolding from_mont_n_def Let_def by (rule reduce_once(2) [OF M(2,1)])
qed

end

context montgomery
begin

lemma R_inv: "\<exists>k. (2 ^ (64 * n) * k) mod p = 1 mod p"
proof -
  obtain k where k: "n0 * p + 1 = 2 ^ 64 * k" using inv by (elim dvdE)
  have base: "(2 ^ 64 * k) mod p = 1 mod p" 
    unfolding k [symmetric] by (simp only: mod_mult_self3)
  have "((2 ^ 64 * k) ^ n) mod p = 1 mod p"
    using power_mod [of "2 ^ 64 * k" p n] power_mod [of 1 p n] by (simp only: base power_one)
  then have "(2 ^ (64 * n) * k ^ n) mod p = 1 mod p" by (simp add: power_mult_distrib power_mult)
  then show ?thesis by blast
qed

lemma cancel_R:
  assumes "(x * 2 ^ (64 * n)) mod p = (y * 2 ^ (64 * n)) mod p"
  shows "x mod p = y mod p"
proof -
  obtain k where k: "(2 ^ (64 * n) * k) mod p = 1 mod p" using R_inv by blast
  have "z mod p = (z * 2 ^ (64 * n) mod p * k) mod p" for z
    using k by (metis mod_mult_left_eq mod_mult_right_eq mult.assoc mult.right_neutral)
  then show ?thesis using assms by metis
qed

text \<open>Multiplying by the square of the radix enters Montgomery form, and leaving it undoes that.\<close>

lemma from_to_mont:
  assumes "(RR :: nat) mod p = (2 ^ (64 * n) * 2 ^ (64 * n)) mod p" and "RR < p"
    and "x < 2 ^ (64 * n)"
  shows "mul_mont_n RR x p n0 n mod p = (x * 2 ^ (64 * n)) mod p"
    and "mul_mont_n RR x p n0 n < p"
proof -
  have "(mul_mont_n RR x p n0 n * 2 ^ (64 * n)) mod p = (RR mod p * x) mod p"
    using mul_mont_cong [OF assms(3)] by (simp add: mod_mult_left_eq)
  also have "\<dots> = (x * 2 ^ (64 * n) * 2 ^ (64 * n)) mod p"
    unfolding assms(1) mod_mult_left_eq by (simp only: ac_simps)
  finally show "mul_mont_n RR x p n0 n mod p = (x * 2 ^ (64 * n)) mod p" by (rule cancel_R)
  have "RR * x < 2 ^ (64 * n) * p"
    using mult_strict_mono [OF assms(2,3)] p_pos by (simp add: mult.commute)
  then show "mul_mont_n RR x p n0 n < p" by (rule mul_mont_lt [OF assms(3)])
qed

lemma from_mont_eq:
  assumes "y mod p = (x * 2 ^ (64 * n)) mod p" and "y < 2 ^ (64 * n)"
  shows "from_mont_n y p n0 n = x mod p"
proof -
  have "(from_mont_n y p n0 n * 2 ^ (64 * n)) mod p = (x * 2 ^ (64 * n)) mod p"
    by (simp only: from_mont_cong assms(1))
  then have "from_mont_n y p n0 n mod p = x mod p" by (rule cancel_R)
  with from_mont_lt [OF assms(2)] show ?thesis by simp
qed

lemma add_mod_value:
  assumes "a < p" and "b < 2 ^ (64 * n)"
  shows "add_mod_n a b p n = (if p \<le> a + b then a + b - p else a + b)"
proof -
  let ?R = "2 ^ (64 * n) :: nat"
  show ?thesis
  proof (cases "a + b < ?R")
    case True
    then have tmp: "(a + b) mod ?R = a + b" "(a + b) div ?R = 0" by simp_all
    show ?thesis
    proof (cases "p \<le> a + b")
      case le: True
      then have e: "a + b + ?R - p = (a + b - p) + ?R" by simp
      have "(a + b + ?R - p) mod ?R = a + b - p" unfolding e using True by simp
      with le show ?thesis unfolding add_mod_n_def Let_def tmp by (simp add: mask_select_def)
    next
      case False
      then show ?thesis unfolding add_mod_n_def Let_def tmp by (simp add: mask_select_def)
    qed
  next
    case False
    define d where "d = a + b - ?R"
    have ab: "a + b = d + ?R" using False by (simp add: d_def)
    have d: "d < p" "d < ?R" using assms p_lt by (simp_all add: d_def)
    have "(a + b) mod ?R = d" "(a + b) div ?R = 1"
      unfolding ab using d by (simp_all add: div_add_self2)
    moreover have "(d + ?R - p) mod ?R = a + b - p" unfolding ab using d p_lt by simp
    moreover have "p \<le> a + b" unfolding ab using p_lt by simp
    ultimately show ?thesis using d by (simp add: add_mod_n_def mask_select_def Let_def)
  qed
qed

lemma add_mod:
  assumes "a < p" and "b < 2 ^ (64 * n)"
  shows add_mod_cong: "add_mod_n a b p n mod p = (a + b) mod p"
    and add_mod_bound: "add_mod_n a b p n < 2 ^ (64 * n)"
    and add_mod_eq: "b < p \<Longrightarrow> add_mod_n a b p n = (a + b) mod p"
proof -
  note eq = add_mod_value [OF assms]
  have m: "(x - p) mod p = x mod p" if "p \<le> x" for x
    using that by (simp add: le_mod_geq)
  show "add_mod_n a b p n mod p = (a + b) mod p" unfolding eq by (simp add: m)
  show "add_mod_n a b p n < 2 ^ (64 * n)" unfolding eq using assms p_lt by auto
  show "add_mod_n a b p n = (a + b) mod p" if "b < p"
  proof (cases "p \<le> a + b")
    case True
    then have "a + b - p < p" using assms that by simp
    with True show ?thesis unfolding eq using m [of "a + b"] by simp
  qed (simp add: eq)
qed

text \<open>The reduction divides by the radix, and is complete if the high half is below the modulus.\<close>

lemma redc_mont:
  assumes "a < 2 ^ (64 * n) * 2 ^ (64 * n)" and "a div 2 ^ (64 * n) < p"
  shows redc_mont_cong: "(redc_mont_n a p n0 n * 2 ^ (64 * n)) mod p = a mod p"
    and redc_mont_lt: "redc_mont_n a p n0 n < p"
proof -
  let ?R = "2 ^ (64 * n) :: nat"
  define t where "t = (mont_round p n0 0 0 ^^ n) (a mod ?R)"
  obtain M where M: "M < ?R" "t * ?R = a mod ?R + M * p" using unreduced_exact unfolding t_def by blast
  have "t * ?R < ?R + ?R * p"
    unfolding M(2) using M(1) by (intro add_less_le_mono mult_right_mono) simp_all
  then have "t * ?R < (p + 1) * ?R" by (simp add: algebra_simps)
  then have t: "t \<le> p" by (simp only: mult_less_cancel2) simp
  have hi: "a div ?R mod ?R = a div ?R" using assms(1) by (simp add: less_mult_imp_div_less)
  have "redc_mont_n a p n0 n = add_mod_n (a div ?R) t p n"
    unfolding redc_mont_n_def add_mod_n_def Let_def t_def hi ..
  also have "\<dots> = (if p \<le> a div ?R + t then a div ?R + t - p else a div ?R + t)"
    by (rule add_mod_value [OF assms(2)]) (use t p_lt in linarith)
  finally have eq: "redc_mont_n a p n0 n = (if p \<le> a div ?R + t then a div ?R + t - p else a div ?R + t)" .
  show "redc_mont_n a p n0 n < p" unfolding eq using assms(2) t by auto
  have "redc_mont_n a p n0 n mod p = (a div ?R + t) mod p" unfolding eq by (simp add: le_mod_geq)
  then have "(redc_mont_n a p n0 n * ?R) mod p = ((a div ?R + t) * ?R) mod p" by (metis mod_mult_left_eq)
  also have "(a div ?R + t) * ?R = a + M * p"
    unfolding distrib_right M(2) using div_mult_mod_eq [of a ?R] by (metis add.assoc)
  also have "(a + M * p) mod p = a mod p" by simp
  finally show "(redc_mont_n a p n0 n * ?R) mod p = a mod p" .
qed

lemma sub_mod_eq:
  assumes "a < p" and "b < p"
  shows "sub_mod_n a b p n = (a + p - b) mod p"
proof (cases "a < b")
  case True
  then have m: "(a + 2 ^ (64 * n) - b) mod 2 ^ (64 * n) = a + 2 ^ (64 * n) - b" using assms p_lt by simp
  have e: "a + 2 ^ (64 * n) - b + p = (a + p - b) + 2 ^ (64 * n)" and lt: "a + p - b < 2 ^ (64 * n)"
    using True assms p_lt by linarith+
  have "(a + 2 ^ (64 * n) - b + p) mod 2 ^ (64 * n) = a + p - b" unfolding e using lt by simp
  with True assms show ?thesis unfolding sub_mod_n_def Let_def m by simp
next
  case False
  then have e: "a + 2 ^ (64 * n) - b = (a - b) + 2 ^ (64 * n)" "a + p - b = (a - b) + p"
    by simp_all
  have "a - b < 2 ^ (64 * n)" "a - b < p" using assms p_lt by linarith+
  then have "(a + 2 ^ (64 * n) - b) mod 2 ^ (64 * n) = a - b" "(a + p - b) mod p = a - b"
    unfolding e by simp_all
  with False show ?thesis unfolding sub_mod_n_def Let_def by simp
qed

end

lemma r0_inverse: "r0 * BLS12_381_r + 1 = 2 ^ 64 * 0x73eda752b5afd5f495aeb36cacca82b516e1f3f5a29edff6ac43fffd0001a403"
  by (simp add: BLS12_381_r_def r0_def)

lemma r_bounds: "0 < BLS12_381_r" "BLS12_381_r < 2 ^ 256"
  by (simp_all add: BLS12_381_r_def)

interpretation fr: montgomery BLS12_381_r r0 4
  using r_bounds by unfold_locales (simp_all only: r0_inverse dvd_triv_left, simp)

lemma rRR_split: "2 ^ 512 = BLS12_381_rRR + BLS12_381_r * 0x2355094edfede377c38b5dcb707e08ed365043eb4be4bad7142737a020c0d6393"
  by (simp add: BLS12_381_rRR_def BLS12_381_r_def)

lemma rRR: "BLS12_381_rRR mod BLS12_381_r = (2 ^ (64 * 4) * 2 ^ (64 * 4)) mod BLS12_381_r"
  "BLS12_381_rRR < BLS12_381_r"
proof -
  have "2 ^ (64 * 4) * 2 ^ (64 * 4) = (2 ^ 512 :: nat)" by (simp only: power_add [symmetric]) simp
  then show "BLS12_381_rRR mod BLS12_381_r = (2 ^ (64 * 4) * 2 ^ (64 * 4)) mod BLS12_381_r"
    by (simp only: rRR_split mod_mult_self2)
  show "BLS12_381_rRR < BLS12_381_r" by (simp add: BLS12_381_rRR_def BLS12_381_r_def)
qed

section \<open>Byte strings as scalars\<close>

lemma le_dec_append: "le_dec (xs @ ys) = le_dec xs + 256 ^ length xs * le_dec ys"
  by (induction xs) (simp_all add: algebra_simps)

lemma le_dec_bound: "le_dec bs < 256 ^ length bs"
proof (induction bs)
  case (Cons b bs)
  have "unat b < 256" using unsigned_less [of b] by simp
  with Cons show ?case by simp
qed simp

lemma le_dec_32: "length d = 32 \<Longrightarrow> le_dec d < 2 ^ (64 * 4)"
  using le_dec_bound [of d] by simp

lemma to_mont_step:
  assumes "out mod BLS12_381_r = (V * 2 ^ 256) mod BLS12_381_r" and "out < BLS12_381_r"
    and "d < 2 ^ 256"
  defines "out' \<equiv> mul_mont_256 BLS12_381_rRR (add_mod_256 out d)"
  shows "out' mod BLS12_381_r = ((V * 2 ^ 256 + d) * 2 ^ 256) mod BLS12_381_r" and "out' < BLS12_381_r"
proof -
  have d: "d < 2 ^ (64 * 4)" using assms(3) by simp
  note t = fr.from_to_mont [OF rRR fr.add_mod_bound [OF assms(2) d]]
  show "out' < BLS12_381_r" unfolding out'_def by (rule t(2))
  have "out' mod BLS12_381_r = (add_mod_256 out d mod BLS12_381_r * 2 ^ 256) mod BLS12_381_r"
    unfolding out'_def t(1) by (simp add: mod_mult_left_eq)
  also have "add_mod_256 out d mod BLS12_381_r = (out mod BLS12_381_r + d) mod BLS12_381_r"
    unfolding fr.add_mod_cong [OF assms(2) d] by (simp add: mod_add_left_eq)
  also have "\<dots> = (V * 2 ^ 256 + d) mod BLS12_381_r" unfolding assms(1) by (rule mod_add_left_eq)
  finally show "out' mod BLS12_381_r = ((V * 2 ^ 256 + d) * 2 ^ 256) mod BLS12_381_r"
    by (simp only: mod_mult_left_eq)
qed

lemma to_mont_first:
  assumes "d < 2 ^ 256"
  shows "mul_mont_256 BLS12_381_rRR d mod BLS12_381_r = (d * 2 ^ 256) mod BLS12_381_r"
    and "mul_mont_256 BLS12_381_rRR d < BLS12_381_r"
  using fr.from_to_mont [OF rRR, of d] assms by simp_all

lemma from_le_loop_value:
  assumes "n mod 32 = 0" and "n \<le> length bs"
    and "out mod BLS12_381_r = (V * 2 ^ 256) mod BLS12_381_r" and "out < BLS12_381_r"
  shows "\<exists>o'. from_le_loop bs n out = Some o' \<and> o' < BLS12_381_r \<and>
    o' mod BLS12_381_r = ((V * 256 ^ n + le_dec (take n bs)) * 2 ^ 256) mod BLS12_381_r"
  using assms
proof (induction n arbitrary: out V rule: less_induct)
  case (less n)
  show ?case
  proof (cases "n = 0")
    case False
    then have n: "32 \<le> n" "(n - 32) mod 32 = 0" using less.prems(1) by (auto simp: le_mod_geq dest: mod_less)
    define d where "d = take 32 (drop (n - 32) bs)"
    have d: "slice bs (n - 32) 32 = Some d" "length d = 32"
      using n less.prems(2) by (simp_all add: slice_def d_def)
    have split: "take n bs = take (n - 32) bs @ d"
      using n take_add [of "n - 32" 32 bs] by (simp add: d_def)
    define out' where "out' = mul_mont_256 BLS12_381_rRR (add_mod_256 out (le_dec d))"
    note step = to_mont_step [OF less.prems(3,4), of "le_dec d", folded out'_def]
    have "le_dec d < 2 ^ 256" using le_dec_32 [OF d(2)] by simp
    note step' = step [OF this]
    have lt: "n - 32 < n" "n - 32 \<le> length bs" using n less.prems(2) by simp_all
    obtain o' where o': "from_le_loop bs (n - 32) out' = Some o'" "o' < BLS12_381_r"
      "o' mod BLS12_381_r = (((V * 2 ^ 256 + le_dec d) * 256 ^ (n - 32) + le_dec (take (n - 32) bs)) * 2 ^ 256) mod BLS12_381_r"
      using less.IH [OF lt(1) n(2) lt(2) step'] by blast
    have "256 ^ n = 2 ^ 256 * (256 :: nat) ^ (n - 32)"
      using n power_add [of "256 :: nat" 32 "n - 32"] by simp
    then have "(V * 2 ^ 256 + le_dec d) * 256 ^ (n - 32) + le_dec (take (n - 32) bs) = V * 256 ^ n + le_dec (take n bs)"
      using n less.prems(2) by (simp add: split le_dec_append algebra_simps)
    then have "o' mod BLS12_381_r = ((V * 256 ^ n + le_dec (take n bs)) * 2 ^ 256) mod BLS12_381_r"
      unfolding o'(3) by simp
    moreover have "from_le_loop bs n out = Some o'"
      using n d o'(1) by (subst from_le_loop.simps) (simp add: out'_def)
    ultimately show ?thesis using o'(2) by blast
  qed (use less.prems in \<open>simp add: from_le_loop.simps\<close>)
qed

lemma size_split:
  assumes "0 < n" and "n < 2 ^ 64"
  shows "sub64 n 1 mod 32 + 1 \<le> n" "sub64 n 1 mod 32 + 1 \<le> 32"
    and "sub64 n (sub64 n 1 mod 32 + 1) = n - (sub64 n 1 mod 32 + 1)"
    and "(n - (sub64 n 1 mod 32 + 1)) mod 32 = 0"
proof -
  have e: "n + 2 ^ 64 - k = (n - k) + 2 ^ 64" if "k \<le> n" for k using that by simp
  have s: "sub64 n k = n - k" if "k \<le> n" for k
    unfolding sub64_def e [OF that] mod_add_self2 using assms(2) by simp
  have s1: "sub64 n 1 = n - 1" using assms by (intro s) simp
  have le: "(n - 1) mod 32 + 1 \<le> n" using assms(1) mod_less_eq_dividend [of "n - 1" 32] by linarith
  then show "sub64 n 1 mod 32 + 1 \<le> n" unfolding s1 .
  show "sub64 n 1 mod 32 + 1 \<le> 32" by (simp add: Suc_le_eq)
  show "sub64 n (sub64 n 1 mod 32 + 1) = n - (sub64 n 1 mod 32 + 1)" unfolding s1 by (rule s [OF le])
  have "n - ((n - 1) mod 32 + 1) = (n - 1) div 32 * 32"
    using minus_mod_eq_div_mult [of "n - 1" 32] by simp
  then show "(n - (sub64 n 1 mod 32 + 1)) mod 32 = 0" unfolding s1 by simp
qed

lemma scalar_from_le_bytes_value:
  assumes "bs \<noteq> []" and "length bs < 2 ^ 64"
  shows "blst_scalar_from_le_bytes bs =
    Some (le_dec bs mod BLS12_381_r, le_dec bs mod BLS12_381_r \<noteq> 0)"
proof -
  define k where "k = sub64 (length bs) 1 mod 32 + 1"
  note sz = size_split [of "length bs", folded k_def]
  define m where "m = length bs - k"
  have k: "k \<le> length bs" "k \<le> 32" "sub64 (length bs) k = m" "m mod 32 = 0" "m + k = length bs"
    using sz assms by (auto simp: m_def)
  define hi where "hi = drop m bs"
  have hi: "slice bs m k = Some hi" "length hi = k" using k by (simp_all add: slice_def hi_def)
  have "le_dec hi < 256 ^ k" using le_dec_bound [of hi] hi by simp
  also have "\<dots> \<le> 256 ^ 32" using k by (intro power_increasing) simp_all
  finally have "le_dec hi < 2 ^ 256" by simp
  note first = to_mont_first [OF this]
  obtain o' where o': "from_le_loop bs m (mul_mont_256 BLS12_381_rRR (le_dec hi)) = Some o'" "o' < BLS12_381_r"
    "o' mod BLS12_381_r = ((le_dec hi * 256 ^ m + le_dec (take m bs)) * 2 ^ 256) mod BLS12_381_r"
    using from_le_loop_value [OF k(4) _ first, of bs] k(5) le_add1 by metis
  have "le_dec hi * 256 ^ m + le_dec (take m bs) = le_dec bs"
    using le_dec_append [of "take m bs" hi] k by (simp add: hi_def mult.commute)
  moreover have "o' < 2 ^ (64 * 4)" using o'(2) r_bounds(2) by simp
  ultimately have "from_mont_256 o' = le_dec bs mod BLS12_381_r"
    using fr.from_mont_eq [of o' "le_dec bs"] o'(3) by simp
  then show ?thesis
    unfolding blst_scalar_from_le_bytes_def Let_def k_def [symmetric] k(3) hi(1) using o'(1) by simp
qed

lemma be_dec_append: "be_dec (xs @ ys) = be_dec xs * 256 ^ length ys + be_dec ys"
  by (simp add: be_dec_def le_dec_append mult.commute)

lemma be_dec_bound: "be_dec bs < 256 ^ length bs"
  using le_dec_bound [of "rev bs"] by (simp add: be_dec_def)

lemma from_be_loop_value:
  assumes "n mod 32 = 0" and "n \<le> length bs"
    and "out mod BLS12_381_r = (V * 2 ^ 256) mod BLS12_381_r" and "out < BLS12_381_r"
  shows "\<exists>o'. from_be_loop bs n out = Some o' \<and> o' < BLS12_381_r \<and>
    o' mod BLS12_381_r = ((V * 256 ^ n + be_dec (drop (length bs - n) bs)) * 2 ^ 256) mod BLS12_381_r"
  using assms
proof (induction n arbitrary: out V rule: less_induct)
  case (less n)
  show ?case
  proof (cases "n = 0")
    case False
    then have n: "32 \<le> n" "(n - 32) mod 32 = 0" using less.prems(1) by (auto simp: le_mod_geq dest: mod_less)
    define d where "d = take 32 (drop (length bs - n) bs)"
    have d: "slice bs (length bs - n) 32 = Some d" "length d = 32"
      using n less.prems(2) by (simp_all add: slice_def d_def)
    have "drop (length bs - (n - 32)) bs = drop 32 (drop (length bs - n) bs)"
      using n less.prems(2) by (simp add: add.commute)
    then have split: "drop (length bs - n) bs = d @ drop (length bs - (n - 32)) bs"
      by (simp add: d_def del: drop_drop)
    define out' where "out' = mul_mont_256 BLS12_381_rRR (add_mod_256 out (be_dec d))"
    note step = to_mont_step [OF less.prems(3,4), of "be_dec d", folded out'_def]
    have "be_dec d < 2 ^ 256" using be_dec_bound [of d] d(2) by simp
    note step' = step [OF this]
    have lt: "n - 32 < n" "n - 32 \<le> length bs" using n less.prems(2) by simp_all
    obtain o' where o': "from_be_loop bs (n - 32) out' = Some o'" "o' < BLS12_381_r"
      "o' mod BLS12_381_r = (((V * 2 ^ 256 + be_dec d) * 256 ^ (n - 32) + be_dec (drop (length bs - (n - 32)) bs)) * 2 ^ 256) mod BLS12_381_r"
      using less.IH [OF lt(1) n(2) lt(2) step'] by blast
    have "256 ^ n = 2 ^ 256 * (256 :: nat) ^ (n - 32)"
      using n power_add [of "256 :: nat" 32 "n - 32"] by simp
    moreover have "length (drop (length bs - (n - 32)) bs) = n - 32" using lt by simp
    ultimately have "(V * 2 ^ 256 + be_dec d) * 256 ^ (n - 32) + be_dec (drop (length bs - (n - 32)) bs)
      = V * 256 ^ n + be_dec (drop (length bs - n) bs)"
      unfolding split be_dec_append by (simp add: algebra_simps)
    then have "o' mod BLS12_381_r = ((V * 256 ^ n + be_dec (drop (length bs - n) bs)) * 2 ^ 256) mod BLS12_381_r"
      unfolding o'(3) by simp
    moreover have "from_be_loop bs n out = Some o'"
      using n d o'(1) by (subst from_be_loop.simps) (simp add: out'_def)
    ultimately show ?thesis using o'(2) by blast
  qed (use less.prems in \<open>simp add: from_be_loop.simps be_dec_def\<close>)
qed

lemma scalar_from_be_bytes_value:
  assumes "bs \<noteq> []" and "length bs < 2 ^ 64"
  shows "blst_scalar_from_be_bytes bs =
    Some (be_dec bs mod BLS12_381_r, be_dec bs mod BLS12_381_r \<noteq> 0)"
proof -
  define k where "k = sub64 (length bs) 1 mod 32 + 1"
  note sz = size_split [of "length bs", folded k_def]
  define m where "m = length bs - k"
  have k: "k \<le> length bs" "k \<le> 32" "sub64 (length bs) k = m" "m mod 32 = 0" "k + m = length bs"
    using sz assms by (auto simp: m_def)
  define hi where "hi = take k bs"
  have hi: "slice bs 0 k = Some hi" "length hi = k" using k by (simp_all add: slice_def hi_def)
  have "be_dec hi < 256 ^ k" using be_dec_bound [of hi] hi by simp
  also have "\<dots> \<le> 256 ^ 32" using k by (intro power_increasing) simp_all
  finally have "be_dec hi < 2 ^ 256" by simp
  note first = to_mont_first [OF this]
  obtain o' where o': "from_be_loop bs m (mul_mont_256 BLS12_381_rRR (be_dec hi)) = Some o'" "o' < BLS12_381_r"
    "o' mod BLS12_381_r = ((be_dec hi * 256 ^ m + be_dec (drop (length bs - m) bs)) * 2 ^ 256) mod BLS12_381_r"
    using from_be_loop_value [OF k(4) _ first, of bs] k(5) le_add2 by metis
  have lm: "length bs - m = k" "length (drop k bs) = m" using k(5) by simp_all
  then have "be_dec hi * 256 ^ m + be_dec (drop (length bs - m) bs) = be_dec bs"
    using be_dec_append [of hi "drop k bs"] by (simp add: hi_def)
  moreover have "o' < 2 ^ (64 * 4)" using o'(2) r_bounds(2) by simp
  ultimately have "from_mont_256 o' = be_dec bs mod BLS12_381_r"
    using fr.from_mont_eq [of o' "be_dec bs"] o'(3) by simp
  then show ?thesis
    unfolding blst_scalar_from_be_bytes_def Let_def k_def [symmetric] k(3) hi(1) using o'(1) by simp
qed

lemma scalar_of_nothing:
  "blst_scalar_from_le_bytes [] = None" "blst_scalar_from_be_bytes [] = None"
  by (simp_all add: blst_scalar_from_le_bytes_def blst_scalar_from_be_bytes_def sub64_def slice_def)

lemma sk_mul_value:
  assumes "a < 2 ^ 256" and "b < 2 ^ 256"
  shows "blst_sk_mul_n_check a b = ((a * b) mod BLS12_381_r, (a * b) mod BLS12_381_r \<noteq> 0)"
proof -
  define t where "t = mul_mont_256 BLS12_381_rRR a"
  note t = to_mont_first [OF assms(1), folded t_def]
  have b: "b < 2 ^ (64 * 4)" using assms(2) by simp
  have "t * b < 2 ^ (64 * 4) * BLS12_381_r"
    using mult_strict_mono [OF t(2) b] r_bounds by (simp add: mult.commute)
  then have lt: "mul_mont_256 t b < BLS12_381_r" by (rule fr.mul_mont_lt [OF b])
  have "(mul_mont_256 t b * 2 ^ (64 * 4)) mod BLS12_381_r = (t mod BLS12_381_r * b) mod BLS12_381_r"
    unfolding fr.mul_mont_cong [OF b] by (simp only: mod_mult_left_eq)
  also have "\<dots> = (a * 2 ^ 256 * b) mod BLS12_381_r" unfolding t(1) by (rule mod_mult_left_eq)
  also have "a * 2 ^ 256 * b = (a * b) * 2 ^ (64 * 4)" by simp
  finally have "mul_mont_256 t b mod BLS12_381_r = (a * b) mod BLS12_381_r" by (rule fr.cancel_R)
  with lt show ?thesis by (simp add: blst_sk_mul_n_check_def Let_def t_def)
qed

section \<open>What the classes compute\<close>

text \<open>
  C21. A non-empty byte string of any length becomes the scalar it denotes modulo the group order,
  little-endian in the constructor and \<^verbatim>\<open>from_lendian\<close>, big-endian in \<^verbatim>\<open>from_bendian\<close>.
  An empty one is not refused: the length of the first digit wraps around and the C code reads
  outside the buffer.
\<close>

theorem Scalar_of_byte_strings:
  assumes "length b < 2 ^ 64"
  shows "Scalar_of_bytes b = (if b = [] then Inl Fault else Inr (Scalar (le_dec b mod BLS12_381_r))) \<and>
    Scalar_from_lendian s b = (if b = [] then Inl Fault else Inr (Scalar (le_dec b mod BLS12_381_r))) \<and>
    Scalar_from_bendian s b = (if b = [] then Inl Fault else Inr (Scalar (be_dec b mod BLS12_381_r)))"
  using scalar_from_le_bytes_value [OF _ assms] scalar_from_be_bytes_value [OF _ assms]
  by (simp add: Scalar_of_bytes_def Scalar_from_lendian_def Scalar_from_bendian_def scalar_or_fault_def
      scalar_of_nothing)

theorem Scalar_of_byte_strings_witness:
  "Scalar_of_bytes [1, 2] = Inr (Scalar 513) \<and> Scalar_from_bendian Scalar_new [1, 2] = Inr (Scalar 258) \<and>
   Scalar_from_lendian Scalar_new [] = Inl Fault"
proof -
  have "le_dec [1, 2] mod BLS12_381_r = 513" "be_dec [1, 2] mod BLS12_381_r = 258"
    by (simp_all add: be_dec_def BLS12_381_r_def)
  moreover have "length [1, 2 :: byte] < 2 ^ 64" "length ([] :: bytes) < 2 ^ 64" by simp_all
  ultimately show ?thesis
    using Scalar_of_byte_strings [of "[1, 2]" Scalar_new] Scalar_of_byte_strings [of "[]" Scalar_new] by simp
qed

lemma bad_scalar_faults: "blst_throw BLST_BAD_SCALAR = Inl Fault"
  by (simp add: blst_throw_def BLST_ERROR_code_def BLST_ERROR_str_def)

text \<open>
  C22. On reduced scalars \<^verbatim>\<open>add\<close>, \<^verbatim>\<open>sub\<close> and \<^verbatim>\<open>mul\<close> are addition, subtraction and
  multiplication modulo the group order whenever the result is not zero. On a zero result the C++
  code throws \<^verbatim>\<open>BLST_BAD_SCALAR\<close>, whose code is past the end of the message table of the SWIG
  interface, so that the wrapper reads outside the table.
\<close>

theorem Scalar_arithmetic:
  assumes "sc_val s < BLS12_381_r" and "sc_val t < BLS12_381_r"
  defines "sm \<equiv> (sc_val s + sc_val t) mod BLS12_381_r"
    and "df \<equiv> (sc_val s + BLS12_381_r - sc_val t) mod BLS12_381_r"
    and "pr \<equiv> (sc_val s * sc_val t) mod BLS12_381_r"
  shows "Scalar_add s (Inl t) = (if sm = 0 then Inl Fault else Inr (Scalar sm)) \<and>
    Scalar_sub s t = (if df = 0 then Inl Fault else Inr (Scalar df)) \<and>
    Scalar_mul s t = (if pr = 0 then Inl Fault else Inr (Scalar pr))"
proof -
  have lt: "sc_val s < 2 ^ 256" "sc_val t < 2 ^ 256" "sc_val t < 2 ^ (64 * 4)"
    using assms(1,2) r_bounds(2) by simp_all
  show ?thesis
    using fr.add_mod_eq [OF assms(1) lt(3) assms(2)] fr.sub_mod_eq [OF assms(1,2)] sk_mul_value [OF lt(1,2)]
    by (simp add: Scalar_add_def Scalar_sub_def Scalar_mul_def blst_sk_add_n_check_def
        blst_sk_sub_n_check_def checked_scalar_def bad_scalar_faults Let_def sm_def df_def pr_def)
qed

theorem Scalar_arithmetic_witness:
  "Scalar_add (Scalar 5) (Inl (Scalar 7)) = Inr (Scalar 12) \<and> Scalar_sub (Scalar 7) (Scalar 7) = Inl Fault \<and>
   Scalar_mul (Scalar 5) (Scalar 7) = Inr (Scalar 35)"
  using Scalar_arithmetic [of "Scalar 5" "Scalar 7"] Scalar_arithmetic [of "Scalar 7" "Scalar 7"]
  by (simp add: BLS12_381_r_def)

lemma be_dec_enc: "x < 256 ^ n \<Longrightarrow> be_dec (be_enc n x) = x"
  by (simp add: be_dec_def be_enc_def)

lemma length_be_enc [simp]: "length (be_enc n x) = n"
  by (simp add: be_enc_def)

text \<open>
  Storing a secret key in either byte order and loading it again gives the same key, for any
  256-bit value and whatever the key object held before; a buffer that has not 32 bytes is refused.
\<close>

theorem SecretKey_bytes_roundtrip:
  assumes "sk_key sk < 2 ^ 256"
  shows "SecretKey_from_bendian old (SecretKey_to_bendian sk) = Inr sk \<and>
    SecretKey_from_lendian old (SecretKey_to_lendian sk) = Inr sk \<and>
    SecretKey_to_bendian sk = rev (SecretKey_to_lendian sk) \<and>
    (length b \<noteq> 32 \<longrightarrow> (\<exists>e. SecretKey_from_bendian old b = Inl e) \<and> (\<exists>e. SecretKey_from_lendian old b = Inl e))"
  using assms
  by (simp add: SecretKey_from_bendian_def SecretKey_from_lendian_def SecretKey_to_bendian_def
      SecretKey_to_lendian_def expect_32_def be_dec_enc be_enc_def [symmetric] SecretKey.expand)

theorem SecretKey_bytes_roundtrip_witness:
  "SecretKey_from_bendian SecretKey_new (SecretKey_to_bendian (SecretKey 1234567)) = Inr (SecretKey 1234567)"
proof -
  have "sk_key (SecretKey 1234567) < 2 ^ 256" by simp
  from SecretKey_bytes_roundtrip [OF this, of SecretKey_new "[]"] show ?thesis by (rule conjunct1)
qed

end
