(* ===== verification/BlstKeygen.thy ===== *)
theory BlstKeygen
  imports Sha256 BlstScalar
begin

text \<open>
  Key derivation (blst/src/keygen.c): HMAC and HKDF over SHA-256, the generation of a secret key
  from a seed, and the hierarchical derivation of EIP-2333. The references are the functions of the
  RFCs and of the drafts the code names. The loop of the key generation may in principle not end; it
  is a partial function, and not returning is \<^const>\<open>None\<close>. The memory the contexts start with is
  an argument. Like the streaming interface, every function takes the compression of one block.
\<close>

type_synonym compression = "u32 list \<Rightarrow> bytes \<Rightarrow> u32 list"

section \<open>HMAC\<close>

record HMAC_SHA256_CTX =
  hm_ctx :: SHA256_CTX
  h_ipad :: "u32 list"
  h_opad :: "u32 list"
  hm_tail :: bytes

text \<open>A key of \<^const>\<open>None\<close> is the null pointer: start again under the key of the last call.\<close>

definition HMAC_init :: "compression \<Rightarrow> HMAC_SHA256_CTX \<Rightarrow> bytes option \<Rightarrow> HMAC_SHA256_CTX" where
  "HMAC_init blk ctx K =
     (case K of
        None \<Rightarrow> ctx\<lparr>hm_ctx := \<lparr>sha_h = h_ipad ctx, sha_N = 64, sha_buf = replicate 64 0, sha_off = 0\<rparr>\<rparr>
      | Some K \<Rightarrow>
          let tail = replicate 64 0;
              tail = (if 64 < length K then sha256_bcopy tail 0 (snd (sha256_final blk (sha256_update blk sha256_init K)))
                      else sha256_bcopy tail 0 K);
              tail = map (\<lambda>b. b XOR 0x36) tail;
              inner = sha256_update blk sha256_init tail;
              tail = map (\<lambda>b. b XOR (0x36 XOR 0x5c)) tail;
              outer = sha256_blocks blk sha256_init_h tail 1
          in \<lparr>hm_ctx = inner, h_ipad = sha_h inner, h_opad = outer,
              hm_tail = (replicate 64 0)[32 := 0x80, 62 := 3, 63 := 0]\<rparr>)"

definition HMAC_update :: "compression \<Rightarrow> HMAC_SHA256_CTX \<Rightarrow> bytes \<Rightarrow> HMAC_SHA256_CTX" where
  "HMAC_update blk ctx inp = ctx\<lparr>hm_ctx := sha256_update blk (hm_ctx ctx) inp\<rparr>"

definition HMAC_final :: "compression \<Rightarrow> HMAC_SHA256_CTX \<Rightarrow> HMAC_SHA256_CTX \<times> bytes" where
  "HMAC_final blk ctx =
     (let (inner, md) = sha256_final blk (hm_ctx ctx); tail = sha256_bcopy (hm_tail ctx) 0 md;
          h = sha256_blocks blk (h_opad ctx) tail 1
      in (ctx\<lparr>hm_ctx := inner\<lparr>sha_h := h\<rparr>, hm_tail := tail\<rparr>, sha256_emit h))"

section \<open>HKDF\<close>

definition HKDF_Extract :: "compression \<Rightarrow> HMAC_SHA256_CTX \<Rightarrow> bytes option \<Rightarrow> bytes \<Rightarrow> bool \<Rightarrow> HMAC_SHA256_CTX \<times> bytes" where
  "HKDF_Extract blk ctx salt IKM IKM_fixup =
     (let ctx = HMAC_init blk ctx (Some (case salt of Some s \<Rightarrow> s | None \<Rightarrow> []));
          ctx = HMAC_update blk ctx IKM;
          ctx = (if IKM_fixup then HMAC_update blk ctx [0] else ctx)
      in HMAC_final blk ctx)"

text \<open>The digest is written over the start of the tail, where the next round reads it.\<close>

definition HMAC_final_tail :: "compression \<Rightarrow> HMAC_SHA256_CTX \<Rightarrow> HMAC_SHA256_CTX" where
  "HMAC_final_tail blk ctx =
     (let (ctx, md) = HMAC_final blk ctx in ctx\<lparr>hm_tail := sha256_bcopy (hm_tail ctx) 0 md\<rparr>)"

function HKDF_Expand_loop :: "compression \<Rightarrow> HMAC_SHA256_CTX \<Rightarrow> bytes \<Rightarrow> byte \<Rightarrow> nat \<Rightarrow> HMAC_SHA256_CTX \<times> bytes" where
  "HKDF_Expand_loop blk ctx info counter L =
     (if 32 < L then
        let okm = take 32 (hm_tail ctx);
            counter = counter + 1;
            ctx = HMAC_init blk ctx None;
            ctx = HMAC_update blk ctx (take 32 (hm_tail ctx));
            ctx = HMAC_update blk ctx (info @ [counter]);
            ctx = HMAC_final_tail blk ctx;
            (ctx, more) = HKDF_Expand_loop blk ctx info counter (L - 32)
        in (ctx, okm @ more)
      else (ctx, take L (hm_tail ctx)))"
  by pat_completeness auto
termination by (relation "measure (\<lambda>(blk, ctx, info, counter, L). L)") auto

declare HKDF_Expand_loop.simps [simp del]

definition HKDF_Expand :: "compression \<Rightarrow> HMAC_SHA256_CTX \<Rightarrow> nat \<Rightarrow> bytes \<Rightarrow> bytes \<Rightarrow> bool \<Rightarrow> HMAC_SHA256_CTX \<times> bytes" where
  "HKDF_Expand blk ctx L PRK info info_fixup =
     (let ctx = HMAC_init blk ctx (Some PRK);
          info = (if info_fixup then info @ [of_nat (L div 256), of_nat L] else info);
          ctx = HMAC_update blk ctx (info @ [1]);
          ctx = HMAC_final_tail blk ctx
      in HKDF_Expand_loop blk ctx info 1 L)"

section \<open>Key generation\<close>

definition key_of_OKM :: "bytes \<Rightarrow> nat" where
  "key_of_OKM OKM = mul_mont_256 (redc_mont_n (be_dec OKM) BLS12_381_r r0 4) BLS12_381_rRR"

definition keygen_try :: "compression \<Rightarrow> HMAC_SHA256_CTX \<Rightarrow> bytes \<Rightarrow> bytes \<Rightarrow> bytes \<Rightarrow> HMAC_SHA256_CTX \<times> nat" where
  "keygen_try blk ctx salt IKM info =
     (let (ctx, PRK) = HKDF_Extract blk ctx (Some salt) IKM True;
          (ctx, OKM) = HKDF_Expand blk ctx 48 PRK info True
      in (ctx, key_of_OKM OKM))"

partial_function (option) keygen_loop ::
    "compression \<Rightarrow> HMAC_SHA256_CTX \<Rightarrow> bytes \<Rightarrow> bytes \<Rightarrow> bytes \<Rightarrow> int \<Rightarrow> nat option" where
  "keygen_loop blk ctx salt IKM info version =
     (let r = keygen_try blk ctx salt IKM info
      in if version < 4 \<or> snd r \<noteq> 0 then Some (snd r)
         else let (inner, salt) = sha256_final blk (sha256_update blk sha256_init salt)
              in keygen_loop blk ((fst r)\<lparr>hm_ctx := inner\<rparr>) salt IKM info version)"

text \<open>\<^verbatim>\<open>BLS-SIG-KEYGEN-SALT-\<close>\<close>

definition keygen_salt :: bytes where
  "keygen_salt = [66, 76, 83, 45, 83, 73, 71, 45, 75, 69, 89, 71, 69, 78, 45, 83, 65, 76, 84, 45]"

definition keygen :: "compression \<Rightarrow> HMAC_SHA256_CTX \<Rightarrow> bytes \<Rightarrow> bytes option \<Rightarrow> bytes option \<Rightarrow> int \<Rightarrow> nat option" where
  "keygen blk mem IKM salt info version =
     (if length IKM < 32 \<or> (4 < version \<and> salt = None) then Some 0
      else
        let info = (case info of None \<Rightarrow> [] | Some i \<Rightarrow> i);
            salt = (case salt of None \<Rightarrow> keygen_salt | Some s \<Rightarrow> s)
        in if version = 4 then
             let (inner, salt) = sha256_final blk (sha256_update blk sha256_init salt)
             in keygen_loop blk (mem\<lparr>hm_ctx := inner\<rparr>) salt IKM info version
           else keygen_loop blk mem salt IKM info version)"

definition blst_keygen :: "compression \<Rightarrow> HMAC_SHA256_CTX \<Rightarrow> bytes \<Rightarrow> bytes option \<Rightarrow> nat option" where
  "blst_keygen blk mem IKM info = keygen blk mem IKM None info 4"

definition blst_keygen_v3 :: "compression \<Rightarrow> HMAC_SHA256_CTX \<Rightarrow> bytes \<Rightarrow> bytes option \<Rightarrow> nat option" where
  "blst_keygen_v3 blk mem IKM info = keygen blk mem IKM None info 3"

definition blst_keygen_v4_5 :: "compression \<Rightarrow> HMAC_SHA256_CTX \<Rightarrow> bytes \<Rightarrow> bytes option \<Rightarrow> bytes option \<Rightarrow> nat option" where
  "blst_keygen_v4_5 blk mem IKM salt info = keygen blk mem IKM salt info 4"

definition blst_keygen_v5 :: "compression \<Rightarrow> HMAC_SHA256_CTX \<Rightarrow> bytes \<Rightarrow> bytes option \<Rightarrow> bytes option \<Rightarrow> nat option" where
  "blst_keygen_v5 blk mem IKM salt info = keygen blk mem IKM salt info 5"

definition blst_derive_master_eip2333 :: "compression \<Rightarrow> HMAC_SHA256_CTX \<Rightarrow> bytes \<Rightarrow> nat option" where
  "blst_derive_master_eip2333 blk mem seed = keygen blk mem seed None None 4"

section \<open>Child keys\<close>

text \<open>
  The 255 chunks are hashed one block each: the chunk is copied into a buffer that already holds the
  padding of a 32-byte message.
\<close>

definition lamport_hash :: "compression \<Rightarrow> bytes \<Rightarrow> bytes" where
  "lamport_hash blk lamport_i =
     (let buf = (replicate 64 0)[32 := 0x80, 62 := 1, 63 := 0]
      in sha256_emit (sha256_blocks blk sha256_init_h (sha256_bcopy buf 0 lamport_i) 1))"

fun chunks32 :: "nat \<Rightarrow> bytes \<Rightarrow> bytes list" where
  "chunks32 0 bs = []"
| "chunks32 (Suc n) bs = take 32 bs # chunks32 n (drop 32 bs)"

definition IKM_to_lamport :: "compression \<Rightarrow> HMAC_SHA256_CTX \<Rightarrow> bytes \<Rightarrow> bytes \<Rightarrow> HMAC_SHA256_CTX \<times> bytes" where
  "IKM_to_lamport blk ctx salt IKM =
     (let (ctx, PRK) = HKDF_Extract blk ctx (Some salt) IKM False;
          (ctx, lamport) = HKDF_Expand blk ctx (255 * 32) PRK [] False
      in (ctx, concat (map (lamport_hash blk) (chunks32 255 lamport))))"

definition parent_SK_to_lamport_PK :: "compression \<Rightarrow> HMAC_SHA256_CTX \<Rightarrow> nat \<Rightarrow> u32 \<Rightarrow> bytes" where
  "parent_SK_to_lamport_PK blk mem parent_SK index =
     (let salt = TOBE32 index; IKM = rev (le_enc 32 parent_SK);
          (ctx, lamport) = IKM_to_lamport blk mem salt IKM;
          ret = sha256_update blk sha256_init lamport;
          (ctx, lamport) = IKM_to_lamport blk ctx salt (map (\<lambda>b. NOT b) IKM);
          ret = sha256_update blk ret lamport
      in snd (sha256_final blk ret))"

definition blst_derive_child_eip2333 :: "compression \<Rightarrow> HMAC_SHA256_CTX \<Rightarrow> nat \<Rightarrow> u32 \<Rightarrow> nat option" where
  "blst_derive_child_eip2333 blk mem parent_SK child_index =
     keygen blk mem (parent_SK_to_lamport_PK blk mem parent_SK child_index) None None 4"

section \<open>The references\<close>

text \<open>RFC 2104, RFC 5869, the BLS signature draft and EIP-2333.\<close>

definition hmac_key :: "compression \<Rightarrow> bytes \<Rightarrow> bytes" where
  "hmac_key blk K = (let K = (if 64 < length K then sha256_spec blk K else K) in K @ replicate (64 - length K) 0)"

definition hmac_spec :: "compression \<Rightarrow> bytes \<Rightarrow> bytes \<Rightarrow> bytes" where
  "hmac_spec blk K m =
     sha256_spec blk (map (\<lambda>b. b XOR 0x5c) (hmac_key blk K) @ sha256_spec blk (map (\<lambda>b. b XOR 0x36) (hmac_key blk K) @ m))"

fun hkdf_T :: "compression \<Rightarrow> bytes \<Rightarrow> bytes \<Rightarrow> nat \<Rightarrow> bytes" where
  "hkdf_T blk PRK info 0 = []"
| "hkdf_T blk PRK info (Suc i) = hmac_spec blk PRK (hkdf_T blk PRK info i @ info @ [of_nat (Suc i)])"

definition hkdf_expand_spec :: "compression \<Rightarrow> bytes \<Rightarrow> bytes \<Rightarrow> nat \<Rightarrow> bytes" where
  "hkdf_expand_spec blk PRK info L = take L (concat (map (hkdf_T blk PRK info) [1..<Suc ((L + 31) div 32)]))"

definition keygen_candidate :: "compression \<Rightarrow> bytes \<Rightarrow> bytes \<Rightarrow> bytes \<Rightarrow> nat" where
  "keygen_candidate blk salt IKM info =
     be_dec (hkdf_expand_spec blk (hmac_spec blk salt (IKM @ [0])) (info @ [0, 48]) 48) mod BLS12_381_r"

definition lamport_spec :: "compression \<Rightarrow> bytes \<Rightarrow> bytes \<Rightarrow> bytes" where
  "lamport_spec blk salt IKM =
     concat (map (sha256_spec blk) (chunks32 255 (hkdf_expand_spec blk (hmac_spec blk salt IKM) [] (255 * 32))))"

definition lamport_PK_spec :: "compression \<Rightarrow> nat \<Rightarrow> u32 \<Rightarrow> bytes" where
  "lamport_PK_spec blk parent_SK index =
     (let IKM = be_enc 32 parent_SK
      in sha256_spec blk (lamport_spec blk (TOBE32 index) IKM @ lamport_spec blk (TOBE32 index) (map (\<lambda>b. NOT b) IKM)))"

section \<open>HMAC is that of RFC 2104\<close>

definition hmac_tail :: bytes where
  "hmac_tail = (0x80 # replicate 29 0) @ [3, 0]"

lemma length_hmac_tail: "length hmac_tail = 32"
  by (simp add: hmac_tail_def)

lemma hmac_tail_template: "(replicate 64 0)[32 := 0x80, 62 := 3, 63 := 0] = replicate 32 0 @ hmac_tail"
  by (simp add: hmac_tail_def numeral_eq_Suc)

lemma sha_pad_96: "sha_pad 96 = hmac_tail"
  by code_simp

lemma sha_pad_32: "sha_pad 32 = (0x80 # replicate 29 0) @ [1, 0]"
  by code_simp

lemma length_sha_pad: "length (sha_pad n) = (if n mod 64 \<le> 55 then 64 - n mod 64 else 128 - n mod 64)"
  using mod_less_divisor [of 64 n] by (simp add: sha_pad_def Let_def pad_zeros del: mod_less_divisor)

text \<open>The last block of a message of a whole number of blocks and 32 bytes.\<close>

lemma sha256_spec_32:
  assumes "length m = 64 * k" and "length d = 32"
  shows "sha256_spec blk (m @ d) = sha256_emit (sha256_blocks blk (sha256_blocks blk sha256_init_h m k) (d @ sha_pad (64 * k + 32)) 1)"
proof -
  have r: "sha_repr blk (sha256_update blk sha256_init (m @ d)) (m @ d)"
    using sha256_update_repr [OF sha_repr_init, of blk "m @ d"] by simp
  have len: "length (m @ d) = 64 * k + 32" using assms by simp
  have "sha_rest (m @ d) = d" and dv: "length (m @ d) div 64 = k"
    using assms by (simp_all add: sha_rest_def)
  then have "sha256_spec blk (m @ d) = sha256_emit (sha256_blocks blk (sha_h (sha256_update blk sha256_init (m @ d))) (d @ sha_pad (64 * k + 32)) 1)"
    by (intro sha256_spec_last [OF r]) (use assms len in \<open>simp_all add: length_sha_pad\<close>)
  also have "sha_h (sha256_update blk sha256_init (m @ d)) = sha256_blocks blk sha256_init_h m k"
    unfolding sha_reprD(1) [OF r] dv using assms by (simp add: sha256_blocks_append)
  finally show ?thesis .
qed

locale compression_function =
  fixes blk :: compression
  assumes out: "length (blk v d) = 8"
begin

lemma blocks_length: "length v = 8 \<Longrightarrow> length (sha256_blocks blk v d n) = 8"
  by (induction n arbitrary: v d) (simp_all add: out)

lemma length_spec: "length (sha256_spec blk m) = 32"
  using blocks_length [of sha256_init_h] by (simp add: sha256_spec_def Let_def length_sha256_emit sha256_init_h_def)

lemma length_hmac_key: "length (hmac_key blk K) = 64"
  by (simp add: hmac_key_def Let_def length_spec)

definition ipad :: "bytes \<Rightarrow> bytes" where
  "ipad K = map (\<lambda>b. b XOR 0x36) (hmac_key blk K)"

definition opad :: "bytes \<Rightarrow> bytes" where
  "opad K = map (\<lambda>b. b XOR 0x5c) (hmac_key blk K)"

text \<open>A context under a key: the two halves of the key are absorbed and the tail holds the padding.\<close>

definition keyed :: "bytes \<Rightarrow> HMAC_SHA256_CTX \<Rightarrow> bool" where
  "keyed K ctx \<longleftrightarrow> h_ipad ctx = sha256_blocks blk sha256_init_h (ipad K) 1 \<and>
     h_opad ctx = sha256_blocks blk sha256_init_h (opad K) 1 \<and>
     length (hm_tail ctx) = 64 \<and> drop 32 (hm_tail ctx) = hmac_tail"

definition hmac_repr :: "bytes \<Rightarrow> HMAC_SHA256_CTX \<Rightarrow> bytes \<Rightarrow> bool" where
  "hmac_repr K ctx m \<longleftrightarrow> keyed K ctx \<and> sha_repr blk (hm_ctx ctx) (ipad K @ m)"

lemma pads: "length (ipad K) = 64" "length (opad K) = 64"
  by (simp_all add: ipad_def opad_def length_hmac_key)

lemma HMAC_init_repr: "hmac_repr K (HMAC_init blk ctx (Some K)) []"
proof -
  have key: "(if 64 < length K then sha256_bcopy (replicate 64 0) 0 (snd (sha256_final blk (sha256_update blk sha256_init K)))
      else sha256_bcopy (replicate 64 0) 0 K) = hmac_key blk K"
    using length_spec by (simp add: hmac_key_def Let_def sha256_bcopy_def sha.digest_one)
  have x: "map (\<lambda>b. b XOR (0x36 XOR 0x5c)) (ipad K) = opad K"
    by (simp add: ipad_def opad_def comp_def xor.assoc)
  have r: "sha_repr blk (sha256_update blk sha256_init (ipad K)) (ipad K)"
    using sha256_update_repr [OF sha_repr_init, of blk "ipad K"] by simp
  have h: "sha_h (sha256_update blk sha256_init (ipad K)) = sha256_blocks blk sha256_init_h (ipad K) 1"
    using sha_reprD(1) [OF r] by (simp add: pads)
  show ?thesis
    unfolding hmac_repr_def keyed_def HMAC_init_def option.case Let_def key
    unfolding ipad_def [symmetric] x
    using r h by (simp add: hmac_tail_template length_hmac_tail)
qed

lemma HMAC_restart_repr:
  assumes "keyed K ctx"
  shows "hmac_repr K (HMAC_init blk ctx None) []"
proof -
  have "sha_rest (ipad K) = []" using length_rest [of "ipad K"] by (simp add: pads)
  with assms show ?thesis
    by (simp add: hmac_repr_def keyed_def HMAC_init_def sha_repr_def pads)
qed

lemma HMAC_update_repr: "hmac_repr K ctx m \<Longrightarrow> hmac_repr K (HMAC_update blk ctx x) (m @ x)"
  using sha256_update_repr [of blk "hm_ctx ctx" "ipad K @ m" x]
  by (simp add: hmac_repr_def keyed_def HMAC_update_def)

lemma HMAC_final_value:
  assumes "hmac_repr K ctx m"
  shows "snd (HMAC_final blk ctx) = hmac_spec blk K m" and "keyed K (fst (HMAC_final blk ctx))"
proof -
  define md where "md = sha256_spec blk (ipad K @ m)"
  have k: "keyed K ctx" and md: "snd (sha256_final blk (hm_ctx ctx)) = md"
    using assms sha256_final_spec [of blk "hm_ctx ctx" "ipad K @ m"] by (simp_all add: hmac_repr_def md_def)
  have l: "length md = 32" by (simp add: md_def length_spec)
  have tail: "sha256_bcopy (hm_tail ctx) 0 md = md @ hmac_tail"
    using k l by (simp add: sha256_bcopy_def keyed_def)
  have "hmac_spec blk K m = sha256_emit (sha256_blocks blk (h_opad ctx) (md @ hmac_tail) 1)"
    using sha256_spec_32 [of "opad K" 1 md blk] k l
    by (simp add: pads hmac_spec_def md_def keyed_def sha_pad_96 flip: ipad_def opad_def)
  then show "snd (HMAC_final blk ctx) = hmac_spec blk K m"
    by (simp add: HMAC_final_def split_beta Let_def md tail)
  show "keyed K (fst (HMAC_final blk ctx))"
    using k l by (simp add: HMAC_final_def split_beta Let_def md tail keyed_def length_hmac_tail)
qed

end

sublocale compression_function \<subseteq> hm: streaming "hmac_repr K" "HMAC_init blk mem (Some K)" "HMAC_update blk"
  "\<lambda>c. snd (HMAC_final blk c)" "hmac_spec blk K" for K mem
  by unfold_locales (rule HMAC_init_repr, erule HMAC_update_repr, erule HMAC_final_value(1))

interpretation portable: compression_function "sha256_block stack" for stack
  by unfold_locales (simp add: sha256_block_def Let_def add_vars_def split_beta)

section \<open>HKDF is that of RFC 5869\<close>

context compression_function
begin

lemma length_hmac: "length (hmac_spec blk K m) = 32"
  by (simp add: hmac_spec_def length_spec)

lemma HKDF_Extract_value:
  "snd (HKDF_Extract blk ctx salt IKM fixup) = hmac_spec blk (case salt of Some s \<Rightarrow> s | None \<Rightarrow> []) (IKM @ (if fixup then [0] else []))"
  using hm.digest_one hm.digest_two by (simp add: HKDF_Extract_def Let_def)

lemma HMAC_final_tail_value:
  assumes "hmac_repr K ctx m"
  shows "take 32 (hm_tail (HMAC_final_tail blk ctx)) = hmac_spec blk K m" "keyed K (HMAC_final_tail blk ctx)"
  using HMAC_final_value [OF assms] length_hmac [of K m]
  by (simp_all add: HMAC_final_tail_def split_beta Let_def sha256_bcopy_def keyed_def length_hmac_tail)

lemma HKDF_Expand_loop_value:
  assumes "keyed PRK ctx" and "take 32 (hm_tail ctx) = hkdf_T blk PRK info (Suc i)"
  shows "snd (HKDF_Expand_loop blk ctx info (of_nat (Suc i)) L) =
    take L (concat (map (hkdf_T blk PRK info) [Suc i..<Suc i + max 1 ((L + 31) div 32)]))"
  using assms
proof (induction L arbitrary: ctx i rule: less_induct)
  case (less L)
  have len: "length (hkdf_T blk PRK info (Suc j)) = 32" for j by (simp add: length_hmac)
  show ?case
  proof (cases "32 < L")
    case True
    let ?c1 = "HMAC_update blk (HMAC_init blk ctx None) (hkdf_T blk PRK info (Suc i))"
    let ?c2 = "HMAC_update blk ?c1 (info @ [of_nat (Suc (Suc i))])"
    have tail: "hm_tail (HMAC_init blk ctx None) = hm_tail ctx" by (simp add: HMAC_init_def)
    have r: "hmac_repr PRK ?c2 (hkdf_T blk PRK info (Suc i) @ info @ [of_nat (Suc (Suc i))])"
      using HMAC_update_repr [OF HMAC_update_repr [OF HMAC_restart_repr [OF less.prems(1)]], of "hkdf_T blk PRK info (Suc i)"] by simp
    have "take 32 (hm_tail (HMAC_final_tail blk ?c2)) = hkdf_T blk PRK info (Suc (Suc i))"
      using HMAC_final_tail_value(1) [OF r] by simp
    note IH = less.IH [OF _ HMAC_final_tail_value(2) [OF r] this]
    have k: "(L + 31) div 32 = Suc ((L - 32 + 31) div 32)" "0 < (L - 32 + 31) div 32" using True by simp_all
    have "snd (HKDF_Expand_loop blk ctx info (of_nat (Suc i)) L) =
        hkdf_T blk PRK info (Suc i) @ snd (HKDF_Expand_loop blk (HMAC_final_tail blk ?c2) info (of_nat (Suc (Suc i))) (L - 32))"
      by (subst HKDF_Expand_loop.simps) (simp add: True Let_def split_beta tail less.prems(2) add.commute del: hkdf_T.simps)
    also have "\<dots> = hkdf_T blk PRK info (Suc i) @ take (L - 32) (concat (map (hkdf_T blk PRK info) [Suc (Suc i)..<Suc (Suc i) + (L - 32 + 31) div 32]))"
      using IH [of "L - 32"] True k(2) by (simp add: max_def del: hkdf_T.simps)
    also have "\<dots> = take L (concat (map (hkdf_T blk PRK info) (Suc i # [Suc (Suc i)..<Suc (Suc i) + (L - 32 + 31) div 32])))"
      using len [of i] True by (simp del: hkdf_T.simps)
    also have "Suc i # [Suc (Suc i)..<Suc (Suc i) + (L - 32 + 31) div 32] = [Suc i..<Suc i + max 1 ((L + 31) div 32)]"
      unfolding k(1) by (simp add: upt_conv_Cons del: upt_Suc)
    finally show ?thesis .
  next
    case False
    then have "max 1 ((L + 31) div 32) = 1" by simp
    then show ?thesis
      using False less.prems(2)
      by (subst HKDF_Expand_loop.simps) (simp del: hkdf_T.simps, metis less.prems(2) min.absorb1 not_less take_take)
  qed
qed

lemma HKDF_Expand_value:
  "snd (HKDF_Expand blk ctx L PRK info fixup) =
     hkdf_expand_spec blk PRK (if fixup then info @ [of_nat (L div 256), of_nat L] else info) L"
proof -
  define info' where "info' = (if fixup then info @ [of_nat (L div 256), of_nat L] else info)"
  let ?c = "HMAC_update blk (HMAC_init blk ctx (Some PRK)) (info' @ [1])"
  have r: "hmac_repr PRK ?c (info' @ [1])"
    using HMAC_update_repr [OF HMAC_init_repr, of PRK ctx "info' @ [1]"] by simp
  have "snd (HKDF_Expand_loop blk (HMAC_final_tail blk ?c) info' (of_nat (Suc 0)) L) =
      take L (concat (map (hkdf_T blk PRK info') [Suc 0..<Suc 0 + max 1 ((L + 31) div 32)]))"
    by (rule HKDF_Expand_loop_value [OF HMAC_final_tail_value(2) [OF r]]) (simp add: HMAC_final_tail_value(1) [OF r])
  also have "\<dots> = hkdf_expand_spec blk PRK info' L"
  proof (cases "L = 0")
    case False
    then have "max 1 ((L + 31) div 32) = (L + 31) div 32" by (simp add: max_def)
    then show ?thesis by (simp add: hkdf_expand_spec_def del: upt_Suc)
  qed (simp add: hkdf_expand_spec_def)
  finally show ?thesis by (simp add: HKDF_Expand_def Let_def info'_def [symmetric])
qed

end

section \<open>Key generation returns the first candidate that is not zero\<close>

lemma key_of_OKM_value:
  assumes "length OKM \<le> 48"
  shows "key_of_OKM OKM = be_dec OKM mod BLS12_381_r"
proof -
  let ?a = "be_dec OKM" and ?R = "2 ^ (64 * 4) :: nat" and ?p = BLS12_381_r
  define y where "y = redc_mont_n ?a ?p r0 4"
  have "?a < 256 ^ 48"
    using be_dec_bound [of OKM] power_increasing [OF assms, of "256 :: nat"] by linarith
  then have a: "?a < 2 ^ 384" by simp
  have "?a div ?R < 2 ^ 128" using a by (intro less_mult_imp_div_less) simp
  also have "\<dots> < ?p" by (simp add: BLS12_381_r_def)
  finally have hi: "?a div ?R < ?p" .
  have "?a < ?R * ?R" using a by (rule less_le_trans) simp
  note y = fr.redc_mont [OF this hi, folded y_def]
  have rr: "BLS12_381_rRR < ?R" using rRR(2) r_bounds(2) by simp
  have "y * BLS12_381_rRR < ?R * ?p"
    using mult_strict_mono [OF y(2) rr] r_bounds(1) by (simp add: mult.commute)
  note m = fr.mul_mont_cong [OF rr, of y] fr.mul_mont_lt [OF rr this]
  have "(mul_mont_256 y BLS12_381_rRR * ?R) mod ?p = (y * (BLS12_381_rRR mod ?p)) mod ?p"
    unfolding m(1) by (simp add: mod_mult_right_eq)
  also have "\<dots> = ((y * ?R) mod ?p * ?R) mod ?p"
    unfolding rRR(1) mod_mult_right_eq mod_mult_left_eq by (simp only: mult.assoc)
  also have "\<dots> = (?a * ?R) mod ?p" unfolding y(1) by (rule mod_mult_left_eq)
  finally have "mul_mont_256 y BLS12_381_rRR mod ?p = ?a mod ?p" by (rule fr.cancel_R)
  then show ?thesis using m(2) by (simp add: key_of_OKM_def flip: y_def)
qed

definition next_salt :: "compression \<Rightarrow> bytes \<Rightarrow> nat \<Rightarrow> bytes" where
  "next_salt blk salt n = (sha256_spec blk ^^ n) salt"

lemma next_salt_Suc: "next_salt blk (sha256_spec blk salt) n = next_salt blk salt (Suc n)"
  by (simp add: next_salt_def funpow_Suc_right del: funpow.simps)

context compression_function
begin

lemma keygen_try_value: "snd (keygen_try blk ctx salt IKM info) = keygen_candidate blk salt IKM info"
proof -
  have "length (hkdf_expand_spec blk PRK i 48) \<le> 48" for PRK i by (simp add: hkdf_expand_spec_def)
  then show ?thesis
    by (simp add: keygen_try_def split_beta Let_def HKDF_Extract_value HKDF_Expand_value key_of_OKM_value keygen_candidate_def)
qed

lemma keygen_loop_step:
  assumes "4 \<le> version"
  shows "\<exists>ctx'. keygen_loop blk ctx salt IKM info version =
    (if keygen_candidate blk salt IKM info \<noteq> 0 then Some (keygen_candidate blk salt IKM info)
     else keygen_loop blk ctx' (sha256_spec blk salt) IKM info version)"
  using assms
  by (subst keygen_loop.simps) (simp add: keygen_try_value split_beta Let_def sha.digest_one exI)

lemma keygen_loop_first:
  assumes "4 \<le> version" "keygen_candidate blk (next_salt blk salt n) IKM info \<noteq> 0"
    and "\<forall>i<n. keygen_candidate blk (next_salt blk salt i) IKM info = 0"
  shows "keygen_loop blk ctx salt IKM info version = Some (keygen_candidate blk (next_salt blk salt n) IKM info)"
  using assms(2,3)
proof (induction n arbitrary: ctx salt)
  case 0
  then show ?case using keygen_loop_step [OF assms(1), of ctx salt IKM info] by (auto simp: next_salt_def)
next
  case (Suc n)
  have "keygen_candidate blk salt IKM info = 0" using Suc.prems(2) by (force simp: next_salt_def)
  then obtain ctx' where "keygen_loop blk ctx salt IKM info version = keygen_loop blk ctx' (sha256_spec blk salt) IKM info version"
    using keygen_loop_step [OF assms(1), of ctx salt IKM info] by auto
  moreover have "keygen_loop blk ctx' (sha256_spec blk salt) IKM info version = Some (keygen_candidate blk (next_salt blk salt (Suc n)) IKM info)"
    using Suc.IH [of "sha256_spec blk salt" ctx'] Suc.prems by (simp add: next_salt_Suc)
  ultimately show ?case by simp
qed

end

lemma keygen_loop_some:
  "keygen_loop blk ctx salt IKM info version = Some sk \<Longrightarrow> compression_function blk \<longrightarrow> 4 \<le> version \<longrightarrow>
     (\<exists>n. keygen_candidate blk (next_salt blk salt n) IKM info = sk \<and> sk \<noteq> 0)"
proof (erule keygen_loop.raw_induct [rotated], intro impI)
  fix loop :: "compression \<Rightarrow> HMAC_SHA256_CTX \<Rightarrow> bytes \<Rightarrow> bytes \<Rightarrow> bytes \<Rightarrow> int \<Rightarrow> nat option"
  fix blk ctx salt IKM info version sk
  assume IH: "\<And>blk ctx salt IKM info version sk. loop blk ctx salt IKM info version = Some sk \<Longrightarrow>
      compression_function blk \<longrightarrow> 4 \<le> version \<longrightarrow> (\<exists>n. keygen_candidate blk (next_salt blk salt n) IKM info = sk \<and> sk \<noteq> 0)"
    and body: "(let r = keygen_try blk ctx salt IKM info
      in if version < 4 \<or> snd r \<noteq> 0 then Some (snd r)
         else let (inner, salt) = sha256_final blk (sha256_update blk sha256_init salt)
              in loop blk ((fst r)\<lparr>hm_ctx := inner\<rparr>) salt IKM info version) = Some sk"
    and ok: "compression_function blk" "4 \<le> version"
  note val = compression_function.keygen_try_value [OF ok(1)]
  show "\<exists>n. keygen_candidate blk (next_salt blk salt n) IKM info = sk \<and> sk \<noteq> 0"
  proof (cases "keygen_candidate blk salt IKM info = 0")
    case True
    obtain c' where "loop blk c' (sha256_spec blk salt) IKM info version = Some sk"
      using body ok(2) True by (auto simp: Let_def val split_beta sha.digest_one)
    then show ?thesis using IH ok by (metis next_salt_Suc)
  next
    case False
    then have "sk = keygen_candidate blk (next_salt blk salt 0) IKM info" "sk \<noteq> 0"
      using body by (simp_all add: Let_def val next_salt_def)
    then show ?thesis by blast
  qed
qed

text \<open>The loop returns exactly if a candidate is not zero, and then the first one.\<close>

lemma keygen_loop_iff:
  assumes "compression_function blk" and "4 \<le> version"
  shows "keygen_loop blk ctx salt IKM info version = Some sk \<longleftrightarrow>
    (\<exists>n. keygen_candidate blk (next_salt blk salt n) IKM info = sk \<and> sk \<noteq> 0 \<and>
         (\<forall>i<n. keygen_candidate blk (next_salt blk salt i) IKM info = 0))" (is "_ \<longleftrightarrow> (\<exists>n. ?first n sk)")
proof
  assume run: "keygen_loop blk ctx salt IKM info version = Some sk"
  obtain m where "keygen_candidate blk (next_salt blk salt m) IKM info \<noteq> 0"
    using keygen_loop_some [OF run] assms by blast
  then obtain n where n: "keygen_candidate blk (next_salt blk salt n) IKM info \<noteq> 0"
      "\<forall>i<n. keygen_candidate blk (next_salt blk salt i) IKM info = 0"
    using exists_least_iff [of "\<lambda>n. keygen_candidate blk (next_salt blk salt n) IKM info \<noteq> 0"] by auto
  have "keygen_loop blk ctx salt IKM info version = Some (keygen_candidate blk (next_salt blk salt n) IKM info)"
    by (rule compression_function.keygen_loop_first [OF assms n])
  with run n show "\<exists>n. ?first n sk" by (intro exI [of _ n]) simp
next
  assume "\<exists>n. ?first n sk"
  then show "keygen_loop blk ctx salt IKM info version = Some sk"
    using compression_function.keygen_loop_first [OF assms] by blast
qed

lemma keygen_loop_None:
  assumes "compression_function blk" and "4 \<le> version"
  shows "keygen_loop blk ctx salt IKM info version = None \<longleftrightarrow>
    (\<forall>n. keygen_candidate blk (next_salt blk salt n) IKM info = 0)"
proof
  assume none: "keygen_loop blk ctx salt IKM info version = None"
  show "\<forall>n. keygen_candidate blk (next_salt blk salt n) IKM info = 0"
  proof (rule ccontr)
    assume "\<not> ?thesis"
    then obtain n where n: "keygen_candidate blk (next_salt blk salt n) IKM info \<noteq> 0"
        "\<forall>i<n. keygen_candidate blk (next_salt blk salt i) IKM info = 0"
      using exists_least_iff [of "\<lambda>n. keygen_candidate blk (next_salt blk salt n) IKM info \<noteq> 0"] by auto
    then show False using compression_function.keygen_loop_first [OF assms n] none by simp
  qed
next
  assume "\<forall>n. keygen_candidate blk (next_salt blk salt n) IKM info = 0"
  then show "keygen_loop blk ctx salt IKM info version = None"
    using keygen_loop_iff [OF assms] by (metis not_None_eq)
qed

lemma keygen_candidate_lt: "keygen_candidate blk salt IKM info < BLS12_381_r"
  using r_bounds(1) by (simp add: keygen_candidate_def)

lemma keygen_short: "length IKM < 32 \<Longrightarrow> keygen blk mem IKM salt key_info version = Some 0"
  by (simp add: keygen_def)

lemma blst_keygen_long:
  assumes "32 \<le> length IKM"
  shows "\<exists>ctx. blst_keygen blk mem IKM key_info =
    keygen_loop blk ctx (sha256_spec blk keygen_salt) IKM (case key_info of None \<Rightarrow> [] | Some i \<Rightarrow> i) 4"
  using assms by (simp add: blst_keygen_def keygen_def split_beta Let_def sha.digest_one exI)

lemma blst_keygen_v3_long:
  assumes "compression_function blk" and "32 \<le> length IKM"
  shows "blst_keygen_v3 blk mem IKM key_info =
    Some (keygen_candidate blk keygen_salt IKM (case key_info of None \<Rightarrow> [] | Some i \<Rightarrow> i))"
proof -
  have "keygen_loop blk mem salt IKM info 3 = Some (keygen_candidate blk salt IKM info)" for salt info
    by (subst keygen_loop.simps) (simp add: Let_def compression_function.keygen_try_value [OF assms(1)])
  then show ?thesis using assms(2) by (simp add: blst_keygen_v3_def keygen_def Let_def)
qed

text \<open>
  C13. Key generation ends with the key the draft prescribes. For a seed of at least 32 bytes the call
  returns exactly if one of the candidates, taken under the salt hashed once, twice and so on, is not
  zero; it returns the first such candidate, which is positive and below the group order. Version 3
  takes the candidate of the salt itself at once. A shorter seed gives the zero key.
\<close>

theorem keygen_returns:
  assumes "blk = sha256_block stack" and "info = (case key_info of None \<Rightarrow> [] | Some i \<Rightarrow> i)"
    and "cand = (\<lambda>n. keygen_candidate blk (next_salt blk keygen_salt (Suc n)) IKM info)"
  shows "(32 \<le> length IKM \<longrightarrow>
      (blst_keygen blk mem IKM key_info = None \<longleftrightarrow> (\<forall>n. cand n = 0)) \<and>
      (blst_keygen blk mem IKM key_info = Some sk \<longleftrightarrow> (\<exists>n. cand n = sk \<and> sk \<noteq> 0 \<and> (\<forall>i<n. cand i = 0))) \<and>
      (blst_keygen blk mem IKM key_info = Some sk \<longrightarrow> 0 < sk \<and> sk < BLS12_381_r) \<and>
      blst_keygen_v3 blk mem IKM key_info = Some (keygen_candidate blk keygen_salt IKM info)) \<and>
    (length IKM < 32 \<longrightarrow> blst_keygen blk mem IKM key_info = Some 0 \<and> blst_keygen_v3 blk mem IKM key_info = Some 0)"
proof -
  have ok: "compression_function blk" unfolding assms(1) by (rule portable.compression_function_axioms)
  obtain ctx where run: "32 \<le> length IKM \<Longrightarrow>
      blst_keygen blk mem IKM key_info = keygen_loop blk ctx (sha256_spec blk keygen_salt) IKM info 4"
    using blst_keygen_long [of IKM blk mem key_info] unfolding assms(2) by blast
  note loop = keygen_loop_None [OF ok, of 4 ctx "sha256_spec blk keygen_salt" IKM info]
    keygen_loop_iff [OF ok, of 4 ctx "sha256_spec blk keygen_salt" IKM info sk]
  have none: "blst_keygen blk mem IKM key_info = None \<longleftrightarrow> (\<forall>n. cand n = 0)" if "32 \<le> length IKM"
    unfolding run [OF that] assms(3) using loop(1) by (simp add: next_salt_Suc)
  have some: "blst_keygen blk mem IKM key_info = Some sk \<longleftrightarrow> (\<exists>n. cand n = sk \<and> sk \<noteq> 0 \<and> (\<forall>i<n. cand i = 0))"
    if "32 \<le> length IKM"
    unfolding run [OF that] assms(3) using loop(2) by (simp add: next_salt_Suc)
  have lt: "cand n < BLS12_381_r" for n by (simp add: assms(3) keygen_candidate_lt)
  have short: "blst_keygen blk mem IKM key_info = Some 0" "blst_keygen_v3 blk mem IKM key_info = Some 0" if "length IKM < 32"
    using that by (simp_all add: blst_keygen_def blst_keygen_v3_def keygen_short)
  have range: "0 < sk \<and> sk < BLS12_381_r" if "32 \<le> length IKM" "blst_keygen blk mem IKM key_info = Some sk"
    using that(2) some [OF that(1)] lt by auto
  show ?thesis
    by (intro conjI impI none some range [THEN conjunct1] range [THEN conjunct2] short
        blst_keygen_v3_long [OF ok, of IKM mem key_info, folded assms(2)])
qed

definition sample_scratch :: HMAC_SHA256_CTX where
  "sample_scratch = \<lparr>hm_ctx = sha256_init, h_ipad = [], h_opad = [], hm_tail = []\<rparr>"

theorem keygen_returns_witness:
  "blst_keygen (sha256_block (\<lambda>_. 0)) sample_scratch [1, 2, 3] None = Some 0 \<and>
   blst_keygen_v3 (sha256_block (\<lambda>_. 0)) sample_scratch (replicate 32 42) None =
     Some (keygen_candidate (sha256_block (\<lambda>_. 0)) keygen_salt (replicate 32 42) [])"
  using keygen_returns [OF refl refl refl, where IKM = "[1, 2, 3]" and stack = "\<lambda>_. 0" and key_info = None]
    keygen_returns [OF refl refl refl, where IKM = "replicate 32 42" and stack = "\<lambda>_. 0" and key_info = None]
  by simp

section \<open>Child keys are those of EIP-2333\<close>

lemma lamport_template: "(replicate 64 0)[32 := 0x80, 62 := 1, 63 := 0] = replicate 32 0 @ sha_pad 32"
  unfolding sha_pad_32 by (simp add: numeral_eq_Suc)

lemma lamport_hash_spec: "length c = 32 \<Longrightarrow> lamport_hash blk c = sha256_spec blk c"
  using sha256_spec_32 [of "[]" 0 c blk]
  by (simp add: lamport_hash_def Let_def lamport_template sha256_bcopy_def)

lemma chunks32_length: "32 * n \<le> length bs \<Longrightarrow> c \<in> set (chunks32 n bs) \<Longrightarrow> length c = 32"
proof (induction n arbitrary: bs)
  case (Suc n)
  then show ?case using Suc.IH [of "drop 32 bs"] by auto
qed simp

context compression_function
begin

lemma length_hkdf_T: "0 < i \<Longrightarrow> length (hkdf_T blk PRK info i) = 32"
  by (cases i) (simp_all add: length_hmac)

lemma length_hkdf_expand: "length (hkdf_expand_spec blk PRK info L) = L"
proof -
  have "map (\<lambda>i. length (hkdf_T blk PRK info i)) [1..<Suc n] = replicate n 32" for n
    by (induction n) (simp_all add: length_hkdf_T replicate_append_same del: hkdf_T.simps)
  then have "length (concat (map (hkdf_T blk PRK info) [1..<Suc n])) = 32 * n" for n
    by (simp add: length_concat comp_def sum_list_replicate del: upt_Suc)
  moreover have "L \<le> 32 * ((L + 31) div 32)" by presburger
  ultimately show ?thesis by (simp add: hkdf_expand_spec_def del: upt_Suc)
qed

lemma IKM_to_lamport_value: "snd (IKM_to_lamport blk ctx salt IKM) = lamport_spec blk salt IKM"
proof -
  define l where "l = hkdf_expand_spec blk (hmac_spec blk salt IKM) [] (255 * 32)"
  have "length l = 32 * 255" unfolding l_def length_hkdf_expand by simp
  then have "map (lamport_hash blk) (chunks32 255 l) = map (sha256_spec blk) (chunks32 255 l)"
    using chunks32_length [of 255 l] by (intro map_cong refl lamport_hash_spec) simp
  moreover have "snd (IKM_to_lamport blk ctx salt IKM) = concat (map (lamport_hash blk) (chunks32 255 l))"
    by (simp add: IKM_to_lamport_def split_beta Let_def HKDF_Extract_value HKDF_Expand_value l_def)
  ultimately show ?thesis by (simp only: lamport_spec_def l_def)
qed

lemma lamport_PK_value: "parent_SK_to_lamport_PK blk mem sk index = lamport_PK_spec blk sk index"
  unfolding parent_SK_to_lamport_PK_def lamport_PK_spec_def
  by (simp add: split_beta Let_def IKM_to_lamport_value sha.digest_two be_enc_def)

end

text \<open>
  C14. The derivation of keys is that of the standards. HKDF is RFC 5869 over HMAC of RFC 2104, with the
  zero byte and the length the BLS draft appends where the call asks for them; a child key is the key
  generated from the hash of the two Lamport keys of EIP-2333. None of it depends on what the
  scratch memory held.
\<close>

theorem derivation_standards:
  assumes "blk = sha256_block stack"
  shows "snd (HKDF_Extract blk ctx salt IKM IKM_fixup) =
      hmac_spec blk (case salt of Some s \<Rightarrow> s | None \<Rightarrow> []) (IKM @ (if IKM_fixup then [0] else [])) \<and>
    snd (HKDF_Expand blk ctx L PRK info info_fixup) =
      hkdf_expand_spec blk PRK (if info_fixup then info @ [of_nat (L div 256), of_nat L] else info) L \<and>
    blst_derive_child_eip2333 blk ctx parent_SK index = blst_keygen blk ctx (lamport_PK_spec blk parent_SK index) None \<and>
    blst_derive_master_eip2333 blk ctx seed = blst_keygen blk ctx seed None"
  unfolding assms
  by (simp add: portable.HKDF_Extract_value portable.HKDF_Expand_value portable.lamport_PK_value
      blst_derive_child_eip2333_def blst_derive_master_eip2333_def blst_keygen_def)

theorem derivation_standards_witness:
  "snd (HKDF_Extract (sha256_block (\<lambda>_. 0)) sample_scratch None [1] True) =
     hmac_spec (sha256_block (\<lambda>_. 0)) [] [1, 0]"
  using derivation_standards [of _ "\<lambda>_. 0" sample_scratch None "[1]" True] by simp

section \<open>Range of the keys\<close>

text \<open>Whatever the compression computes, a key that is returned is below the group order.\<close>

lemma HKDF_Expand_loop_length: "length (snd (HKDF_Expand_loop blk ctx info counter L)) \<le> L"
proof (induction L arbitrary: ctx counter rule: less_induct)
  case (less L)
  show ?case
  proof (cases "32 < L")
    case True
    have IH: "length (snd (HKDF_Expand_loop blk c info k (L - 32))) \<le> L - 32" for c k using less True by simp
    have "min a 32 + length (snd (HKDF_Expand_loop blk c info k (L - 32))) \<le> L" for a c k
      using IH [of c k] True by (simp add: min_def) linarith
    then show ?thesis by (subst HKDF_Expand_loop.simps) (simp add: True Let_def split_beta)
  next
    case False
    then show ?thesis by (subst HKDF_Expand_loop.simps) simp
  qed
qed

lemma keygen_try_lt: "snd (keygen_try blk ctx salt IKM info) < BLS12_381_r"
  using r_bounds(1) HKDF_Expand_loop_length
  by (simp add: keygen_try_def split_beta Let_def HKDF_Expand_def key_of_OKM_value)

lemma keygen_loop_lt: "keygen_loop blk ctx salt IKM info version = Some sk \<Longrightarrow> sk < BLS12_381_r"
  by (erule keygen_loop.raw_induct [rotated]) (auto simp: Let_def split_beta keygen_try_lt split: if_splits)

lemma keygen_lt: "keygen blk mem IKM salt key_info version = Some sk \<Longrightarrow> sk < BLS12_381_r"
  using r_bounds(1) by (auto simp: keygen_def Let_def split_beta dest: keygen_loop_lt split: if_splits)

end
