(* ===== verification/BlstHashToField.thy ===== *)
theory BlstHashToField
  imports BlstKeygen
begin

text \<open>
  Hashing of messages to field elements (blst/src/hash_to_field.c): the expansion of a message to
  pseudo-random bytes and their reduction to elements in Montgomery form. The reference is RFC 9380.
  The code composes the padded last blocks itself, in a buffer that is not cleared first; what the
  buffer held is an argument.
\<close>

definition BLS12_381_P :: nat where
  "BLS12_381_P = 0x1a0111ea397fe69a4b1ba7b6434bacd764774b84f38512bf6730d2a0f6b0f6241eabfffeb153ffffb9feffffffffaaab"

definition p0 :: nat where
  "p0 = 0x89f3fffcfffcfffd"

definition BLS12_381_RRRR :: nat where
  "BLS12_381_RRRR = 0x0aa6346091755d4d2512d4356572472834c04e5e921e17619a53352a615e29dd315f831e03a7adf8ed48ac6bd94ca1e0"

section \<open>Expansion of a message\<close>

text \<open>The state after one block of zeros, as a constant.\<close>

definition sha256_init_Zpad :: SHA256_CTX where
  "sha256_init_Zpad =
    \<lparr>sha_h = [0xda5698be, 0x17b9b469, 0x62335799, 0x779fbeca, 0x8ce5d491, 0xc0d26243, 0xbafef9ea, 0x1837a9d8],
     sha_N = 64, sha_buf = replicate 64 0, sha_off = 0\<rparr>"

definition vec_xor :: "bytes \<Rightarrow> bytes \<Rightarrow> bytes" where
  "vec_xor a b = map2 (\<lambda>x y. x XOR y) a b"

text \<open>\<^verbatim>\<open>H2C-OVERSIZE-DST-\<close>\<close>

definition oversize_DST :: bytes where
  "oversize_DST = [72, 50, 67, 45, 79, 86, 69, 82, 83, 73, 90, 69, 45, 68, 83, 84, 45]"

definition b_i_blocks :: "nat \<Rightarrow> nat" where
  "b_i_blocks DST_len = ((33 + DST_len + 1 + 9) + 63) div 64 * 64"

text \<open>
  The template of the blocks: the last 64 bytes cleared, the tag with its length, the first byte of
  the padding and seven zeros, the number of bits.
\<close>

definition b_i_template :: "bytes \<Rightarrow> bytes \<Rightarrow> bytes" where
  "b_i_template mem DST =
     (let n = length DST; q = b_i_blocks n; bits = (33 + n + 1) * 8;
          b_i = sha256_bcopy mem (q - 64) (replicate 64 0);
          b_i = sha256_bcopy b_i 33 DST;
          b_i = sha256_bcopy b_i (33 + n) ([of_nat n, 0x80] @ replicate 7 0)
      in sha256_bcopy b_i (q - 2) [of_nat (bits div 256), of_nat bits])"

primrec xmd_loop :: "compression \<Rightarrow> bytes \<Rightarrow> nat \<Rightarrow> nat \<Rightarrow> bytes \<Rightarrow> bytes \<Rightarrow> bytes" where
  "xmd_loop blk b_0 q 0 b_i prev = []"
| "xmd_loop blk b_0 q (Suc k) b_i prev =
     (let b_i = sha256_bcopy b_i 0 (vec_xor b_0 prev);
          b_i = b_i[32 := b_i ! 32 + 1];
          out = sha256_emit (sha256_blocks blk sha256_init_h b_i (q div 64))
      in out @ xmd_loop blk b_0 q k b_i out)"

text \<open>
  For a length of zero the count of the loop wraps around and it writes far outside the buffer:
  \<^const>\<open>None\<close>. The length is at most \<open>2 ^ 64 - 32\<close> here, so that rounding it up does not wrap.
\<close>

definition expand_message_xmd :: "compression \<Rightarrow> bytes \<Rightarrow> nat \<Rightarrow> bytes \<Rightarrow> bytes \<Rightarrow> bytes \<Rightarrow> bytes option" where
  "expand_message_xmd blk mem len_in_bytes aug msg DST =
     (let DST = (if 255 < length DST
                 then snd (sha256_final blk (sha256_update blk (sha256_update blk sha256_init oversize_DST) DST))
                 else DST);
          q = b_i_blocks (length DST);
          b_i = b_i_template mem DST;
          ctx = sha256_update blk (sha256_update blk sha256_init_Zpad aug) msg;
          b_i = sha256_bcopy b_i 30 [of_nat (len_in_bytes div 256), of_nat len_in_bytes, 0];
          ctx = sha256_update blk ctx (take (3 + length DST + 1) (drop 30 b_i));
          b_0 = snd (sha256_final blk ctx);
          b_i = sha256_bcopy b_i 0 b_0;
          b_i = b_i[32 := b_i ! 32 + 1];
          b_1 = sha256_emit (sha256_blocks blk sha256_init_h b_i (q div 64))
      in if len_in_bytes = 0 then None
         else Some (b_1 @ xmd_loop blk b_0 q ((len_in_bytes + 31) div 32 - 1) b_i b_1))"

text \<open>
  Too long a request leaves the output as it was. The rounded length is a \<^verbatim>\<open>size_t\<close>: within 31 of
  \<open>2 ^ 64\<close> it wraps to 0 and passes the test, and the count of the loop that writes the digests, rounded
  the same way, wraps below zero as for an empty request.
\<close>

definition blst_expand_message_xmd :: "compression \<Rightarrow> bytes \<Rightarrow> bytes \<Rightarrow> nat \<Rightarrow> bytes \<Rightarrow> bytes \<Rightarrow> bytes option" where
  "blst_expand_message_xmd blk mem out len_in_bytes msg DST =
     (let buf_len = (len_in_bytes + 31) mod 2 ^ 64 div 32 * 32
      in if 255 * 32 < buf_len then Some out
         else if 2 ^ 64 \<le> len_in_bytes + 31 then None
         else map_option (take len_in_bytes) (expand_message_xmd blk mem len_in_bytes [] msg DST))"

section \<open>Field elements\<close>

definition field_element :: "bytes \<Rightarrow> nat" where
  "field_element bs =
     mul_mont_n (redc_mont_n (be_dec bs) BLS12_381_P p0 6) BLS12_381_RRRR BLS12_381_P p0 6"

fun field_elements :: "nat \<Rightarrow> bytes \<Rightarrow> nat list" where
  "field_elements 0 bs = []"
| "field_elements (Suc nelems) bs = field_element (take 64 bs) # field_elements nelems (drop 64 bs)"

definition hash_to_field :: "compression \<Rightarrow> bytes \<Rightarrow> nat \<Rightarrow> bytes \<Rightarrow> bytes \<Rightarrow> bytes \<Rightarrow> nat list option" where
  "hash_to_field blk mem nelems aug msg DST =
     map_option (field_elements nelems) (expand_message_xmd blk mem (64 * nelems) aug msg DST)"

section \<open>The reference\<close>

definition DST_prime :: "compression \<Rightarrow> bytes \<Rightarrow> bytes" where
  "DST_prime blk DST =
     (let DST = (if 255 < length DST then sha256_spec blk (oversize_DST @ DST) else DST) in DST @ [of_nat (length DST)])"

definition xmd_b0 :: "compression \<Rightarrow> nat \<Rightarrow> bytes \<Rightarrow> bytes \<Rightarrow> bytes" where
  "xmd_b0 blk len msg DST =
     sha256_spec blk (replicate 64 0 @ msg @ [of_nat (len div 256), of_nat len, 0] @ DST_prime blk DST)"

fun xmd_b :: "compression \<Rightarrow> nat \<Rightarrow> bytes \<Rightarrow> bytes \<Rightarrow> nat \<Rightarrow> bytes" where
  "xmd_b blk len msg DST 0 = sha256_spec blk (xmd_b0 blk len msg DST @ [1] @ DST_prime blk DST)"
| "xmd_b blk len msg DST (Suc i) =
     sha256_spec blk (vec_xor (xmd_b0 blk len msg DST) (xmd_b blk len msg DST i) @ [of_nat (Suc (Suc i))] @ DST_prime blk DST)"

definition xmd_spec :: "compression \<Rightarrow> nat \<Rightarrow> bytes \<Rightarrow> bytes \<Rightarrow> bytes" where
  "xmd_spec blk len msg DST = concat (map (xmd_b blk len msg DST) [0..<(len + 31) div 32])"

section \<open>The blocks are padded as the standard says\<close>

lemma sha256_bcopy_length [simp]: "off + length src \<le> length dst \<Longrightarrow> length (sha256_bcopy dst off src) = length dst"
  by (simp add: sha256_bcopy_def)

lemma sha256_bcopy_nth:
  "off + length src \<le> length dst \<Longrightarrow> i < length dst \<Longrightarrow>
     sha256_bcopy dst off src ! i = (if off \<le> i \<and> i < off + length src then src ! (i - off) else dst ! i)"
  by (auto simp: sha256_bcopy_def nth_append)

lemma b_i_blocks_bounds:
  assumes "n \<le> 255"
  shows "43 + n \<le> b_i_blocks n" "b_i_blocks n \<le> 106 + n" "b_i_blocks n \<le> 320" "64 \<le> b_i_blocks n" "64 * (b_i_blocks n div 64) = b_i_blocks n"
proof -
  have e: "b_i_blocks n = (106 + n) div 64 * 64" by (simp add: b_i_blocks_def)
  have m: "(106 + n) div 64 * 64 + (106 + n) mod 64 = 106 + n" "(106 + n) mod 64 < 64" by (simp, simp)
  show "43 + n \<le> b_i_blocks n" "b_i_blocks n \<le> 106 + n" using m unfolding e by linarith+
  have "(106 + n) div 64 \<le> (106 + 255) div 64" using assms by (intro div_le_mono) simp
  then show "b_i_blocks n \<le> 320" unfolding e by simp
  have "1 \<le> (106 + n) div 64" by simp
  then show "64 \<le> b_i_blocks n" unfolding e by linarith
  show "64 * (b_i_blocks n div 64) = b_i_blocks n" unfolding e by simp
qed

lemma length_sha_pad_blocks:
  assumes "n \<le> 255"
  shows "34 + n + length (sha_pad (34 + n)) = b_i_blocks n"
proof -
  define a b where "a = (34 + n) div 64" and "b = (34 + n) mod 64"
  have n: "34 + n = 64 * a + b" and b: "b < 64" by (simp_all add: a_def b_def)
  have "106 + n = 64 * a + (b + 72)" using n by simp
  then have "(106 + n) div 64 = a + (b + 72) div 64" by simp
  moreover have "(b + 72) div 64 = (if b \<le> 55 then 1 else 2)"
    using b by (auto intro!: div_nat_eqI)
  ultimately have "b_i_blocks n = 64 * a + (if b \<le> 55 then 64 else 128)" by (auto simp: b_i_blocks_def)
  moreover have "length (sha_pad (34 + n)) = (if b \<le> 55 then 64 - b else 128 - b)" by (simp add: length_sha_pad b_def)
  ultimately show ?thesis using n b by auto
qed

lemma ucast_of_unat: "(ucast (w :: 'a::len word) :: 'b::len word) = of_nat (unat w)"
  by (simp only: of_nat_unat)

lemma TOBE32_small:
  assumes "x < 2 ^ 16"
  shows "TOBE32 (of_nat x) = [0, 0, of_nat (x div 256), of_nat x]"
proof -
  have u: "unat (of_nat x :: u32) = x" using assms by (simp add: unat_of_nat)
  have b: "ucast (drop_bit k (of_nat x :: u32)) = (of_nat (x div 2 ^ k) :: byte)" for k
    unfolding ucast_of_unat unat_drop_bit_eq u by (simp add: drop_bit_eq_div)
  have "x div 2 ^ 24 = 0" "x div 2 ^ 16 = 0" using assms by simp_all
  then show ?thesis unfolding TOBE32_def using b [of 24] b [of 16] b [of 8] b [of 0] by simp
qed

lemma sha_pad_small:
  assumes "n \<le> 255"
  shows "sha_pad (34 + n) = 0x80 # replicate (b_i_blocks n - 37 - n) 0 @ [of_nat ((34 + n) * 8 div 256), of_nat ((34 + n) * 8)]"
proof -
  let ?bits = "(34 + n) * 8"
  have w: "of_nat (34 + n) * 8 = (of_nat ?bits :: 64 word)" by simp
  have u: "unat (of_nat ?bits :: 64 word) = ?bits" using assms by (simp add: unat_of_nat del: of_nat_mult of_nat_add)
  have "unat (drop_bit 32 (of_nat ?bits :: 64 word)) = 0"
    unfolding unat_drop_bit_eq u using assms by (simp add: drop_bit_eq_div)
  then have hi: "drop_bit 32 (of_nat ?bits :: 64 word) = 0" by (simp only: unsigned_eq_0_iff)
  have lo: "ucast (of_nat ?bits :: 64 word) = (of_nat ?bits :: u32)" unfolding ucast_of_unat u ..
  have z: "TOBE32 0 = replicate 4 0" by (simp add: TOBE32_def numeral_eq_Suc)
  define k where "k = nat ((55 - int (34 + n)) mod 64)"
  have p: "sha_pad (34 + n) = 0x80 # replicate k 0 @ replicate 4 0 @ [0, 0, of_nat (?bits div 256), of_nat ?bits]"
    unfolding sha_pad_def Let_def k_def [symmetric] w hi lo using assms TOBE32_small [of ?bits] z by simp
  have "k + 6 = b_i_blocks n - 37 - n"
    using length_sha_pad_blocks [OF assms] b_i_blocks_bounds(1) [OF assms] unfolding p by simp
  then have "b_i_blocks n - 37 - n = k + (4 + 2)" by simp
  moreover have "replicate 2 (0 :: byte) = [0, 0]" by (simp add: numeral_2_eq_2)
  ultimately have "replicate (b_i_blocks n - 37 - n) (0 :: byte) = replicate k 0 @ replicate 4 0 @ [0, 0]"
    by (simp only: replicate_add)
  then show ?thesis unfolding p by simp
qed

text \<open>The buffer from the tag on: the tag, its length, and the padding of the whole message.\<close>

definition templated :: "bytes \<Rightarrow> bytes \<Rightarrow> bool" where
  "templated DST b \<longleftrightarrow> length b = 320 \<and>
     take (b_i_blocks (length DST) - 33) (drop 33 b) = DST @ [of_nat (length DST)] @ sha_pad (34 + length DST)"

lemma b_i_template_ok:
  assumes m: "length mem = 320" and d: "length DST \<le> 255"
  shows "templated DST (b_i_template mem DST)"
proof -
  define n q where "n = length DST" and "q = b_i_blocks n"
  have nq: "n \<le> 255" "43 + n \<le> q" "q \<le> 106 + n" "q \<le> 320" "64 \<le> q"
    using d b_i_blocks_bounds [of n] by (auto simp: n_def q_def)
  define bits :: bytes where "bits = [of_nat ((34 + n) * 8 div 256), of_nat ((34 + n) * 8)]"
  have ln: "length DST = n" by (simp add: n_def)
  have lb: "length bits = 2" by (simp add: bits_def)
  have t: "b_i_template mem DST = sha256_bcopy (sha256_bcopy (sha256_bcopy (sha256_bcopy mem (q - 64) (replicate 64 0)) 33 DST)
      (33 + n) ([of_nat n, 0x80] @ replicate 7 0)) (q - 2) bits"
    by (simp add: b_i_template_def Let_def bits_def flip: n_def q_def)
  have len: "length (b_i_template mem DST) = 320" unfolding t using m nq by (simp add: bits_def n_def)
  have pad: "sha_pad (34 + n) = 0x80 # replicate (q - 37 - n) 0 @ bits"
    using sha_pad_small [OF nq(1)] by (simp add: bits_def q_def)
  define mid :: bytes where "mid = [of_nat n, 0x80] @ replicate 7 0"
  have mid: "length mid = 9" "k < 9 \<Longrightarrow> mid ! k = (if k = 0 then of_nat n else if k = 1 then 0x80 else 0)" for k
    by (auto simp: mid_def nth_append nth_Cons')
  have at: "b_i_template mem DST ! j =
      (if q - 2 \<le> j then bits ! (j - (q - 2)) else if j < 33 + n then DST ! (j - 33)
       else if j = 33 + n then of_nat n else if j = 34 + n then 0x80 else 0)" if j: "33 \<le> j" "j < q" for j
  proof -
    let ?m1 = "sha256_bcopy mem (q - 64) (replicate 64 0)"
    let ?m2 = "sha256_bcopy ?m1 33 DST" and ?m3 = "sha256_bcopy (sha256_bcopy ?m1 33 DST) (33 + n) mid"
    have l: "length ?m1 = 320" "length ?m2 = 320" "length ?m3 = 320" using m nq mid(1) by (simp_all add: n_def)
    have "b_i_template mem DST ! j = (if q - 2 \<le> j then bits ! (j - (q - 2)) else ?m3 ! j)"
      unfolding t mid_def [symmetric] by (subst sha256_bcopy_nth) (use l j nq lb in auto)
    moreover have "?m3 ! j = (if 33 + n \<le> j \<and> j < 42 + n then mid ! (j - (33 + n)) else ?m2 ! j)"
      using sha256_bcopy_nth [of "33 + n" mid ?m2 j] l j nq mid(1) by simp
    moreover have "?m2 ! j = (if j < 33 + n then DST ! (j - 33) else ?m1 ! j)"
      using sha256_bcopy_nth [of 33 DST ?m1 j] l j nq by (simp add: n_def)
    moreover have "?m1 ! j = 0" if "42 + n \<le> j"
    proof -
      have "q - 64 \<le> j" using nq that by linarith
      then show ?thesis using sha256_bcopy_nth [of "q - 64" "replicate 64 0" mem j] m j nq by simp
    qed
    ultimately show ?thesis using mid(2) [of "j - (33 + n)"] by auto
  qed
  have "take (q - 33) (drop 33 (b_i_template mem DST)) = DST @ [of_nat n] @ sha_pad (34 + n)" (is "?l = ?r")
  proof (rule nth_equalityI)
    show "length ?l = length ?r" using len nq by (simp add: pad lb flip: n_def)
    fix i assume i: "i < length ?l"
    then have iq: "33 + i < q" using len nq by simp
    have "?l ! i = b_i_template mem DST ! (33 + i)" using iq len nq by simp
    also have "\<dots> = ?r ! i"
    proof -
      consider "i < n" | "i = n" | "i = Suc n" | "Suc (Suc n) \<le> i" "33 + i < q - 2" | "q - 2 \<le> 33 + i" by linarith
      then show ?thesis
      proof cases
        case 4
        then have "i - n = Suc (Suc (i - n - 2))" "i - n - 2 < q - 37 - n" using nq by linarith+
        then show ?thesis unfolding at [OF le_add1 iq] pad using 4 by (simp add: nth_append ln)
      next
        case 5
        then have "i - n = Suc (Suc (i - n - 2))" "i - n - 2 - (q - 37 - n) = 33 + i - (q - 2)" "q - 37 - n \<le> i - n - 2" "n < i"
          using nq by linarith+
        then show ?thesis unfolding at [OF le_add1 iq] pad using 5 nq by (simp add: nth_append ln)
      qed (unfold at [OF le_add1 iq] pad, use nq in \<open>auto simp: nth_append ln\<close>)
    qed
    finally show "?l ! i = ?r ! i" .
  qed
  then show ?thesis using len by (simp add: templated_def n_def q_def)
qed


text \<open>A block composed on the template is the padded message.\<close>

lemma templated_block:
  assumes t: "templated DST b" and d: "length DST \<le> 255" and x: "length x = 32"
  shows "templated DST ((sha256_bcopy b 0 x)[32 := c])"
    and "sha256_emit (sha256_blocks blk sha256_init_h ((sha256_bcopy b 0 x)[32 := c]) (b_i_blocks (length DST) div 64)) =
      sha256_spec blk (x @ [c] @ DST @ [of_nat (length DST)])"
proof -
  let ?q = "b_i_blocks (length DST)" and ?b = "(sha256_bcopy b 0 x)[32 := c]"
  let ?m = "x @ [c] @ DST @ [of_nat (length DST)]"
  have l: "length b = 320" using t by (simp add: templated_def)
  note q = b_i_blocks_bounds [OF d]
  have b: "?b = x @ c # drop 33 b"
  proof -
    have "drop 32 b = b ! 32 # drop 33 b" using l Cons_nth_drop_Suc [of 32 b] by simp
    then show ?thesis using x by (simp add: sha256_bcopy_def list_update_append)
  qed
  show "templated DST ?b" using t x l unfolding b by (simp add: templated_def)
  have "take ?q ?b = x @ c # take (?q - 33) (drop 33 b)" unfolding b using x q by (simp add: take_Cons')
  then have tq: "take ?q ?b = ?m @ sha_pad (length ?m)" using t x by (simp add: templated_def)
  have "length (?m @ sha_pad (length ?m)) = ?q" using length_sha_pad_blocks [OF d] x by simp
  moreover have "sha256_blocks blk sha256_init_h ?b (?q div 64) = sha256_blocks blk sha256_init_h (take ?q ?b) (?q div 64)"
    using sha256_blocks_append [of "?q div 64" "take ?q ?b" blk sha256_init_h "drop ?q ?b"] q l x unfolding b by simp
  ultimately show "sha256_emit (sha256_blocks blk sha256_init_h ?b (?q div 64)) = sha256_spec blk ?m"
    unfolding sha256_spec_def Let_def tq by simp
qed

section \<open>The expansion is that of RFC 9380\<close>

lemma templated_prefix:
  assumes "templated DST b" and "length x = 3" and "length DST \<le> 255"
  shows "templated DST (sha256_bcopy b 30 x)"
    and "take (3 + length DST + 1) (drop 30 (sha256_bcopy b 30 x)) = x @ DST @ [of_nat (length DST)]"
    and "sha256_bcopy b 30 x ! 32 = x ! 2"
proof -
  have l: "length b = 320" using assms(1) by (simp add: templated_def)
  have d: "drop 30 (sha256_bcopy b 30 x) = x @ drop 33 b" "drop 33 (sha256_bcopy b 30 x) = drop 33 b"
    using l assms(2) by (simp_all add: sha256_bcopy_def)
  show "templated DST (sha256_bcopy b 30 x)" using assms l d(2) by (simp add: templated_def)
  have "take (length DST + 1) (take (b_i_blocks (length DST) - 33) (drop 33 b)) = DST @ [of_nat (length DST)]"
    using assms(1) by (simp add: templated_def)
  moreover have "length DST + 1 \<le> b_i_blocks (length DST) - 33" using b_i_blocks_bounds(1) [OF assms(3)] by simp
  ultimately have "take (length DST + 1) (drop 33 b) = DST @ [of_nat (length DST)]" by (simp add: min_absorb1)
  then show "take (3 + length DST + 1) (drop 30 (sha256_bcopy b 30 x)) = x @ DST @ [of_nat (length DST)]"
    unfolding d(1) using assms(2) by simp
  show "sha256_bcopy b 30 x ! 32 = x ! 2" using sha256_bcopy_nth [of 30 x b 32] l assms(2) by simp
qed

lemma templated_counter:
  assumes "templated DST b" and "length x = 32"
  shows "sha256_bcopy b 0 x ! 32 = b ! 32" "length (sha256_bcopy b 0 x) = 320"
  using assms sha256_bcopy_nth [of 0 x b 32] by (simp_all add: templated_def)

text \<open>The tag as the expansion uses it: a long one is hashed.\<close>

definition effective_DST :: "compression \<Rightarrow> bytes \<Rightarrow> bytes" where
  "effective_DST blk DST = (if 255 < length DST then sha256_spec blk (oversize_DST @ DST) else DST)"

lemma DST_prime_effective: "DST_prime blk DST = effective_DST blk DST @ [of_nat (length (effective_DST blk DST))]"
  by (simp add: DST_prime_def effective_DST_def Let_def)

locale zpad_compression = compression_function +
  assumes zpad: "blk sha256_init_h (replicate 64 0) = sha_h sha256_init_Zpad"
begin

lemma zpad_repr: "sha_repr blk sha256_init_Zpad (replicate 64 0)"
  using zpad by (simp add: sha_repr_def sha256_init_Zpad_def sha_rest_def)

lemma length_effective: "length (effective_DST blk DST) \<le> 255"
  by (simp add: effective_DST_def length_spec)

lemma length_xmd: "length (xmd_b0 blk len m DST) = 32" "length (xmd_b blk len m DST i) = 32"
  by (simp add: xmd_b0_def length_spec, cases i, simp_all add: length_spec)

lemma xmd_loop_value:
  assumes "templated (effective_DST blk DST) b" and "b ! 32 = of_nat (Suc i)"
  shows "xmd_loop blk (xmd_b0 blk len m DST) (b_i_blocks (length (effective_DST blk DST))) k b (xmd_b blk len m DST i) =
    concat (map (xmd_b blk len m DST) [Suc i..<Suc i + k])"
  using assms
proof (induction k arbitrary: b i)
  case (Suc k)
  let ?D = "effective_DST blk DST" and ?x = "vec_xor (xmd_b0 blk len m DST) (xmd_b blk len m DST i)"
  have x: "length ?x = 32" by (simp add: vec_xor_def length_xmd del: xmd_b.simps)
  let ?b = "(sha256_bcopy b 0 ?x)[32 := of_nat (Suc (Suc i))]"
  note step = templated_block [OF Suc.prems(1) length_effective x, where c = "of_nat (Suc (Suc i))"]
  have c: "sha256_bcopy b 0 ?x ! 32 + 1 = of_nat (Suc (Suc i))"
    using templated_counter(1) [OF Suc.prems(1) x] Suc.prems(2) by simp
  have out: "sha256_emit (sha256_blocks blk sha256_init_h ?b (b_i_blocks (length ?D) div 64)) = xmd_b blk len m DST (Suc i)"
    unfolding step(2) by (simp add: DST_prime_effective)
  have "?b ! 32 = of_nat (Suc (Suc i))" using templated_counter(2) [OF Suc.prems(1) x] by simp
  then have IH: "xmd_loop blk (xmd_b0 blk len m DST) (b_i_blocks (length ?D)) k ?b (xmd_b blk len m DST (Suc i)) =
      concat (map (xmd_b blk len m DST) [Suc (Suc i)..<Suc (Suc i) + k])"
    by (rule Suc.IH [OF step(1)])
  have "[Suc i..<Suc i + Suc k] = Suc i # [Suc (Suc i)..<Suc (Suc i) + k]" by (simp add: upt_conv_Cons del: upt_Suc)
  then show ?case
    by (simp only: xmd_loop.simps Let_def c out IH list.map concat.simps)
qed simp

lemma expand_value:
  assumes "length mem = 320" and "0 < len"
  shows "expand_message_xmd blk mem len aug msg DST = Some (xmd_spec blk len (aug @ msg) DST)"
proof -
  let ?D = "effective_DST blk DST" and ?m = "aug @ msg"
  let ?hdr = "[of_nat (len div 256), of_nat len, 0] :: bytes"
  let ?b = "sha256_bcopy (b_i_template mem ?D) 30 ?hdr"
  let ?z = "xmd_b0 blk len ?m DST"
  have D: "(if 255 < length DST then snd (sha256_final blk (sha256_update blk (sha256_update blk sha256_init oversize_DST) DST)) else DST) = ?D"
    by (simp add: effective_DST_def sha.digest_two)
  have t: "templated ?D (b_i_template mem ?D)" by (rule b_i_template_ok [OF assms(1) length_effective])
  note pre = templated_prefix [OF t _ length_effective, of ?hdr]
  let ?ctx = "sha256_update blk (sha256_update blk (sha256_update blk sha256_init_Zpad aug) msg) (?hdr @ ?D @ [of_nat (length ?D)])"
  have b0: "snd (sha256_final blk ?ctx) = ?z"
    using sha256_final_spec [OF sha256_update_repr [OF sha256_update_repr [OF sha256_update_repr [OF zpad_repr]]]]
    by (simp add: xmd_b0_def DST_prime_effective)
  have tb: "templated ?D ?b" and h32: "?b ! 32 = 0" and upd: "take (3 + length ?D + 1) (drop 30 ?b) = ?hdr @ ?D @ [of_nat (length ?D)]"
    using pre by simp_all
  have c: "sha256_bcopy ?b 0 ?z ! 32 + 1 = 1" using templated_counter(1) [OF tb length_xmd(1)] h32 by simp
  note blk1 = templated_block [OF tb length_effective length_xmd(1) [of len ?m DST], where c = 1]
  have b1: "sha256_emit (sha256_blocks blk sha256_init_h ((sha256_bcopy ?b 0 ?z)[32 := 1]) (b_i_blocks (length ?D) div 64)) = xmd_b blk len ?m DST 0"
    unfolding blk1(2) by (simp add: DST_prime_effective)
  have "(sha256_bcopy ?b 0 ?z)[32 := 1] ! 32 = of_nat (Suc 0)" using templated_counter(2) [OF tb length_xmd(1)] by simp
  note loop = xmd_loop_value [OF blk1(1) this, of len ?m "(len + 31) div 32 - 1"]
  have k: "(len + 31) div 32 = Suc ((len + 31) div 32 - 1)" using assms(2) by simp
  have "concat (map (xmd_b blk len ?m DST) [0..<(len + 31) div 32]) =
      xmd_b blk len ?m DST 0 @ concat (map (xmd_b blk len ?m DST) [Suc 0..<Suc 0 + ((len + 31) div 32 - 1)])"
    by (subst k) (simp add: upt_conv_Cons del: upt_Suc xmd_b.simps)
  then show ?thesis
    using assms(2) unfolding expand_message_xmd_def Let_def D upd b0 c b1 loop xmd_spec_def by simp
qed

end

text \<open>The constant is the state after a block of zeros, by evaluation of the sixty-four rounds.\<close>

lemma zpad_block: "sha256_block (\<lambda>_. 0) sha256_init_h (replicate 64 0) = sha_h sha256_init_Zpad"
  by code_simp

interpretation portable_z: zpad_compression "sha256_block stack" for stack
  using zpad_block by unfold_locales (simp add: sha256_block_compress)

text \<open>
  C16. The expansion is \<^verbatim>\<open>expand_message_xmd\<close> of RFC 9380: for every tag, the ones that are hashed
  first included, whatever the buffer of the blocks held, and every length from 1 to 255 digests, the
  bytes are those of the standard, cut to the length asked for. A longer request leaves the output
  alone, one for no bytes runs out of bounds, and so does one within 31 of the limit of \<^verbatim>\<open>size_t\<close>.
\<close>

theorem expand_message_rfc9380:
  assumes "length mem = 320" and "len < 2 ^ 64"
  shows "blst_expand_message_xmd (sha256_block stack) mem old len msg DST =
    (if len = 0 \<or> 2 ^ 64 - 31 \<le> len then None else if 255 * 32 < len then Some old
     else Some (take len (xmd_spec (sha256_block stack) len msg DST)))"
proof (cases "2 ^ 64 \<le> len + 31")
  case True
  then have "(len + 31) mod 2 ^ 64 = len + 31 - 2 ^ 64" using assms(2) by (simp add: mod_if)
  then have "(len + 31) mod 2 ^ 64 div 32 = 0" using assms(2) by simp
  with True show ?thesis unfolding blst_expand_message_xmd_def Let_def by simp
next
  case False
  then have w: "(len + 31) mod 2 ^ 64 = len + 31" by simp
  have big: "255 * 32 < (len + 31) div 32 * 32 \<longleftrightarrow> 255 * 32 < len"
  proof -
    have "255 * 32 < (len + 31) div 32 * 32 \<longleftrightarrow> 256 \<le> (len + 31) div 32" by linarith
    also have "\<dots> \<longleftrightarrow> 256 * 32 \<le> len + 31" by (simp add: less_eq_div_iff_mult_less_eq)
    finally show ?thesis by linarith
  qed
  have "expand_message_xmd blk mem 0 aug msg DST = None" for blk aug by (simp add: expand_message_xmd_def Let_def)
  then show ?thesis
    using portable_z.expand_value [OF assms(1), of len stack "[]" msg DST] False
    unfolding blst_expand_message_xmd_def Let_def w big by simp
qed

theorem expand_message_rfc9380_witness:
  "blst_expand_message_xmd (sha256_block (\<lambda>_. 7)) (replicate 320 9) [5] 48 [1] [2] =
     Some (take 48 (xmd_spec (sha256_block (\<lambda>_. 7)) 48 [1] [2]))"
  using expand_message_rfc9380 [of "replicate 320 9" 48 "\<lambda>_. 7" "[5]" "[1]" "[2]"] by simp

section \<open>Field elements are the expanded bytes modulo the field characteristic\<close>

lemma p0_inverse: "p0 * BLS12_381_P + 1 = 2 ^ 64 * 0x0e035b9b1e00bc8e2cffcd0f221a175b5fb6d192233b3b63622385e49d0feeb05d4f098d2923b9a36a4aaa14be07a408"
  by (simp add: p0_def BLS12_381_P_def)

lemma fp_modulus_bounds: "0 < BLS12_381_P" "BLS12_381_P < 2 ^ (64 * 6)" "2 ^ 128 < BLS12_381_P"
  by (simp_all add: BLS12_381_P_def)

interpretation fp: montgomery BLS12_381_P p0 6
  using fp_modulus_bounds by unfold_locales (simp_all only: p0_inverse dvd_triv_left)

lemma RRRR_split: "2 ^ 1152 = BLS12_381_RRRR + BLS12_381_P * 0x9d835d2f3cc9e45ce28101b0cc7a6ba291b82741ff6a0a94bdf4771e0286779d3997167a058f1c07b13e207f56591ba2ead397b918f6ff20d533b6c08511c60e2757079ace6bd401859778ceb4dabc4f800a400b2d6af9ba2d07c89368e7a1a60"
  by (simp add: BLS12_381_RRRR_def BLS12_381_P_def)

lemma RRRR: "BLS12_381_RRRR mod BLS12_381_P = (2 ^ (64 * 6) * 2 ^ (64 * 6) * 2 ^ (64 * 6)) mod BLS12_381_P"
  "BLS12_381_RRRR < BLS12_381_P"
proof -
  have "2 ^ (64 * 6) * 2 ^ (64 * 6) * 2 ^ (64 * 6) = (2 ^ 1152 :: nat)" by (simp only: power_add [symmetric]) simp
  then show "BLS12_381_RRRR mod BLS12_381_P = (2 ^ (64 * 6) * 2 ^ (64 * 6) * 2 ^ (64 * 6)) mod BLS12_381_P"
    by (simp only: RRRR_split mod_mult_self2)
  show "BLS12_381_RRRR < BLS12_381_P" by (simp add: BLS12_381_RRRR_def BLS12_381_P_def)
qed

lemma field_element_value:
  assumes "length bs \<le> 64"
  shows "field_element bs = (be_dec bs * 2 ^ (64 * 6)) mod BLS12_381_P"
proof -
  let ?a = "be_dec bs" and ?R = "2 ^ (64 * 6) :: nat" and ?p = BLS12_381_P
  define y where "y = redc_mont_n ?a ?p p0 6"
  have "?a < 256 ^ 64"
    using be_dec_bound [of bs] power_increasing [OF assms, of "256 :: nat"] by linarith
  then have a: "?a < 2 ^ 512" by simp
  have "?a div ?R < 2 ^ 128" using a by (intro less_mult_imp_div_less) simp
  then have hi: "?a div ?R < ?p" using fp_modulus_bounds(3) by linarith
  have "?a < ?R * ?R" using a by (rule less_le_trans) simp
  note y = fp.redc_mont [OF this hi, folded y_def]
  have rr: "BLS12_381_RRRR < ?R" using RRRR(2) fp_modulus_bounds(2) by linarith
  have "y * BLS12_381_RRRR < ?R * ?p"
    using mult_strict_mono [OF y(2) rr] fp_modulus_bounds(1) by (simp add: mult.commute)
  note m = fp.mul_mont_cong [OF rr, of y] fp.mul_mont_lt [OF rr this]
  have "(mul_mont_n y BLS12_381_RRRR ?p p0 6 * ?R) mod ?p = (y * (BLS12_381_RRRR mod ?p)) mod ?p"
    unfolding m(1) by (simp add: mod_mult_right_eq)
  also have "\<dots> = ((y * ?R) mod ?p * (?R * ?R)) mod ?p"
    unfolding RRRR(1) mod_mult_right_eq mod_mult_left_eq by (simp only: mult.assoc)
  also have "\<dots> = (?a * ?R * ?R) mod ?p" unfolding y(1) mod_mult_left_eq by (simp only: mult.assoc)
  finally have "mul_mont_n y BLS12_381_RRRR ?p p0 6 mod ?p = (?a * ?R) mod ?p" by (rule fp.cancel_R)
  then show ?thesis using m(2) by (simp add: field_element_def flip: y_def)
qed

lemma field_elements_value:
  "field_elements n bs = map (\<lambda>i. (be_dec (take 64 (drop (64 * i) bs)) * 2 ^ (64 * 6)) mod BLS12_381_P) [0..<n]"
proof (induction n arbitrary: bs)
  case (Suc n)
  have "[0..<Suc n] = 0 # map Suc [0..<n]" by (simp add: map_Suc_upt upt_conv_Cons del: upt_Suc)
  then show ?case by (simp add: Suc field_element_value comp_def add.commute del: upt_Suc)
qed simp

text \<open>
  C17. Hashing to the field is \<^verbatim>\<open>hash_to_field\<close> of RFC 9380: the elements are the chunks of 64
  expanded bytes, read big-endian and reduced modulo the characteristic, in Montgomery form.
\<close>

theorem hash_to_field_rfc9380:
  assumes "length mem = 320" and "0 < nelems"
  shows "hash_to_field (sha256_block stack) mem nelems aug msg DST =
    Some (map (\<lambda>i. (be_dec (take 64 (drop (64 * i) (xmd_spec (sha256_block stack) (64 * nelems) (aug @ msg) DST)))
        * 2 ^ 384) mod BLS12_381_P) [0..<nelems])"
  using portable_z.expand_value [OF assms(1), of "64 * nelems" stack aug msg DST] assms(2)
  by (simp add: hash_to_field_def field_elements_value)

theorem hash_to_field_rfc9380_witness:
  "\<exists>u0 u1. hash_to_field (sha256_block (\<lambda>_. 7)) (replicate 320 9) 2 [3] [1] [2] = Some [u0, u1] \<and>
     u0 < BLS12_381_P \<and> u1 < BLS12_381_P"
  using hash_to_field_rfc9380 [of "replicate 320 9" 2 "\<lambda>_. 7" "[3]" "[1]" "[2]"] fp_modulus_bounds(1)
  by (simp add: upt_rec numeral_2_eq_2)

end
