(* ===== verification/BlstCurve.thy ===== *)
theory BlstCurve
  imports BlstHashToField
begin

text \<open>
  Points of the two BLS12-381 groups and their wire formats (blst/src/e1.c, blst/src/e2.c), and
  the classes \<^verbatim>\<open>P1_Affine\<close>, \<^verbatim>\<open>P1\<close>, \<^verbatim>\<open>P2_Affine\<close> and \<^verbatim>\<open>P2\<close> of the C++
  interface (blst/bindings/blst.hpp). A field element is its residue, not its Montgomery form, and
  a point in Jacobian coordinates is the affine point it stands for, with the point at infinity as
  the pair of zeros the C code uses for it. Square roots, the group law, scalar multiplication,
  subgroup membership and the map of field elements to the curve are parameters, collected in the record \<open>Core\<close>.
\<close>

section \<open>Field elements\<close>

type_synonym fp2 = "nat \<times> nat"

definition fp_add :: "nat \<Rightarrow> nat \<Rightarrow> nat" where
  "fp_add a b = (a + b) mod BLS12_381_P"

definition fp_sub :: "nat \<Rightarrow> nat \<Rightarrow> nat" where
  "fp_sub a b = (a + BLS12_381_P - b) mod BLS12_381_P"

definition fp_mul :: "nat \<Rightarrow> nat \<Rightarrow> nat" where
  "fp_mul a b = (a * b) mod BLS12_381_P"

definition cneg_fp :: "nat \<Rightarrow> bool \<Rightarrow> nat" where
  "cneg_fp a flag = (if flag \<and> a \<noteq> 0 then BLS12_381_P - a else a)"

definition fp2_add :: "fp2 \<Rightarrow> fp2 \<Rightarrow> fp2" where
  "fp2_add a b = (fp_add (fst a) (fst b), fp_add (snd a) (snd b))"

text \<open>\<^verbatim>\<open>mul_mont_384x\<close>: three multiplications in place of four.\<close>

definition fp2_mul :: "fp2 \<Rightarrow> fp2 \<Rightarrow> fp2" where
  "fp2_mul a b =
     (let bb = fp_mul (fp_add (fst b) (snd b)) (fp_add (fst a) (snd a));
          aa = fp_mul (fst a) (fst b); cc = fp_mul (snd a) (snd b)
      in (fp_sub aa cc, fp_sub (fp_sub bb aa) cc))"

definition cneg_fp2 :: "fp2 \<Rightarrow> bool \<Rightarrow> fp2" where
  "cneg_fp2 a flag = (cneg_fp (fst a) flag, cneg_fp (snd a) flag)"

text \<open>Bit 0 is the parity, bit 1 says whether the value is in the upper half of the field.\<close>

definition sgn0_pty_mod_384 :: "nat \<Rightarrow> nat" where
  "sgn0_pty_mod_384 a = a mod 2 + (if 2 * a < BLS12_381_P then 0 else 2)"

definition sgn0_pty_mod_384x :: "fp2 \<Rightarrow> nat" where
  "sgn0_pty_mod_384x a =
     (let re = sgn0_pty_mod_384 (fst a); im = sgn0_pty_mod_384 (snd a);
          sign = (if snd a = 0 then re else im); prty = (if fst a = 0 then im else re)
      in sign div 2 * 2 + prty mod 2)"

section \<open>Points\<close>

datatype E1 = E1 (E1_X: nat) (E1_Y: nat)

datatype E2 = E2 (E2_X: fp2) (E2_Y: fp2)

definition E1_inf :: E1 where
  "E1_inf = E1 0 0"

definition E2_inf :: E2 where
  "E2_inf = E2 (0, 0) (0, 0)"

definition BLS12_381_G1 :: E1 where
  "BLS12_381_G1 = E1
     0x17f1d3a73197d7942695638c4fa9ac0fc3688c4f9774b905a14e3a3f171bac586c55e83ff97a1aeffb3af00adb22c6bb
     0x08b3f481e3aaa0f1a09e30ed741d8ae4fcf5e095d5d00af600db18cb2c04b3edd03cc744a2888ae40caa232946c5e7e1"

definition BLS12_381_G2 :: E2 where
  "BLS12_381_G2 = E2
     (0x024aa2b2f08f0a91260805272dc51051c6e47ad4fa403b02b4510b647ae3d1770bac0326a805bbefd48056c8c121bdb8,
      0x13e02b6052719f607dacd3a088274f65596bd0d09920b61ab5da61bbdc7f5049334cf11213945d57e5ac7d055d042b7e)
     (0x0ce5d527727d6e118cc9cdc6da2e351aadfd9baa8cbdd3a76d429a695160d12c923ac9cc3baca289e193548608b82801,
      0x0606c4a02ea734cc32acd2b02bc28b99cb3e287e85a763af267492ab572e99ab3f370d275cec1da1aaa9075ff05f79be)"

definition POINTonE1_affine_on_curve :: "E1 \<Rightarrow> bool" where
  "POINTonE1_affine_on_curve p \<longleftrightarrow>
     fp_add (fp_mul (fp_mul (E1_X p) (E1_X p)) (E1_X p)) 4 = fp_mul (E1_Y p) (E1_Y p)"

definition POINTonE2_affine_on_curve :: "E2 \<Rightarrow> bool" where
  "POINTonE2_affine_on_curve p \<longleftrightarrow>
     fp2_add (fp2_mul (fp2_mul (E2_X p) (E2_X p)) (E2_X p)) (4, 4) = fp2_mul (E2_Y p) (E2_Y p)"

definition POINTonE1_cneg :: "E1 \<Rightarrow> bool \<Rightarrow> E1" where
  "POINTonE1_cneg p cbit = E1 (E1_X p) (cneg_fp (E1_Y p) cbit)"

definition POINTonE2_cneg :: "E2 \<Rightarrow> bool \<Rightarrow> E2" where
  "POINTonE2_cneg p cbit = E2 (E2_X p) (cneg_fp2 (E2_Y p) cbit)"

section \<open>The parameters\<close>

text \<open>
  The operations the bindings build on: \<^verbatim>\<open>sqrt_fp\<close>, \<^verbatim>\<open>sqrt_fp2\<close>; \<^verbatim>\<open>dadd\<close>,
  \<^verbatim>\<open>double\<close>, windowed multiplication, multiplication through the endomorphism (which assumes a
  point of the subgroup) and subgroup membership on both curves; the maps of one or two field
  elements, in Montgomery form, to the subgroups; the field of pairing values with the line
  evaluations of the Miller loop and the final exponentiation; the inverse of Montgomery forms; the
  compression function of SHA-256 the build selects. The last two fields are no operations but what
  the stack holds when key derivation and the expansion of a message begin.
\<close>

record 'gt Core =
  sqrt_fp :: "nat \<Rightarrow> nat option"
  sqrt_fp2 :: "fp2 \<Rightarrow> fp2 option"
  E1_dadd :: "E1 \<Rightarrow> E1 \<Rightarrow> E1"
  E1_double :: "E1 \<Rightarrow> E1"
  E1_mult :: "E1 \<Rightarrow> nat \<Rightarrow> E1"
  E1_mult_glv :: "E1 \<Rightarrow> nat \<Rightarrow> E1"
  E1_in_G1 :: "E1 \<Rightarrow> bool"
  map_to_g1 :: "nat \<Rightarrow> nat option \<Rightarrow> E1"
  E2_dadd :: "E2 \<Rightarrow> E2 \<Rightarrow> E2"
  E2_double :: "E2 \<Rightarrow> E2"
  E2_mult :: "E2 \<Rightarrow> nat \<Rightarrow> E2"
  E2_mult_gls :: "E2 \<Rightarrow> nat \<Rightarrow> E2"
  E2_in_G2 :: "E2 \<Rightarrow> bool"
  map_to_g2 :: "fp2 \<Rightarrow> fp2 option \<Rightarrow> E2"
  fp12_one :: 'gt
  mul_fp12 :: "'gt \<Rightarrow> 'gt \<Rightarrow> 'gt"
  sqr_fp12 :: "'gt \<Rightarrow> 'gt"
  conjugate_fp12 :: "'gt \<Rightarrow> 'gt"
  final_exp :: "'gt \<Rightarrow> 'gt"
  fp12_in_group :: "'gt \<Rightarrow> bool"
  fp12_is_zero :: "'gt \<Rightarrow> bool"
  bendian_from_fp12 :: "'gt \<Rightarrow> bytes"
  miller_lines :: "(E2 \<times> E1) list \<Rightarrow> 'gt"
  reciprocal_fr :: "nat \<Rightarrow> nat"
  sha256_block_data_order :: compression
  keygen_scratch :: HMAC_SHA256_CTX
  xmd_buffer :: bytes

section \<open>Hashing to the groups\<close>

definition hashed_elements :: "'gt Core \<Rightarrow> nat \<Rightarrow> bytes \<Rightarrow> bytes \<Rightarrow> bytes \<Rightarrow> nat list" where
  "hashed_elements K nelems msg DST aug =
     (case hash_to_field (sha256_block_data_order K) (xmd_buffer K) nelems aug msg DST of Some u \<Rightarrow> u | None \<Rightarrow> [])"

definition Encode_to_G1 :: "'gt Core \<Rightarrow> bytes \<Rightarrow> bytes \<Rightarrow> bytes \<Rightarrow> E1" where
  "Encode_to_G1 K msg DST aug = (let u = hashed_elements K 1 msg DST aug in map_to_g1 K (u ! 0) None)"

definition Hash_to_G1 :: "'gt Core \<Rightarrow> bytes \<Rightarrow> bytes \<Rightarrow> bytes \<Rightarrow> E1" where
  "Hash_to_G1 K msg DST aug = (let u = hashed_elements K 2 msg DST aug in map_to_g1 K (u ! 0) (Some (u ! 1)))"

definition Encode_to_G2 :: "'gt Core \<Rightarrow> bytes \<Rightarrow> bytes \<Rightarrow> bytes \<Rightarrow> E2" where
  "Encode_to_G2 K msg DST aug = (let u = hashed_elements K 2 msg DST aug in map_to_g2 K (u ! 0, u ! 1) None)"

definition Hash_to_G2 :: "'gt Core \<Rightarrow> bytes \<Rightarrow> bytes \<Rightarrow> bytes \<Rightarrow> E2" where
  "Hash_to_G2 K msg DST aug =
     (let u = hashed_elements K 4 msg DST aug in map_to_g2 K (u ! 0, u ! 1) (Some (u ! 2, u ! 3)))"

section \<open>Wire formats\<close>

text \<open>The first byte of an encoding carries three flags: compressed, infinity and sign.\<close>

definition set_flags :: "byte \<Rightarrow> bytes \<Rightarrow> bytes" where
  "set_flags f out = (case out of [] \<Rightarrow> [] | b # bs \<Rightarrow> (b OR f) # bs)"

definition flag_of :: "byte \<Rightarrow> bytes \<Rightarrow> bool" where
  "flag_of f inp = (case inp of [] \<Rightarrow> False | b # _ \<Rightarrow> b AND f \<noteq> 0)"

definition zero_tail :: "bytes \<Rightarrow> bool" where
  "zero_tail inp = (case inp of [] \<Rightarrow> False | b # bs \<Rightarrow> b AND 0x3f = 0 \<and> (\<forall>x \<in> set bs. x = 0))"

definition clear_top3 :: "nat \<Rightarrow> nat" where
  "clear_top3 x = x mod 2 ^ 381"

definition field_of :: "bytes \<Rightarrow> nat \<Rightarrow> nat" where
  "field_of inp off = be_dec (take 48 (drop off inp))"

definition blst_p1_affine_serialize :: "E1 \<Rightarrow> bytes" where
  "blst_p1_affine_serialize p =
     (if p = E1_inf then 0x40 # replicate 95 0 else be_enc 48 (E1_X p) @ be_enc 48 (E1_Y p))"

definition blst_p1_affine_compress :: "E1 \<Rightarrow> bytes" where
  "blst_p1_affine_compress p =
     (if p = E1_inf then 0xc0 # replicate 47 0
      else let sign = sgn0_pty_mod_384 (E1_Y p)
           in set_flags (if 2 \<le> sign then 0x80 OR 0x20 else 0x80) (be_enc 48 (E1_X p)))"

definition POINTonE1_Uncompress_Z :: "'gt Core \<Rightarrow> bytes \<Rightarrow> BLST_ERROR + E1" where
  "POINTonE1_Uncompress_Z K inp =
     (if \<not> flag_of 0x80 inp then Inl BLST_BAD_ENCODING
      else if flag_of 0x40 inp then
        (if zero_tail (take 48 inp) then Inr E1_inf else Inl BLST_BAD_ENCODING)
      else
        let X = clear_top3 (field_of inp 0) in
        if BLS12_381_P \<le> X then Inl BLST_BAD_ENCODING
        else case sqrt_fp K (fp_add (fp_mul (fp_mul X X) X) 4) of
          None \<Rightarrow> Inl BLST_POINT_NOT_ON_CURVE
        | Some Y \<Rightarrow>
            let sgn = (2 \<le> sgn0_pty_mod_384 Y); Y' = cneg_fp Y (sgn \<noteq> flag_of 0x20 inp)
            in if X = 0 then Inl BLST_POINT_NOT_IN_GROUP else Inr (E1 X Y'))"

definition POINTonE1_Deserialize_BE :: "bytes \<Rightarrow> BLST_ERROR + E1" where
  "POINTonE1_Deserialize_BE inp =
     (let X = clear_top3 (field_of inp 0); Y = field_of inp 48 in
      if BLS12_381_P \<le> X then Inl BLST_BAD_ENCODING
      else if BLS12_381_P \<le> Y then Inl BLST_BAD_ENCODING
      else if \<not> POINTonE1_affine_on_curve (E1 X Y) then Inl BLST_POINT_NOT_ON_CURVE
      else if X = 0 then Inl BLST_POINT_NOT_IN_GROUP else Inr (E1 X Y))"

definition blst_p1_deserialize :: "'gt Core \<Rightarrow> bytes \<Rightarrow> BLST_ERROR + E1" where
  "blst_p1_deserialize K inp =
     (if \<not> flag_of 0xe0 inp then POINTonE1_Deserialize_BE inp
      else if flag_of 0x80 inp then POINTonE1_Uncompress_Z K inp
      else if flag_of 0x40 inp \<and> zero_tail (take 96 inp) then Inr E1_inf
      else Inl BLST_BAD_ENCODING)"

definition blst_p2_affine_serialize :: "E2 \<Rightarrow> bytes" where
  "blst_p2_affine_serialize p =
     (if p = E2_inf then 0x40 # replicate 191 0
      else be_enc 48 (snd (E2_X p)) @ be_enc 48 (fst (E2_X p)) @
           be_enc 48 (snd (E2_Y p)) @ be_enc 48 (fst (E2_Y p)))"

definition blst_p2_affine_compress :: "E2 \<Rightarrow> bytes" where
  "blst_p2_affine_compress p =
     (if p = E2_inf then 0xc0 # replicate 95 0
      else let sign = sgn0_pty_mod_384x (E2_Y p)
           in set_flags (if 2 \<le> sign then 0x80 OR 0x20 else 0x80)
                (be_enc 48 (snd (E2_X p)) @ be_enc 48 (fst (E2_X p))))"

definition POINTonE2_Uncompress_Z :: "'gt Core \<Rightarrow> bytes \<Rightarrow> BLST_ERROR + E2" where
  "POINTonE2_Uncompress_Z K inp =
     (if \<not> flag_of 0x80 inp then Inl BLST_BAD_ENCODING
      else if flag_of 0x40 inp then
        (if zero_tail (take 96 inp) then Inr E2_inf else Inl BLST_BAD_ENCODING)
      else
        let X1 = clear_top3 (field_of inp 0); X0 = field_of inp 48 in
        if BLS12_381_P \<le> X1 then Inl BLST_BAD_ENCODING
        else if BLS12_381_P \<le> X0 then Inl BLST_BAD_ENCODING
        else case sqrt_fp2 K (fp2_add (fp2_mul (fp2_mul (X0, X1) (X0, X1)) (X0, X1)) (4, 4)) of
          None \<Rightarrow> Inl BLST_POINT_NOT_ON_CURVE
        | Some Y \<Rightarrow>
            let sgn = (2 \<le> sgn0_pty_mod_384x Y); Y' = cneg_fp2 Y (sgn \<noteq> flag_of 0x20 inp)
            in Inr (E2 (X0, X1) Y'))"

definition POINTonE2_Deserialize_BE :: "bytes \<Rightarrow> BLST_ERROR + E2" where
  "POINTonE2_Deserialize_BE inp =
     (let X1 = clear_top3 (field_of inp 0); X0 = field_of inp 48;
          Y1 = field_of inp 96; Y0 = field_of inp 144 in
      if BLS12_381_P \<le> X1 then Inl BLST_BAD_ENCODING
      else if BLS12_381_P \<le> X0 then Inl BLST_BAD_ENCODING
      else if BLS12_381_P \<le> Y1 then Inl BLST_BAD_ENCODING
      else if BLS12_381_P \<le> Y0 then Inl BLST_BAD_ENCODING
      else if \<not> POINTonE2_affine_on_curve (E2 (X0, X1) (Y0, Y1)) then Inl BLST_POINT_NOT_ON_CURVE
      else Inr (E2 (X0, X1) (Y0, Y1)))"

definition blst_p2_deserialize :: "'gt Core \<Rightarrow> bytes \<Rightarrow> BLST_ERROR + E2" where
  "blst_p2_deserialize K inp =
     (if \<not> flag_of 0xe0 inp then POINTonE2_Deserialize_BE inp
      else if flag_of 0x80 inp then POINTonE2_Uncompress_Z K inp
      else if flag_of 0x40 inp \<and> zero_tail (take 192 inp) then Inr E2_inf
      else Inl BLST_BAD_ENCODING)"

section \<open>The classes P1_Affine and P1\<close>

datatype P1_Affine = P1_Affine (p1a_point: E1)

datatype P1 = P1 (p1_point: E1)

text \<open>
  The constructor from bytes: the length has to match the compression flag. A failure is thrown as
  an error code.
\<close>

definition point1_of_bytes :: "'gt Core \<Rightarrow> bytes \<Rightarrow> E1 js_result" where
  "point1_of_bytes K inp =
     (if length inp = 0 \<or> length inp \<noteq> (if flag_of 0x80 inp then 48 else 96) then blst_throw BLST_BAD_ENCODING
      else case blst_p1_deserialize K inp of Inl err \<Rightarrow> blst_throw err | Inr p \<Rightarrow> Inr p)"

definition P1_Affine_new :: P1_Affine where
  "P1_Affine_new = P1_Affine E1_inf"

definition P1_Affine_of_bytes :: "'gt Core \<Rightarrow> bytes \<Rightarrow> P1_Affine js_result" where
  "P1_Affine_of_bytes K inp = js_bind (point1_of_bytes K inp) (\<lambda>p. Inr (P1_Affine p))"

definition P1_Affine_of_jacobian :: "P1 \<Rightarrow> P1_Affine" where
  "P1_Affine_of_jacobian j = P1_Affine (p1_point j)"

definition P1_new :: P1 where
  "P1_new = P1 E1_inf"

definition P1_of_sk :: "'gt Core \<Rightarrow> SecretKey \<Rightarrow> P1" where
  "P1_of_sk K sk = P1 (E1_mult_glv K BLS12_381_G1 (sk_key sk))"

definition P1_of_bytes :: "'gt Core \<Rightarrow> bytes \<Rightarrow> P1 js_result" where
  "P1_of_bytes K inp = js_bind (point1_of_bytes K inp) (\<lambda>p. Inr (P1 p))"

definition P1_of_affine :: "P1_Affine \<Rightarrow> P1" where
  "P1_of_affine a = P1 (p1a_point a)"

definition P1_Affine_to_jacobian :: "P1_Affine \<Rightarrow> P1" where
  "P1_Affine_to_jacobian a = P1_of_affine a"

definition P1_Affine_on_curve :: "P1_Affine \<Rightarrow> bool" where
  "P1_Affine_on_curve a \<longleftrightarrow> POINTonE1_affine_on_curve (p1a_point a) \<or> p1a_point a = E1_inf"

definition P1_Affine_in_group :: "'gt Core \<Rightarrow> P1_Affine \<Rightarrow> bool" where
  "P1_Affine_in_group K a \<longleftrightarrow> E1_in_G1 K (p1a_point a)"

definition P1_Affine_is_inf :: "P1_Affine \<Rightarrow> bool" where
  "P1_Affine_is_inf a \<longleftrightarrow> p1a_point a = E1_inf"

definition P1_Affine_is_equal :: "P1_Affine \<Rightarrow> P1_Affine \<Rightarrow> bool" where
  "P1_Affine_is_equal a b \<longleftrightarrow> p1a_point a = p1a_point b"

definition P1_Affine_serialize :: "P1_Affine \<Rightarrow> bytes" where
  "P1_Affine_serialize a = blst_p1_affine_serialize (p1a_point a)"

definition P1_Affine_compress :: "P1_Affine \<Rightarrow> bytes" where
  "P1_Affine_compress a = blst_p1_affine_compress (p1a_point a)"

definition P1_to_affine :: "P1 \<Rightarrow> P1_Affine" where
  "P1_to_affine j = P1_Affine_of_jacobian j"

definition P1_serialize :: "P1 \<Rightarrow> bytes" where
  "P1_serialize j = blst_p1_affine_serialize (p1_point j)"

definition P1_compress :: "P1 \<Rightarrow> bytes" where
  "P1_compress j = blst_p1_affine_compress (p1_point j)"

definition P1_on_curve :: "P1 \<Rightarrow> bool" where
  "P1_on_curve j \<longleftrightarrow> POINTonE1_affine_on_curve (p1_point j) \<or> p1_point j = E1_inf"

definition P1_in_group :: "'gt Core \<Rightarrow> P1 \<Rightarrow> bool" where
  "P1_in_group K j \<longleftrightarrow> E1_in_G1 K (p1_point j)"

definition P1_is_inf :: "P1 \<Rightarrow> bool" where
  "P1_is_inf j \<longleftrightarrow> p1_point j = E1_inf"

definition P1_is_equal :: "P1 \<Rightarrow> P1 \<Rightarrow> bool" where
  "P1_is_equal j k \<longleftrightarrow> p1_point j = p1_point k"

definition P1_aggregate :: "'gt Core \<Rightarrow> P1 \<Rightarrow> P1_Affine \<Rightarrow> P1 js_result" where
  "P1_aggregate K j a =
     (if E1_in_G1 K (p1a_point a) then Inr (P1 (E1_dadd K (p1_point j) (p1a_point a)))
      else blst_throw BLST_POINT_NOT_IN_GROUP)"

definition P1_sign_with :: "'gt Core \<Rightarrow> P1 \<Rightarrow> SecretKey \<Rightarrow> P1" where
  "P1_sign_with K j sk = P1 (E1_mult_glv K (p1_point j) (sk_key sk))"

definition P1_hash_to :: "'gt Core \<Rightarrow> P1 \<Rightarrow> bytes \<Rightarrow> bytes \<Rightarrow> bytes \<Rightarrow> P1" where
  "P1_hash_to K j msg DST aug = P1 (Hash_to_G1 K msg DST aug)"

definition P1_encode_to :: "'gt Core \<Rightarrow> P1 \<Rightarrow> bytes \<Rightarrow> bytes \<Rightarrow> bytes \<Rightarrow> P1" where
  "P1_encode_to K j msg DST aug = P1 (Encode_to_G1 K msg DST aug)"

text \<open>
  \<^verbatim>\<open>blst_p1_mult\<close> picks an algorithm by the number of bits; the one through the endomorphism
  serves only multipliers below the group order.
\<close>

definition blst_p1_mult :: "'gt Core \<Rightarrow> E1 \<Rightarrow> bytes \<Rightarrow> nat \<Rightarrow> E1" where
  "blst_p1_mult K a scalar nbits =
     (if nbits < 176 then (if nbits \<noteq> 0 then E1_mult K a (le_dec scalar mod 2 ^ nbits) else E1_inf)
      else if nbits \<le> 256 then
        let val = le_dec (take ((nbits + 7) div 8) scalar)
        in if check_mod_n val BLS12_381_r then E1_mult_glv K a val else E1_mult K a (le_dec scalar mod 2 ^ nbits)
      else E1_mult K a (le_dec scalar mod 2 ^ nbits))"

definition P1_mult :: "'gt Core \<Rightarrow> P1 \<Rightarrow> Scalar scalar \<Rightarrow> P1 js_result" where
  "P1_mult K j s = (case s of
     Scalar_object sc \<Rightarrow> Inr (P1 (blst_p1_mult K (p1_point j) (le_enc 32 (sc_val sc)) 255))
   | Scalar_bytes b \<Rightarrow> Inr (P1 (blst_p1_mult K (p1_point j) b (8 * length b)))
   | Scalar_bigint i \<Rightarrow>
       js_bind (bigint_bytes i) (\<lambda>b. Inr (P1 (blst_p1_mult K (p1_point j) b (8 * length b)))))"

definition P1_cneg :: "P1 \<Rightarrow> bool \<Rightarrow> P1" where
  "P1_cneg j flag = P1 (POINTonE1_cneg (p1_point j) flag)"

definition P1_neg :: "P1 \<Rightarrow> P1" where
  "P1_neg j = P1 (POINTonE1_cneg (p1_point j) True)"

definition P1_add :: "'gt Core \<Rightarrow> P1 \<Rightarrow> P1 \<Rightarrow> P1" where
  "P1_add K j a = P1 (E1_dadd K (p1_point j) (p1_point a))"

definition P1_add_affine :: "'gt Core \<Rightarrow> P1 \<Rightarrow> P1_Affine \<Rightarrow> P1" where
  "P1_add_affine K j a = P1 (E1_dadd K (p1_point j) (p1a_point a))"

definition P1_dbl :: "'gt Core \<Rightarrow> P1 \<Rightarrow> P1" where
  "P1_dbl K j = P1 (E1_double K (p1_point j))"

definition P1_generator :: P1 where
  "P1_generator = P1 BLS12_381_G1"

section \<open>The classes P2_Affine and P2\<close>

datatype P2_Affine = P2_Affine (p2a_point: E2)

datatype P2 = P2 (p2_point: E2)

text \<open>
  The constructor from bytes: the length has to match the compression flag. A failure is thrown as
  an error code.
\<close>

definition point2_of_bytes :: "'gt Core \<Rightarrow> bytes \<Rightarrow> E2 js_result" where
  "point2_of_bytes K inp =
     (if length inp = 0 \<or> length inp \<noteq> (if flag_of 0x80 inp then 96 else 192) then blst_throw BLST_BAD_ENCODING
      else case blst_p2_deserialize K inp of Inl err \<Rightarrow> blst_throw err | Inr p \<Rightarrow> Inr p)"

definition P2_Affine_new :: P2_Affine where
  "P2_Affine_new = P2_Affine E2_inf"

definition P2_Affine_of_bytes :: "'gt Core \<Rightarrow> bytes \<Rightarrow> P2_Affine js_result" where
  "P2_Affine_of_bytes K inp = js_bind (point2_of_bytes K inp) (\<lambda>p. Inr (P2_Affine p))"

definition P2_Affine_of_jacobian :: "P2 \<Rightarrow> P2_Affine" where
  "P2_Affine_of_jacobian j = P2_Affine (p2_point j)"

definition P2_new :: P2 where
  "P2_new = P2 E2_inf"

definition P2_of_sk :: "'gt Core \<Rightarrow> SecretKey \<Rightarrow> P2" where
  "P2_of_sk K sk = P2 (E2_mult_gls K BLS12_381_G2 (sk_key sk))"

definition P2_of_bytes :: "'gt Core \<Rightarrow> bytes \<Rightarrow> P2 js_result" where
  "P2_of_bytes K inp = js_bind (point2_of_bytes K inp) (\<lambda>p. Inr (P2 p))"

definition P2_of_affine :: "P2_Affine \<Rightarrow> P2" where
  "P2_of_affine a = P2 (p2a_point a)"

definition P2_Affine_to_jacobian :: "P2_Affine \<Rightarrow> P2" where
  "P2_Affine_to_jacobian a = P2_of_affine a"

definition P2_Affine_on_curve :: "P2_Affine \<Rightarrow> bool" where
  "P2_Affine_on_curve a \<longleftrightarrow> POINTonE2_affine_on_curve (p2a_point a) \<or> p2a_point a = E2_inf"

definition P2_Affine_in_group :: "'gt Core \<Rightarrow> P2_Affine \<Rightarrow> bool" where
  "P2_Affine_in_group K a \<longleftrightarrow> E2_in_G2 K (p2a_point a)"

definition P2_Affine_is_inf :: "P2_Affine \<Rightarrow> bool" where
  "P2_Affine_is_inf a \<longleftrightarrow> p2a_point a = E2_inf"

definition P2_Affine_is_equal :: "P2_Affine \<Rightarrow> P2_Affine \<Rightarrow> bool" where
  "P2_Affine_is_equal a b \<longleftrightarrow> p2a_point a = p2a_point b"

definition P2_Affine_serialize :: "P2_Affine \<Rightarrow> bytes" where
  "P2_Affine_serialize a = blst_p2_affine_serialize (p2a_point a)"

definition P2_Affine_compress :: "P2_Affine \<Rightarrow> bytes" where
  "P2_Affine_compress a = blst_p2_affine_compress (p2a_point a)"

definition P2_to_affine :: "P2 \<Rightarrow> P2_Affine" where
  "P2_to_affine j = P2_Affine_of_jacobian j"

definition P2_serialize :: "P2 \<Rightarrow> bytes" where
  "P2_serialize j = blst_p2_affine_serialize (p2_point j)"

definition P2_compress :: "P2 \<Rightarrow> bytes" where
  "P2_compress j = blst_p2_affine_compress (p2_point j)"

definition P2_on_curve :: "P2 \<Rightarrow> bool" where
  "P2_on_curve j \<longleftrightarrow> POINTonE2_affine_on_curve (p2_point j) \<or> p2_point j = E2_inf"

definition P2_in_group :: "'gt Core \<Rightarrow> P2 \<Rightarrow> bool" where
  "P2_in_group K j \<longleftrightarrow> E2_in_G2 K (p2_point j)"

definition P2_is_inf :: "P2 \<Rightarrow> bool" where
  "P2_is_inf j \<longleftrightarrow> p2_point j = E2_inf"

definition P2_is_equal :: "P2 \<Rightarrow> P2 \<Rightarrow> bool" where
  "P2_is_equal j k \<longleftrightarrow> p2_point j = p2_point k"

definition P2_aggregate :: "'gt Core \<Rightarrow> P2 \<Rightarrow> P2_Affine \<Rightarrow> P2 js_result" where
  "P2_aggregate K j a =
     (if E2_in_G2 K (p2a_point a) then Inr (P2 (E2_dadd K (p2_point j) (p2a_point a)))
      else blst_throw BLST_POINT_NOT_IN_GROUP)"

definition P2_sign_with :: "'gt Core \<Rightarrow> P2 \<Rightarrow> SecretKey \<Rightarrow> P2" where
  "P2_sign_with K j sk = P2 (E2_mult_gls K (p2_point j) (sk_key sk))"

definition P2_hash_to :: "'gt Core \<Rightarrow> P2 \<Rightarrow> bytes \<Rightarrow> bytes \<Rightarrow> bytes \<Rightarrow> P2" where
  "P2_hash_to K j msg DST aug = P2 (Hash_to_G2 K msg DST aug)"

definition P2_encode_to :: "'gt Core \<Rightarrow> P2 \<Rightarrow> bytes \<Rightarrow> bytes \<Rightarrow> bytes \<Rightarrow> P2" where
  "P2_encode_to K j msg DST aug = P2 (Encode_to_G2 K msg DST aug)"

text \<open>
  \<^verbatim>\<open>blst_p2_mult\<close> picks an algorithm by the number of bits; the one through the endomorphism
  serves only multipliers below the group order.
\<close>

definition blst_p2_mult :: "'gt Core \<Rightarrow> E2 \<Rightarrow> bytes \<Rightarrow> nat \<Rightarrow> E2" where
  "blst_p2_mult K a scalar nbits =
     (if nbits < 144 then (if nbits \<noteq> 0 then E2_mult K a (le_dec scalar mod 2 ^ nbits) else E2_inf)
      else if nbits \<le> 256 then
        let val = le_dec (take ((nbits + 7) div 8) scalar)
        in if check_mod_n val BLS12_381_r then E2_mult_gls K a val else E2_mult K a (le_dec scalar mod 2 ^ nbits)
      else E2_mult K a (le_dec scalar mod 2 ^ nbits))"

definition P2_mult :: "'gt Core \<Rightarrow> P2 \<Rightarrow> Scalar scalar \<Rightarrow> P2 js_result" where
  "P2_mult K j s = (case s of
     Scalar_object sc \<Rightarrow> Inr (P2 (blst_p2_mult K (p2_point j) (le_enc 32 (sc_val sc)) 255))
   | Scalar_bytes b \<Rightarrow> Inr (P2 (blst_p2_mult K (p2_point j) b (8 * length b)))
   | Scalar_bigint i \<Rightarrow>
       js_bind (bigint_bytes i) (\<lambda>b. Inr (P2 (blst_p2_mult K (p2_point j) b (8 * length b)))))"

definition P2_cneg :: "P2 \<Rightarrow> bool \<Rightarrow> P2" where
  "P2_cneg j flag = P2 (POINTonE2_cneg (p2_point j) flag)"

definition P2_neg :: "P2 \<Rightarrow> P2" where
  "P2_neg j = P2 (POINTonE2_cneg (p2_point j) True)"

definition P2_add :: "'gt Core \<Rightarrow> P2 \<Rightarrow> P2 \<Rightarrow> P2" where
  "P2_add K j a = P2 (E2_dadd K (p2_point j) (p2_point a))"

definition P2_add_affine :: "'gt Core \<Rightarrow> P2 \<Rightarrow> P2_Affine \<Rightarrow> P2" where
  "P2_add_affine K j a = P2 (E2_dadd K (p2_point j) (p2a_point a))"

definition P2_dbl :: "'gt Core \<Rightarrow> P2 \<Rightarrow> P2" where
  "P2_dbl K j = P2 (E2_double K (p2_point j))"

definition P2_generator :: P2 where
  "P2_generator = P2 BLS12_381_G2"

section \<open>Reading back what was written\<close>

lemma P_bounds: "0 < BLS12_381_P" "BLS12_381_P < 2 ^ 381" "odd BLS12_381_P"
  by (simp_all add: BLS12_381_P_def)

lemma le_enc_snoc: "le_enc (Suc n) x = le_enc n x @ [of_nat (x div 256 ^ n)]"
proof (induction n arbitrary: x)
  case (Suc n)
  have "le_enc (Suc (Suc n)) x = of_nat x # le_enc n (x div 256) @ [of_nat (x div 256 div 256 ^ n)]"
    using Suc.IH [of "x div 256"] by simp
  then show ?case by (simp add: div_mult2_eq)
qed simp

lemma be_enc_Suc: "be_enc (Suc n) x = of_nat (x div 256 ^ n) # be_enc n x"
  unfolding be_enc_def le_enc_snoc by simp

lemma be_enc_48: "be_enc 48 x = of_nat (x div 256 ^ 47) # be_enc 47 x"
  using be_enc_Suc [of 47 x] by simp

lemma be_dec_Cons: "be_dec (b # bs) = unat b * 256 ^ length bs + be_dec bs"
  using be_dec_append [of "[b]" bs] by (simp add: be_dec_def)

lemma be_dec_enc_mod: "be_dec (be_enc n x) = x mod 256 ^ n"
  by (simp add: be_dec_def be_enc_def le_dec_enc)

lemma and_high:
  fixes b m :: byte
  assumes "take_bit 5 b = b" and "take_bit 5 m = 0"
  shows "b AND m = 0"
proof (rule bit_word_eqI)
  fix n
  have "bit b n \<Longrightarrow> n < 5" using assms(1) by (metis bit_take_bit_iff)
  moreover have "n < 5 \<Longrightarrow> \<not> bit m n" using assms(2) by (metis bit_0_eq bit_take_bit_iff bot_apply bot_bool_def)
  ultimately show "bit (b AND m) n = bit 0 n" by (auto simp: bit_and_iff)
qed

text \<open>The top byte of a field element leaves the three flag bits free.\<close>

lemma top_byte:
  assumes "x < BLS12_381_P"
  shows "take_bit 5 (of_nat (x div 256 ^ 47) :: byte) = of_nat (x div 256 ^ 47)"
    and "unat (of_nat (x div 256 ^ 47) :: byte) = x div 256 ^ 47" and "x div 256 ^ 47 < 32"
proof -
  have "x < 32 * 256 ^ 47" using assms P_bounds(2) by simp
  then show lt: "x div 256 ^ 47 < 32" by (simp add: div_less_iff_less_mult)
  then show u: "unat (of_nat (x div 256 ^ 47) :: byte) = x div 256 ^ 47" by (simp add: unat_of_nat)
  have "unat (take_bit 5 (of_nat (x div 256 ^ 47) :: byte)) = x div 256 ^ 47"
    unfolding unsigned_take_bit_eq u using lt by (simp add: take_bit_eq_mod)
  then show "take_bit 5 (of_nat (x div 256 ^ 47) :: byte) = of_nat (x div 256 ^ 47)"
    by (metis u word_unat_eq_iff)
qed

lemma flags_clear:
  assumes "x < BLS12_381_P" and "take_bit 5 m = 0"
  shows "flag_of m (be_enc 48 x @ bs) = False" and "flag_of m (set_flags f (be_enc 48 x @ bs)) = (f AND m \<noteq> 0)"
  using and_high [OF top_byte(1) [OF assms(1)] assms(2)]
  by (simp_all add: be_enc_48 flag_of_def set_flags_def bit.conj_disj_distrib2)

lemma mod_split:
  fixes B :: nat
  assumes "r < B"
  shows "(a * B + r) mod (B * k) = B * (a mod k) + r"
proof -
  have "(a * B + r) div B = a" "(a * B + r) mod B = r" using assms by simp_all
  then show ?thesis by (simp only: mod_mult2_eq)
qed

lemma clear_top3_field:
  assumes "x < BLS12_381_P" and "take_bit 5 f = 0"
  shows "clear_top3 (field_of (set_flags f (be_enc 48 x @ bs)) 0) = x"
    and "clear_top3 (field_of (be_enc 48 x @ bs) 0) = x"
    and "field_of (set_flags f (be_enc 48 x @ bs)) 48 = be_dec (take 48 bs)"
    and "length (set_flags f (be_enc 48 x @ bs)) = 48 + length bs"
proof -
  let ?b = "of_nat (x div 256 ^ 47) :: byte"
  have rest: "be_dec (be_enc 47 x) = x mod 256 ^ 47" by (rule be_dec_enc_mod)
  have mod: "clear_top3 (unat c * 256 ^ 47 + x mod 256 ^ 47) = x" if "take_bit 5 c = ?b" for c :: byte
  proof -
    have "unat c mod 32 = unat (take_bit 5 c)" by (simp only: unsigned_take_bit_eq) (simp add: take_bit_eq_mod)
    then have c: "unat c mod 32 = x div 256 ^ 47" using that top_byte(2) [OF assms(1)] by simp
    have "(unat c * 256 ^ 47 + x mod 256 ^ 47) mod (256 ^ 47 * 32) = 256 ^ 47 * (unat c mod 32) + x mod 256 ^ 47"
      by (rule mod_split) simp
    also have "\<dots> = x" unfolding c by simp
    finally show ?thesis by (simp add: clear_top3_def)
  qed
  have "take_bit 5 (?b OR f) = ?b" using top_byte(1) [OF assms(1)] assms(2) by simp
  from mod [OF this] show "clear_top3 (field_of (set_flags f (be_enc 48 x @ bs)) 0) = x"
    by (simp add: field_of_def set_flags_def be_enc_48 be_dec_Cons rest)
  from mod [OF top_byte(1) [OF assms(1)]] show "clear_top3 (field_of (be_enc 48 x @ bs) 0) = x"
    by (simp add: field_of_def be_enc_48 be_dec_Cons rest)
  show "field_of (set_flags f (be_enc 48 x @ bs)) 48 = be_dec (take 48 bs)"
    by (simp add: field_of_def set_flags_def be_enc_48)
  show "length (set_flags f (be_enc 48 x @ bs)) = 48 + length bs"
    by (simp add: set_flags_def be_enc_48)
qed

lemma field_back: "x < BLS12_381_P \<Longrightarrow> be_dec (be_enc 48 x) = x"
  using P_bounds(2) by (simp add: be_dec_enc)

lemma field_of_append: "length pre = off \<Longrightarrow> x < BLS12_381_P \<Longrightarrow> field_of (pre @ be_enc 48 x @ bs) off = x"
  by (simp add: field_of_def field_back)

text \<open>
  The points of the curves: reduced coordinates that satisfy the equation, or infinity. The decoder of
  E1 refuses the two points with a zero coordinate, \<open>(0, 2)\<close> and \<open>(0, -2)\<close>, which are on the curve and
  not in the group; \<open>E1_valid\<close> is the rest.
\<close>

definition E1_point :: "E1 \<Rightarrow> bool" where
  "E1_point p \<longleftrightarrow> p = E1_inf \<or>
     E1_X p < BLS12_381_P \<and> E1_Y p < BLS12_381_P \<and> POINTonE1_affine_on_curve p"

definition E1_refused :: "E1 \<Rightarrow> bool" where
  "E1_refused p \<longleftrightarrow> p \<noteq> E1_inf \<and> E1_X p = 0"

definition E1_valid :: "E1 \<Rightarrow> bool" where
  "E1_valid p \<longleftrightarrow> p = E1_inf \<or>
     E1_X p < BLS12_381_P \<and> E1_Y p < BLS12_381_P \<and> E1_X p \<noteq> 0 \<and> POINTonE1_affine_on_curve p"

definition E2_valid :: "E2 \<Rightarrow> bool" where
  "E2_valid p \<longleftrightarrow> p = E2_inf \<or>
     fst (E2_X p) < BLS12_381_P \<and> snd (E2_X p) < BLS12_381_P \<and>
     fst (E2_Y p) < BLS12_381_P \<and> snd (E2_Y p) < BLS12_381_P \<and> POINTonE2_affine_on_curve p"

text \<open>What the decoder needs of the square roots: a root of a square, up to its sign.\<close>

definition sqrt_fp_root :: "'gt Core \<Rightarrow> nat \<Rightarrow> bool" where
  "sqrt_fp_root K y \<longleftrightarrow> sqrt_fp K (fp_mul y y) \<in> {Some y, Some (cneg_fp y True)}"

definition sqrt_fp2_root :: "'gt Core \<Rightarrow> fp2 \<Rightarrow> bool" where
  "sqrt_fp2_root K y \<longleftrightarrow> sqrt_fp2 K (fp2_mul y y) \<in> {Some y, Some (cneg_fp2 y True)}"

definition sqrt_sound :: "'gt Core \<Rightarrow> bool" where
  "sqrt_sound K \<longleftrightarrow>
     (\<forall>a s. sqrt_fp K a = Some s \<longrightarrow> s < BLS12_381_P \<and> fp_mul s s = a) \<and>
     (\<forall>a s. sqrt_fp2 K a = Some s \<longrightarrow>
        fst s < BLS12_381_P \<and> snd s < BLS12_381_P \<and> fp2_mul s s = a)"

lemma E1_valid_point: "E1_valid p \<longleftrightarrow> E1_point p \<and> \<not> E1_refused p"
  by (auto simp: E1_valid_def E1_point_def E1_refused_def)

abbreviation E1_read :: "E1 \<Rightarrow> BLST_ERROR + E1" where
  "E1_read p \<equiv> if E1_refused p then Inl BLST_POINT_NOT_IN_GROUP else Inr p"

lemma E1_serialize_back:
  assumes "E1_point p"
  shows "blst_p1_deserialize K (blst_p1_affine_serialize p) = E1_read p"
    and "length (blst_p1_affine_serialize p) = 96" and "\<not> flag_of 0x80 (blst_p1_affine_serialize p)"
proof -
  have "blst_p1_deserialize K (blst_p1_affine_serialize p) = E1_read p \<and>
    length (blst_p1_affine_serialize p) = 96 \<and> \<not> flag_of 0x80 (blst_p1_affine_serialize p)"
  proof (cases "p = E1_inf")
    case True
    then show ?thesis
      by (simp add: blst_p1_affine_serialize_def blst_p1_deserialize_def flag_of_def zero_tail_def E1_refused_def)
  next
    case False
    with assms have v: "E1_X p < BLS12_381_P" "E1_Y p < BLS12_381_P" "POINTonE1_affine_on_curve p"
      by (auto simp: E1_point_def)
    let ?w = "be_enc 48 (E1_X p) @ be_enc 48 (E1_Y p)"
    have "clear_top3 (field_of ?w 0) = E1_X p" "field_of ?w 48 = E1_Y p"
      using clear_top3_field(2) [OF v(1), of 0] field_of_append [of "be_enc 48 (E1_X p)" 48 "E1_Y p" "[]"] v
      by simp_all
    then have "POINTonE1_Deserialize_BE ?w = E1_read p"
      unfolding POINTonE1_Deserialize_BE_def Let_def using v False by (simp add: E1_refused_def)
    then show ?thesis
      using False flags_clear(1) [OF v(1), of "0xe0"] flags_clear(1) [OF v(1), of "0x80"]
      by (simp add: blst_p1_affine_serialize_def blst_p1_deserialize_def)
  qed
  then show "blst_p1_deserialize K (blst_p1_affine_serialize p) = E1_read p"
    "length (blst_p1_affine_serialize p) = 96" "\<not> flag_of 0x80 (blst_p1_affine_serialize p)" by blast+
qed

lemma E2_serialize_back:
  assumes "E2_valid p"
  shows "blst_p2_deserialize K (blst_p2_affine_serialize p) = Inr p"
    and "length (blst_p2_affine_serialize p) = 192" and "\<not> flag_of 0x80 (blst_p2_affine_serialize p)"
proof -
  have "blst_p2_deserialize K (blst_p2_affine_serialize p) = Inr p \<and>
    length (blst_p2_affine_serialize p) = 192 \<and> \<not> flag_of 0x80 (blst_p2_affine_serialize p)"
  proof (cases "p = E2_inf")
    case True
    then show ?thesis
      by (simp add: blst_p2_affine_serialize_def blst_p2_deserialize_def flag_of_def zero_tail_def)
  next
    case False
    with assms have v: "snd (E2_X p) < BLS12_381_P" "fst (E2_X p) < BLS12_381_P"
      "snd (E2_Y p) < BLS12_381_P" "fst (E2_Y p) < BLS12_381_P" "POINTonE2_affine_on_curve p"
      by (auto simp: E2_valid_def)
    let ?a = "be_enc 48 (snd (E2_X p))" and ?b = "be_enc 48 (fst (E2_X p))"
      and ?c = "be_enc 48 (snd (E2_Y p))" and ?d = "be_enc 48 (fst (E2_Y p))"
    let ?w = "?a @ ?b @ ?c @ ?d"
    have "clear_top3 (field_of ?w 0) = snd (E2_X p)" "field_of ?w 48 = fst (E2_X p)"
      "field_of ?w 96 = snd (E2_Y p)" "field_of ?w 144 = fst (E2_Y p)"
      using clear_top3_field(2) [OF v(1), of 0] field_of_append [of ?a 48 "fst (E2_X p)" "?c @ ?d"]
        field_of_append [of "?a @ ?b" 96 "snd (E2_Y p)" ?d] field_of_append [of "?a @ ?b @ ?c" 144 "fst (E2_Y p)" "[]"] v
      by simp_all
    then have "POINTonE2_Deserialize_BE ?w = Inr p"
      unfolding POINTonE2_Deserialize_BE_def Let_def using v by simp
    then show ?thesis
      using False flags_clear(1) [OF v(1), of "0xe0"] flags_clear(1) [OF v(1), of "0x80"]
      by (simp add: blst_p2_affine_serialize_def blst_p2_deserialize_def)
  qed
  then show "blst_p2_deserialize K (blst_p2_affine_serialize p) = Inr p"
    "length (blst_p2_affine_serialize p) = 192" "\<not> flag_of 0x80 (blst_p2_affine_serialize p)" by blast+
qed

lemma sgn_cneg:
  assumes "y < BLS12_381_P" and "y \<noteq> 0"
  shows "2 \<le> sgn0_pty_mod_384 (cneg_fp y True) \<longleftrightarrow> \<not> 2 \<le> sgn0_pty_mod_384 y"
    and "cneg_fp (cneg_fp y True) True = y" and "cneg_fp y True \<noteq> 0"
proof -
  have s: "2 \<le> sgn0_pty_mod_384 a \<longleftrightarrow> BLS12_381_P \<le> 2 * a" for a
  proof -
    have "a mod 2 < 2" by simp
    then show ?thesis unfolding sgn0_pty_mod_384_def by (auto simp: not_le)
  qed
  have "BLS12_381_P \<noteq> 2 * y" using P_bounds(3) by (metis dvd_triv_left)
  then show "2 \<le> sgn0_pty_mod_384 (cneg_fp y True) \<longleftrightarrow> \<not> 2 \<le> sgn0_pty_mod_384 y"
    unfolding s cneg_fp_def using assms by auto
  show "cneg_fp (cneg_fp y True) True = y" "cneg_fp y True \<noteq> 0" using assms by (simp_all add: cneg_fp_def)
qed

text \<open>The sign bit selects the root that was compressed.\<close>

lemma root_by_sign:
  assumes "y < BLS12_381_P" and "s \<in> {y, cneg_fp y True}"
  shows "cneg_fp s ((2 \<le> sgn0_pty_mod_384 s) \<noteq> (2 \<le> sgn0_pty_mod_384 y)) = y"
proof (cases "s = y")
  case True
  then show ?thesis by (simp add: cneg_fp_def)
next
  case False
  then have y: "y \<noteq> 0" "s = cneg_fp y True" using assms by (cases "y = 0"; auto simp: cneg_fp_def)+
  show ?thesis unfolding y(2) using sgn_cneg [OF assms(1) y(1)] by simp
qed

lemma sgn_x: "2 \<le> sgn0_pty_mod_384x a \<longleftrightarrow>
    (if snd a = 0 then 2 \<le> sgn0_pty_mod_384 (fst a) else 2 \<le> sgn0_pty_mod_384 (snd a))"
  by (auto simp: sgn0_pty_mod_384x_def sgn0_pty_mod_384_def Let_def)

lemma root_by_sign_x:
  assumes "fst y < BLS12_381_P" "snd y < BLS12_381_P" and "s \<in> {y, cneg_fp2 y True}"
  shows "cneg_fp2 s ((2 \<le> sgn0_pty_mod_384x s) \<noteq> (2 \<le> sgn0_pty_mod_384x y)) = y"
proof (cases "s = y")
  case True
  then show ?thesis by (simp add: cneg_fp2_def cneg_fp_def)
next
  case False
  then have s: "s = cneg_fp2 y True" and nz: "fst y \<noteq> 0 \<or> snd y \<noteq> 0"
    using assms(3) by (cases "fst y = 0"; cases "snd y = 0"; auto simp: cneg_fp2_def cneg_fp_def prod_eq_iff)+
  have z: "cneg_fp 0 True = 0" by (simp add: cneg_fp_def)
  have "(2 \<le> sgn0_pty_mod_384x s) \<noteq> (2 \<le> sgn0_pty_mod_384x y)"
    unfolding sgn_x s using nz sgn_cneg(1,3) [OF assms(1)] sgn_cneg(1,3) [OF assms(2)]
    by (cases "snd y = 0") (simp_all add: cneg_fp2_def z)
  then have "cneg_fp2 s ((2 \<le> sgn0_pty_mod_384x s) \<noteq> (2 \<le> sgn0_pty_mod_384x y)) = cneg_fp2 (cneg_fp2 y True) True"
    unfolding s by simp
  also have "\<dots> = y"
    using sgn_cneg(2) [OF assms(1)] sgn_cneg(2) [OF assms(2)] z
    by (cases "fst y = 0"; cases "snd y = 0") (simp_all add: cneg_fp2_def prod_eq_iff)
  finally show ?thesis .
qed

lemma E1_compress_back:
  assumes "E1_point p" and "sqrt_fp_root K (E1_Y p)"
  shows "blst_p1_deserialize K (blst_p1_affine_compress p) = E1_read p"
    and "length (blst_p1_affine_compress p) = 48" and "flag_of 0x80 (blst_p1_affine_compress p)"
proof -
  have "blst_p1_deserialize K (blst_p1_affine_compress p) = E1_read p \<and>
    length (blst_p1_affine_compress p) = 48 \<and> flag_of 0x80 (blst_p1_affine_compress p)"
  proof (cases "p = E1_inf")
    case True
    then show ?thesis
      by (simp add: blst_p1_affine_compress_def blst_p1_deserialize_def POINTonE1_Uncompress_Z_def flag_of_def zero_tail_def
          E1_refused_def)
  next
    case False
    with assms have v: "E1_X p < BLS12_381_P" "E1_Y p < BLS12_381_P" "POINTonE1_affine_on_curve p"
      by (auto simp: E1_point_def)
    let ?s = "2 \<le> sgn0_pty_mod_384 (E1_Y p)"
    define f :: byte where "f = (if ?s then 0xa0 else 0x80)"
    define w where "w = set_flags f (be_enc 48 (E1_X p) @ [])"
    have w: "blst_p1_affine_compress p = w"
      using False by (simp add: blst_p1_affine_compress_def w_def f_def)
    have f5: "take_bit 5 f = 0" by (simp add: f_def)
    have fl: "flag_of 0xe0 w" "flag_of 0x80 w" "\<not> flag_of 0x40 w" "flag_of 0x20 w = ?s"
      unfolding w_def
      using flags_clear(2) [OF v(1), of "0xe0" f "[]"] flags_clear(2) [OF v(1), of "0x80" f "[]"]
        flags_clear(2) [OF v(1), of "0x40" f "[]"] flags_clear(2) [OF v(1), of "0x20" f "[]"]
      by (simp_all add: f_def)
    have X: "clear_top3 (field_of w 0) = E1_X p" and len: "length w = 48"
      unfolding w_def using clear_top3_field(1,4) [OF v(1) f5, of "[]"] by simp_all
    obtain s where s: "sqrt_fp K (fp_mul (E1_Y p) (E1_Y p)) = Some s" "s \<in> {E1_Y p, cneg_fp (E1_Y p) True}"
      using assms(2) unfolding sqrt_fp_root_def by blast
    have "POINTonE1_Uncompress_Z K w = E1_read p"
      using v(1,3) fl s root_by_sign [OF v(2) s(2)] False
      unfolding POINTonE1_Uncompress_Z_def Let_def X POINTonE1_affine_on_curve_def by (simp add: E1_refused_def)
    then show ?thesis unfolding w using fl len by (simp add: blst_p1_deserialize_def)
  qed
  then show "blst_p1_deserialize K (blst_p1_affine_compress p) = E1_read p"
    "length (blst_p1_affine_compress p) = 48" "flag_of 0x80 (blst_p1_affine_compress p)" by blast+
qed

lemma E2_compress_back:
  assumes "E2_valid p" and "sqrt_fp2_root K (E2_Y p)"
  shows "blst_p2_deserialize K (blst_p2_affine_compress p) = Inr p"
    and "length (blst_p2_affine_compress p) = 96" and "flag_of 0x80 (blst_p2_affine_compress p)"
proof -
  have "blst_p2_deserialize K (blst_p2_affine_compress p) = Inr p \<and>
    length (blst_p2_affine_compress p) = 96 \<and> flag_of 0x80 (blst_p2_affine_compress p)"
  proof (cases "p = E2_inf")
    case True
    then show ?thesis
      by (simp add: blst_p2_affine_compress_def blst_p2_deserialize_def POINTonE2_Uncompress_Z_def flag_of_def zero_tail_def)
  next
    case False
    with assms have v: "snd (E2_X p) < BLS12_381_P" "fst (E2_X p) < BLS12_381_P"
      "fst (E2_Y p) < BLS12_381_P" "snd (E2_Y p) < BLS12_381_P" "POINTonE2_affine_on_curve p"
      by (auto simp: E2_valid_def)
    let ?s = "2 \<le> sgn0_pty_mod_384x (E2_Y p)" and ?b = "be_enc 48 (fst (E2_X p))"
    define f :: byte where "f = (if ?s then 0xa0 else 0x80)"
    define w where "w = set_flags f (be_enc 48 (snd (E2_X p)) @ ?b)"
    have w: "blst_p2_affine_compress p = w"
      using False by (simp add: blst_p2_affine_compress_def w_def f_def)
    have f5: "take_bit 5 f = 0" by (simp add: f_def)
    have fl: "flag_of 0xe0 w" "flag_of 0x80 w" "\<not> flag_of 0x40 w" "flag_of 0x20 w = ?s"
      unfolding w_def
      using flags_clear(2) [OF v(1), of "0xe0" f ?b] flags_clear(2) [OF v(1), of "0x80" f ?b]
        flags_clear(2) [OF v(1), of "0x40" f ?b] flags_clear(2) [OF v(1), of "0x20" f ?b]
      by (simp_all add: f_def)
    have X: "clear_top3 (field_of w 0) = snd (E2_X p)" "field_of w 48 = fst (E2_X p)" and len: "length w = 96"
      unfolding w_def using clear_top3_field(1,3,4) [OF v(1) f5, of ?b] field_back [OF v(2)] by simp_all
    obtain s where s: "sqrt_fp2 K (fp2_mul (E2_Y p) (E2_Y p)) = Some s" "s \<in> {E2_Y p, cneg_fp2 (E2_Y p) True}"
      using assms(2) unfolding sqrt_fp2_root_def by blast
    have "POINTonE2_Uncompress_Z K w = Inr p"
      using v(1,2,5) fl s root_by_sign_x [OF v(3,4) s(2)]
      unfolding POINTonE2_Uncompress_Z_def Let_def X POINTonE2_affine_on_curve_def by simp
    then show ?thesis unfolding w using fl len by (simp add: blst_p2_deserialize_def)
  qed
  then show "blst_p2_deserialize K (blst_p2_affine_compress p) = Inr p"
    "length (blst_p2_affine_compress p) = 96" "flag_of 0x80 (blst_p2_affine_compress p)" by blast+
qed

lemma cneg_fp_less: "y < BLS12_381_P \<Longrightarrow> cneg_fp y b < BLS12_381_P"
  by (auto simp: cneg_fp_def)

lemma int_fp_mul: "int (fp_mul a b) = int a * int b mod int BLS12_381_P"
  by (simp add: fp_mul_def zmod_int)

lemma int_fp_add: "int (fp_add a b) = (int a + int b) mod int BLS12_381_P"
  by (simp add: fp_add_def zmod_int)

lemma int_fp_sub: "b < BLS12_381_P \<Longrightarrow> int (fp_sub a b) = (int a - int b) mod int BLS12_381_P"
proof -
  assume "b < BLS12_381_P"
  then have "int (fp_sub a b) = (int a - int b + int BLS12_381_P) mod int BLS12_381_P"
    by (simp add: fp_sub_def zmod_int of_nat_diff algebra_simps)
  then show ?thesis by simp
qed

lemma int_cneg: "y < BLS12_381_P \<Longrightarrow> int (cneg_fp y True) mod int BLS12_381_P = - int y mod int BLS12_381_P"
proof -
  assume "y < BLS12_381_P"
  then have "int (cneg_fp y True) = (if y = 0 then 0 else int BLS12_381_P - int y)"
    by (simp add: cneg_fp_def of_nat_diff)
  moreover have "(int BLS12_381_P - int y) mod int BLS12_381_P = - int y mod int BLS12_381_P"
    by (metis add.commute diff_conv_add_uminus mod_add_self2)
  ultimately show ?thesis by simp
qed

lemma fp_mul_cneg: "y < BLS12_381_P \<Longrightarrow> x < BLS12_381_P \<Longrightarrow>
    fp_mul (cneg_fp y b) (cneg_fp x b) = fp_mul y x"
proof (cases b)
  case True
  assume y: "y < BLS12_381_P" and x: "x < BLS12_381_P"
  let ?P = "int BLS12_381_P"
  have "int (fp_mul (cneg_fp y True) (cneg_fp x True)) = ((- int y) mod ?P) * ((- int x) mod ?P) mod ?P"
    unfolding int_fp_mul int_cneg [OF y, symmetric] int_cneg [OF x, symmetric] by (rule mod_mult_eq [symmetric])
  also have "\<dots> = int (fp_mul y x)" unfolding int_fp_mul mod_mult_eq by simp
  finally show ?thesis using True by simp
qed (simp add: cneg_fp_def)

lemma fp_mul_add_cneg:
  assumes "a < BLS12_381_P" and "b < BLS12_381_P"
  shows "fp_mul (fp_add (cneg_fp a True) (cneg_fp b True)) (fp_add (cneg_fp a True) (cneg_fp b True)) =
    fp_mul (fp_add a b) (fp_add a b)"
proof -
  let ?P = "int BLS12_381_P"
  have "int (fp_add (cneg_fp a True) (cneg_fp b True)) = ((- int a) mod ?P + (- int b) mod ?P) mod ?P"
    unfolding int_fp_add int_cneg [OF assms(1), symmetric] int_cneg [OF assms(2), symmetric]
    by (rule mod_add_eq [symmetric])
  then have "int (fp_add (cneg_fp a True) (cneg_fp b True)) = (- (int a + int b)) mod ?P"
    by (simp add: mod_add_eq)
  then have "int (fp_mul (fp_add (cneg_fp a True) (cneg_fp b True)) (fp_add (cneg_fp a True) (cneg_fp b True)))
      = (- (int a + int b)) * (- (int a + int b)) mod ?P"
    unfolding int_fp_mul by (simp only: mod_mult_eq)
  also have "\<dots> = int (fp_mul (fp_add a b) (fp_add a b))"
    unfolding int_fp_mul int_fp_add mod_mult_eq minus_mult_minus ..
  finally show ?thesis by simp
qed

lemma fp2_mul_cneg:
  assumes "fst y < BLS12_381_P" and "snd y < BLS12_381_P"
  shows "fp2_mul (cneg_fp2 y b) (cneg_fp2 y b) = fp2_mul y y"
proof (cases b)
  case True
  then show ?thesis
    using fp_mul_add_cneg [OF assms] fp_mul_cneg [OF assms(1) assms(1)] fp_mul_cneg [OF assms(2) assms(2)]
    by (simp add: fp2_mul_def cneg_fp2_def)
qed (simp add: cneg_fp2_def cneg_fp_def)

text \<open>The decoder accepts nothing but infinity and reduced points of the curve.\<close>

lemma E1_uncompress_valid:
  assumes "sqrt_sound K" and "POINTonE1_Uncompress_Z K inp = Inr p"
  shows "E1_valid p"
proof (cases "p = E1_inf")
  case False
  let ?X = "clear_top3 (field_of inp 0)"
  let ?rhs = "fp_add (fp_mul (fp_mul ?X ?X) ?X) 4"
  obtain s where s: "?X < BLS12_381_P" "sqrt_fp K ?rhs = Some s" "?X \<noteq> 0"
    "p = E1 ?X (cneg_fp s ((2 \<le> sgn0_pty_mod_384 s) \<noteq> flag_of 0x20 inp))"
    using assms(2) False unfolding POINTonE1_Uncompress_Z_def Let_def
    by (auto split: if_splits option.splits)
  then have r: "s < BLS12_381_P" "fp_mul s s = ?rhs" using assms(1) unfolding sqrt_sound_def by blast+
  show ?thesis
    unfolding E1_valid_def POINTonE1_affine_on_curve_def s(4)
    using s(1,3) r cneg_fp_less [OF r(1)] fp_mul_cneg [OF r(1) r(1)] by simp
qed (simp add: E1_valid_def)

lemma E2_uncompress_valid:
  assumes "sqrt_sound K" and "POINTonE2_Uncompress_Z K inp = Inr p"
  shows "E2_valid p"
proof (cases "p = E2_inf")
  case False
  let ?X = "(field_of inp 48, clear_top3 (field_of inp 0))"
  let ?rhs = "fp2_add (fp2_mul (fp2_mul ?X ?X) ?X) (4, 4)"
  obtain s where s: "fst ?X < BLS12_381_P" "snd ?X < BLS12_381_P" "sqrt_fp2 K ?rhs = Some s"
    "p = E2 ?X (cneg_fp2 s ((2 \<le> sgn0_pty_mod_384x s) \<noteq> flag_of 0x20 inp))"
    using assms(2) False unfolding POINTonE2_Uncompress_Z_def Let_def
    by (auto split: if_splits option.splits)
  then have r: "fst s < BLS12_381_P" "snd s < BLS12_381_P" "fp2_mul s s = ?rhs"
    using assms(1) unfolding sqrt_sound_def by blast+
  show ?thesis
    unfolding E2_valid_def POINTonE2_affine_on_curve_def s(4)
    using s(1,2) r(3) cneg_fp_less [OF r(1)] cneg_fp_less [OF r(2)] fp2_mul_cneg [OF r(1,2)]
    by (simp add: cneg_fp2_def)
qed (simp add: E2_valid_def)

lemma E1_deserialize_valid:
  assumes "sqrt_sound K" and "blst_p1_deserialize K inp = Inr p"
  shows "E1_valid p"
  using assms E1_uncompress_valid [OF assms(1)]
  by (auto simp: blst_p1_deserialize_def POINTonE1_Deserialize_BE_def Let_def E1_valid_def split: if_splits)

lemma E2_deserialize_valid:
  assumes "sqrt_sound K" and "blst_p2_deserialize K inp = Inr p"
  shows "E2_valid p"
  using assms E2_uncompress_valid [OF assms(1)]
  by (auto simp: blst_p2_deserialize_def POINTonE2_Deserialize_BE_def Let_def E2_valid_def split: if_splits)

lemma throw_not_Inr: "blst_throw err \<noteq> Inr x"
  by (simp add: blst_throw_def Let_def)

lemma of_bytes_deserialize:
  "point1_of_bytes K inp = Inr p \<longleftrightarrow>
     length inp \<noteq> 0 \<and> length inp = (if flag_of 0x80 inp then 48 else 96) \<and> blst_p1_deserialize K inp = Inr p"
  "point2_of_bytes K inp = Inr q \<longleftrightarrow>
     length inp \<noteq> 0 \<and> length inp = (if flag_of 0x80 inp then 96 else 192) \<and> blst_p2_deserialize K inp = Inr q"
  by (auto simp: point1_of_bytes_def point2_of_bytes_def throw_not_Inr split: sum.splits)

lemma wire_read_1:
  assumes "E1_point p"
  shows "point1_of_bytes K (blst_p1_affine_serialize p) =
      (if E1_refused p then blst_throw BLST_POINT_NOT_IN_GROUP else Inr p)"
    and "sqrt_fp_root K (E1_Y p) \<Longrightarrow> point1_of_bytes K (blst_p1_affine_compress p) =
      (if E1_refused p then blst_throw BLST_POINT_NOT_IN_GROUP else Inr p)"
  using E1_serialize_back(1) [OF assms, of K] E1_serialize_back(2,3) [OF assms] E1_compress_back [OF assms, of K]
  by (simp_all add: point1_of_bytes_def)

lemma wire_back_1:
  assumes "E1_valid p"
  shows "point1_of_bytes K (blst_p1_affine_serialize p) = Inr p"
    and "sqrt_fp_root K (E1_Y p) \<Longrightarrow> point1_of_bytes K (blst_p1_affine_compress p) = Inr p"
  using wire_read_1 [of p K] assms by (simp_all add: E1_valid_point)

lemma wire_back_2:
  assumes "E2_valid p"
  shows "point2_of_bytes K (blst_p2_affine_serialize p) = Inr p"
    and "sqrt_fp2_root K (E2_Y p) \<Longrightarrow> point2_of_bytes K (blst_p2_affine_compress p) = Inr p"
  using E2_serialize_back [OF assms] E2_compress_back [OF assms, of K]
  by (simp_all add: of_bytes_deserialize)

lemma fp_mul_by: "a * b = q * BLS12_381_P + r \<Longrightarrow> r < BLS12_381_P \<Longrightarrow> fp_mul a b = r"
  by (simp add: fp_mul_def)

lemma fp_add_by: "a + b = q * BLS12_381_P + r \<Longrightarrow> r < BLS12_381_P \<Longrightarrow> fp_add a b = r"
  by (simp add: fp_add_def)

lemma fp_sub_by: "a + BLS12_381_P - b = q * BLS12_381_P + r \<Longrightarrow> r < BLS12_381_P \<Longrightarrow> fp_sub a b = r"
  by (simp add: fp_sub_def)

lemma G1_products:
  "fp_mul 0x17f1d3a73197d7942695638c4fa9ac0fc3688c4f9774b905a14e3a3f171bac586c55e83ff97a1aeffb3af00adb22c6bb 0x17f1d3a73197d7942695638c4fa9ac0fc3688c4f9774b905a14e3a3f171bac586c55e83ff97a1aeffb3af00adb22c6bb = 0xa959cfb3b49280847b60aab6103fd71e072f5eab6da1fce8a102615bff619c04071ac337f56b79f362863c0d062b979"
  "fp_mul 0xa959cfb3b49280847b60aab6103fd71e072f5eab6da1fce8a102615bff619c04071ac337f56b79f362863c0d062b979 0x17f1d3a73197d7942695638c4fa9ac0fc3688c4f9774b905a14e3a3f171bac586c55e83ff97a1aeffb3af00adb22c6bb = 0x64a3a594868a2a4dab071ff6d880ae0f459c87e11ab01b3454b95a7d6a93f853f6e07f754b6e7933799e0afe2779a52"
  "fp_add 0x64a3a594868a2a4dab071ff6d880ae0f459c87e11ab01b3454b95a7d6a93f853f6e07f754b6e7933799e0afe2779a52 0x4 = 0x64a3a594868a2a4dab071ff6d880ae0f459c87e11ab01b3454b95a7d6a93f853f6e07f754b6e7933799e0afe2779a56"
  "fp_mul 0x8b3f481e3aaa0f1a09e30ed741d8ae4fcf5e095d5d00af600db18cb2c04b3edd03cc744a2888ae40caa232946c5e7e1 0x8b3f481e3aaa0f1a09e30ed741d8ae4fcf5e095d5d00af600db18cb2c04b3edd03cc744a2888ae40caa232946c5e7e1 = 0x64a3a594868a2a4dab071ff6d880ae0f459c87e11ab01b3454b95a7d6a93f853f6e07f754b6e7933799e0afe2779a56"
proof -
  show "fp_mul 0x17f1d3a73197d7942695638c4fa9ac0fc3688c4f9774b905a14e3a3f171bac586c55e83ff97a1aeffb3af00adb22c6bb 0x17f1d3a73197d7942695638c4fa9ac0fc3688c4f9774b905a14e3a3f171bac586c55e83ff97a1aeffb3af00adb22c6bb = 0xa959cfb3b49280847b60aab6103fd71e072f5eab6da1fce8a102615bff619c04071ac337f56b79f362863c0d062b979"
    by (rule fp_mul_by [of _ _ "0x160c576b47413202ac6cce1e868833724d82c86daa3e4a9ca6698edd38fdcfaf0a743a90a32995add371a0d6ca0d3960"]) (simp_all only: BLS12_381_P_def numeral_times_numeral numeral_plus_numeral semiring_norm)
  show "fp_mul 0xa959cfb3b49280847b60aab6103fd71e072f5eab6da1fce8a102615bff619c04071ac337f56b79f362863c0d062b979 0x17f1d3a73197d7942695638c4fa9ac0fc3688c4f9774b905a14e3a3f171bac586c55e83ff97a1aeffb3af00adb22c6bb = 0x64a3a594868a2a4dab071ff6d880ae0f459c87e11ab01b3454b95a7d6a93f853f6e07f754b6e7933799e0afe2779a52"
    by (rule fp_mul_by [of _ _ "0x9bf02b0ee7878b32ca5504792742fa2b90a486549e75fa46d93b17304874f1561f85d8aef8c4d5c1d0eb436e7b56533"]) (simp_all only: BLS12_381_P_def numeral_times_numeral numeral_plus_numeral semiring_norm)
  show "fp_add 0x64a3a594868a2a4dab071ff6d880ae0f459c87e11ab01b3454b95a7d6a93f853f6e07f754b6e7933799e0afe2779a52 0x4 = 0x64a3a594868a2a4dab071ff6d880ae0f459c87e11ab01b3454b95a7d6a93f853f6e07f754b6e7933799e0afe2779a56"
    by (rule fp_add_by [of _ _ "0x0"]) (simp_all only: BLS12_381_P_def numeral_times_numeral numeral_plus_numeral semiring_norm)
  show "fp_mul 0x8b3f481e3aaa0f1a09e30ed741d8ae4fcf5e095d5d00af600db18cb2c04b3edd03cc744a2888ae40caa232946c5e7e1 0x8b3f481e3aaa0f1a09e30ed741d8ae4fcf5e095d5d00af600db18cb2c04b3edd03cc744a2888ae40caa232946c5e7e1 = 0x64a3a594868a2a4dab071ff6d880ae0f459c87e11ab01b3454b95a7d6a93f853f6e07f754b6e7933799e0afe2779a56"
    by (rule fp_mul_by [of _ _ "0x2e9a4150be272194ad298b6f6b0560664e67c2d1b9cad633cc7a0c80b15d9faa0ac3ccf6ff0bf05eee67d5f3fcfac41"]) (simp_all only: BLS12_381_P_def numeral_times_numeral numeral_plus_numeral semiring_norm)
qed

lemma G2_products:
  "fp_add 0x24aa2b2f08f0a91260805272dc51051c6e47ad4fa403b02b4510b647ae3d1770bac0326a805bbefd48056c8c121bdb8 0x13e02b6052719f607dacd3a088274f65596bd0d09920b61ab5da61bbdc7f5049334cf11213945d57e5ac7d055d042b7e = 0x162ace134300a9f1a3b4d8c7b5ec5fb720504ba59360f11d6a2b6d20576321c03ef8f438bb9a1947ba2cd3ce1e25e936"
  "fp_mul 0x162ace134300a9f1a3b4d8c7b5ec5fb720504ba59360f11d6a2b6d20576321c03ef8f438bb9a1947ba2cd3ce1e25e936 0x162ace134300a9f1a3b4d8c7b5ec5fb720504ba59360f11d6a2b6d20576321c03ef8f438bb9a1947ba2cd3ce1e25e936 = 0x4e99ab3520f1829a9423731494eabbe19a8c449f7df136320e6728f8b18f756c40a2146a219f7fe0f51e71f7520718f"
  "fp_mul 0x24aa2b2f08f0a91260805272dc51051c6e47ad4fa403b02b4510b647ae3d1770bac0326a805bbefd48056c8c121bdb8 0x24aa2b2f08f0a91260805272dc51051c6e47ad4fa403b02b4510b647ae3d1770bac0326a805bbefd48056c8c121bdb8 = 0xbd5042aa7a61fd51b2138e6a25d617608f36c1da3617e4f3211628f18a1ae296f579c8ee5a32ef0efd06177fd3c5528"
  "fp_mul 0x13e02b6052719f607dacd3a088274f65596bd0d09920b61ab5da61bbdc7f5049334cf11213945d57e5ac7d055d042b7e 0x13e02b6052719f607dacd3a088274f65596bd0d09920b61ab5da61bbdc7f5049334cf11213945d57e5ac7d055d042b7e = 0x18dc66d1ca37cf288a99f61b00b79fb0605dc1c9cd68c424b304a13314df8b58bf21c4f7cdd2b2a59d6975117f4acee5"
  "fp_sub 0xbd5042aa7a61fd51b2138e6a25d617608f36c1da3617e4f3211628f18a1ae296f579c8ee5a32ef0efd06177fd3c5528 0x18dc66d1ca37cf288a99f61b00b79fb0605dc1c9cd68c424b304a13314df8b58bf21c4f7cdd2b2a59d6975117f4acee5 = 0xcf9af4316ee3746dba2ea81e4f16e9d0d0cf5d8c97dcce9e63d93fcfa7318f4cee1d795c9247c4b0c65ec667df130ee"
  "fp_sub 0x4e99ab3520f1829a9423731494eabbe19a8c449f7df136320e6728f8b18f756c40a2146a219f7fe0f51e71f7520718f 0xbd5042aa7a61fd51b2138e6a25d617608f36c1da3617e4f3211628f18a1ae296f579c8ee5a32ef0efd06177fd3c5528 = 0x1315a872e3e8deeed93ca600ea3cf71f752ca3b14802a7d35605e2a169283f51735e84b66dcac90cd98085a777e3c712"
  "fp_sub 0x1315a872e3e8deeed93ca600ea3cf71f752ca3b14802a7d35605e2a169283f51735e84b66dcac90cd98085a777e3c712 0x18dc66d1ca37cf288a99f61b00b79fb0605dc1c9cd68c424b304a13314df8b58bf21c4f7cdd2b2a59d6975117f4acee5 = 0x143a538b5330f66099be579c2cd1044679462d6c6e1ef66e0a32140f4af9aa1cd2e8bfbd514c1666f6161095f898a2d8"
  "fp_add 0xcf9af4316ee3746dba2ea81e4f16e9d0d0cf5d8c97dcce9e63d93fcfa7318f4cee1d795c9247c4b0c65ec667df130ee 0x143a538b5330f66099be579c2cd1044679462d6c6e1ef66e0a32140f4af9aa1cd2e8bfbd514c1666f6161095f898a2d8 = 0x732f0e4309f470d2a459a67ce76c60c21dbd7c04417b098893ed56b4ebbcced831e9754691c92b2487cfcfc768a291b"
  "fp_mul 0x162ace134300a9f1a3b4d8c7b5ec5fb720504ba59360f11d6a2b6d20576321c03ef8f438bb9a1947ba2cd3ce1e25e936 0x732f0e4309f470d2a459a67ce76c60c21dbd7c04417b098893ed56b4ebbcced831e9754691c92b2487cfcfc768a291b = 0x14e65ce80f82e5cd2c7290f2c7ccebcf972cd7347afab7521335bcffa4e436f7ed508cdd5002a5ab3b1128228193adb3"
  "fp_mul 0xcf9af4316ee3746dba2ea81e4f16e9d0d0cf5d8c97dcce9e63d93fcfa7318f4cee1d795c9247c4b0c65ec667df130ee 0x24aa2b2f08f0a91260805272dc51051c6e47ad4fa403b02b4510b647ae3d1770bac0326a805bbefd48056c8c121bdb8 = 0x15f45664b6b5f1b76de46f71ffdbb74ea51431fc30a8c01d6e706b069247c49ac0aec1060eb9085177abf7765ec1c7d"
  "fp_mul 0x143a538b5330f66099be579c2cd1044679462d6c6e1ef66e0a32140f4af9aa1cd2e8bfbd514c1666f6161095f898a2d8 0x13e02b6052719f607dacd3a088274f65596bd0d09920b61ab5da61bbdc7f5049334cf11213945d57e5ac7d055d042b7e = 0x5ab4336a3472d05e48459da8a2b2f569832f7c88b44e844df01365a7952165988df0558ab738e860f7645b4b891ac0c"
  "fp_sub 0x15f45664b6b5f1b76de46f71ffdbb74ea51431fc30a8c01d6e706b069247c49ac0aec1060eb9085177abf7765ec1c7d 0x5ab4336a3472d05e48459da8a2b2f569832f7c88b44e844df01365a7952165988df0558ab738e860f7645b4b891ac0c = 0x15b51419e1a418afdd7594d2d91e38f5b69596dc2b4ab67c5f16a2f6e6835c1441d7e6b666cc01fec20379c2ad5a1b1c"
  "fp_sub 0x14e65ce80f82e5cd2c7290f2c7ccebcf972cd7347afab7521335bcffa4e436f7ed508cdd5002a5ab3b1128228193adb3 0x15f45664b6b5f1b76de46f71ffdbb74ea51431fc30a8c01d6e706b069247c49ac0aec1060eb9085177abf7765ec1c7d = 0x13871781c41786b1b59449fba7cf305aacdb9414b7f02b503c4eb64f3bbfbaae4145a0ccef171526239668ab1ba79136"
  "fp_sub 0x13871781c41786b1b59449fba7cf305aacdb9414b7f02b503c4eb64f3bbfbaae4145a0ccef171526239668ab1ba79136 0x5ab4336a3472d05e48459da8a2b2f569832f7c88b44e844df01365a7952165988df0558ab738e860f7645b4b891ac0c = 0xddbd44b20d059abd10ff0211da4010414a89c4c2cab430b5d4d7ff4c26da454b8669b7443a386a0142022f66315e52a"
  "fp_add 0x15b51419e1a418afdd7594d2d91e38f5b69596dc2b4ab67c5f16a2f6e6835c1441d7e6b666cc01fec20379c2ad5a1b1c 0x4 = 0x15b51419e1a418afdd7594d2d91e38f5b69596dc2b4ab67c5f16a2f6e6835c1441d7e6b666cc01fec20379c2ad5a1b20"
  "fp_add 0xddbd44b20d059abd10ff0211da4010414a89c4c2cab430b5d4d7ff4c26da454b8669b7443a386a0142022f66315e52a 0x4 = 0xddbd44b20d059abd10ff0211da4010414a89c4c2cab430b5d4d7ff4c26da454b8669b7443a386a0142022f66315e52e"
  "fp_add 0xce5d527727d6e118cc9cdc6da2e351aadfd9baa8cbdd3a76d429a695160d12c923ac9cc3baca289e193548608b82801 0x606c4a02ea734cc32acd2b02bc28b99cb3e287e85a763af267492ab572e99ab3f370d275cec1da1aaa9075ff05f79be = 0x12ec99c7a124a2ddbf76a07705f0c0b4793bc4291265375693b72d14a88f6ad7d171d6f39898c02b8c3c5be5f917a1bf"
  "fp_mul 0x12ec99c7a124a2ddbf76a07705f0c0b4793bc4291265375693b72d14a88f6ad7d171d6f39898c02b8c3c5be5f917a1bf 0x12ec99c7a124a2ddbf76a07705f0c0b4793bc4291265375693b72d14a88f6ad7d171d6f39898c02b8c3c5be5f917a1bf = 0xb5a0edf5f7f33e2b0c16f6727d72053a8f65d3653c62151602ad3253125537a0a641982bd523e9ba89d3b3d218a57c1"
  "fp_mul 0xce5d527727d6e118cc9cdc6da2e351aadfd9baa8cbdd3a76d429a695160d12c923ac9cc3baca289e193548608b82801 0xce5d527727d6e118cc9cdc6da2e351aadfd9baa8cbdd3a76d429a695160d12c923ac9cc3baca289e193548608b82801 = 0x169a304c2ce96cc084215de7934e828e57ad51a5a2f553c0e492646425f600aed940b261c8e75cfd083fc904b5e71c2f"
  "fp_mul 0x606c4a02ea734cc32acd2b02bc28b99cb3e287e85a763af267492ab572e99ab3f370d275cec1da1aaa9075ff05f79be 0x606c4a02ea734cc32acd2b02bc28b99cb3e287e85a763af267492ab572e99ab3f370d275cec1da1aaa9075ff05f79be = 0xe51c324b455410a6abc914ba304998a117bac977aa9d44857bc16d3f72a49a9768cbab621b5afe463c4f42088d010f"
  "fp_sub 0x169a304c2ce96cc084215de7934e828e57ad51a5a2f553c0e492646425f600aed940b261c8e75cfd083fc904b5e71c2f 0xe51c324b455410a6abc914ba304998a117bac977aa9d44857bc16d3f72a49a9768cbab621b5afe463c4f42088d010f = 0x15b51419e1a418afdd7594d2d91e38f5b69596dc2b4ab67c5f16a2f6e6835c1441d7e6b666cc01fec20379c2ad5a1b20"
  "fp_sub 0xb5a0edf5f7f33e2b0c16f6727d72053a8f65d3653c62151602ad3253125537a0a641982bd523e9ba89d3b3d218a57c1 0x169a304c2ce96cc084215de7934e828e57ad51a5a2f553c0e492646425f600aed940b261c8e75cfd083fc904b5e71c2f = 0xec0f07d6c15adbc77bbb935d7d44a9cb5c05715a455e04fe2c9416201e048ef4fcf671fa5bee19e5a5c72386ba2e63d"
  "fp_sub 0xec0f07d6c15adbc77bbb935d7d44a9cb5c05715a455e04fe2c9416201e048ef4fcf671fa5bee19e5a5c72386ba2e63d 0xe51c324b455410a6abc914ba304998a117bac977aa9d44857bc16d3f72a49a9768cbab621b5afe463c4f42088d010f = 0xddbd44b20d059abd10ff0211da4010414a89c4c2cab430b5d4d7ff4c26da454b8669b7443a386a0142022f66315e52e"
proof -
  show "fp_add 0x24aa2b2f08f0a91260805272dc51051c6e47ad4fa403b02b4510b647ae3d1770bac0326a805bbefd48056c8c121bdb8 0x13e02b6052719f607dacd3a088274f65596bd0d09920b61ab5da61bbdc7f5049334cf11213945d57e5ac7d055d042b7e = 0x162ace134300a9f1a3b4d8c7b5ec5fb720504ba59360f11d6a2b6d20576321c03ef8f438bb9a1947ba2cd3ce1e25e936"
    by (rule fp_add_by [of _ _ "0x0"]) (simp_all only: BLS12_381_P_def numeral_times_numeral numeral_plus_numeral semiring_norm)
  show "fp_mul 0x162ace134300a9f1a3b4d8c7b5ec5fb720504ba59360f11d6a2b6d20576321c03ef8f438bb9a1947ba2cd3ce1e25e936 0x162ace134300a9f1a3b4d8c7b5ec5fb720504ba59360f11d6a2b6d20576321c03ef8f438bb9a1947ba2cd3ce1e25e936 = 0x4e99ab3520f1829a9423731494eabbe19a8c449f7df136320e6728f8b18f756c40a2146a219f7fe0f51e71f7520718f"
    by (rule fp_mul_by [of _ _ "0x12e579ad098817d974cae11a7e4c5bb5f34f97dc38173efefdead7b3b0a93500b142dfc83db1b0c01dac0c77044bb17f"]) (simp_all only: BLS12_381_P_def numeral_times_numeral numeral_plus_numeral semiring_norm)
  show "fp_mul 0x24aa2b2f08f0a91260805272dc51051c6e47ad4fa403b02b4510b647ae3d1770bac0326a805bbefd48056c8c121bdb8 0x24aa2b2f08f0a91260805272dc51051c6e47ad4fa403b02b4510b647ae3d1770bac0326a805bbefd48056c8c121bdb8 = 0xbd5042aa7a61fd51b2138e6a25d617608f36c1da3617e4f3211628f18a1ae296f579c8ee5a32ef0efd06177fd3c5528"
    by (rule fp_mul_by [of _ _ "0x33b2132b70a811be2aa565e1f112f8d568829ed633f4eeeb51437938107ffb15f17fa39702fec3955f0f4c57ae9d48"]) (simp_all only: BLS12_381_P_def numeral_times_numeral numeral_plus_numeral semiring_norm)
  show "fp_mul 0x13e02b6052719f607dacd3a088274f65596bd0d09920b61ab5da61bbdc7f5049334cf11213945d57e5ac7d055d042b7e 0x13e02b6052719f607dacd3a088274f65596bd0d09920b61ab5da61bbdc7f5049334cf11213945d57e5ac7d055d042b7e = 0x18dc66d1ca37cf288a99f61b00b79fb0605dc1c9cd68c424b304a13314df8b58bf21c4f7cdd2b2a59d6975117f4acee5"
    by (rule fp_mul_by [of _ _ "0xf3104bbb01a31772d67ce974d0dbfadf1915ba7fe43832f7913120c9dd99e57086eb101801de9c3f71e8e079977495d"]) (simp_all only: BLS12_381_P_def numeral_times_numeral numeral_plus_numeral semiring_norm)
  show "fp_sub 0xbd5042aa7a61fd51b2138e6a25d617608f36c1da3617e4f3211628f18a1ae296f579c8ee5a32ef0efd06177fd3c5528 0x18dc66d1ca37cf288a99f61b00b79fb0605dc1c9cd68c424b304a13314df8b58bf21c4f7cdd2b2a59d6975117f4acee5 = 0xcf9af4316ee3746dba2ea81e4f16e9d0d0cf5d8c97dcce9e63d93fcfa7318f4cee1d795c9247c4b0c65ec667df130ee"
    by (rule fp_sub_by [of _ _ "0x0"]) (simp_all only: BLS12_381_P_def numeral_times_numeral numeral_plus_numeral semiring_norm)
  show "fp_sub 0x4e99ab3520f1829a9423731494eabbe19a8c449f7df136320e6728f8b18f756c40a2146a219f7fe0f51e71f7520718f 0xbd5042aa7a61fd51b2138e6a25d617608f36c1da3617e4f3211628f18a1ae296f579c8ee5a32ef0efd06177fd3c5528 = 0x1315a872e3e8deeed93ca600ea3cf71f752ca3b14802a7d35605e2a169283f51735e84b66dcac90cd98085a777e3c712"
    by (rule fp_sub_by [of _ _ "0x0"]) (simp_all only: BLS12_381_P_def numeral_times_numeral numeral_plus_numeral semiring_norm)
  show "fp_sub 0x1315a872e3e8deeed93ca600ea3cf71f752ca3b14802a7d35605e2a169283f51735e84b66dcac90cd98085a777e3c712 0x18dc66d1ca37cf288a99f61b00b79fb0605dc1c9cd68c424b304a13314df8b58bf21c4f7cdd2b2a59d6975117f4acee5 = 0x143a538b5330f66099be579c2cd1044679462d6c6e1ef66e0a32140f4af9aa1cd2e8bfbd514c1666f6161095f898a2d8"
    by (rule fp_sub_by [of _ _ "0x0"]) (simp_all only: BLS12_381_P_def numeral_times_numeral numeral_plus_numeral semiring_norm)
  show "fp_add 0xcf9af4316ee3746dba2ea81e4f16e9d0d0cf5d8c97dcce9e63d93fcfa7318f4cee1d795c9247c4b0c65ec667df130ee 0x143a538b5330f66099be579c2cd1044679462d6c6e1ef66e0a32140f4af9aa1cd2e8bfbd514c1666f6161095f898a2d8 = 0x732f0e4309f470d2a459a67ce76c60c21dbd7c04417b098893ed56b4ebbcced831e9754691c92b2487cfcfc768a291b"
    by (rule fp_add_by [of _ _ "0x1"]) (simp_all only: BLS12_381_P_def numeral_times_numeral numeral_plus_numeral semiring_norm)
  show "fp_mul 0x162ace134300a9f1a3b4d8c7b5ec5fb720504ba59360f11d6a2b6d20576321c03ef8f438bb9a1947ba2cd3ce1e25e936 0x732f0e4309f470d2a459a67ce76c60c21dbd7c04417b098893ed56b4ebbcced831e9754691c92b2487cfcfc768a291b = 0x14e65ce80f82e5cd2c7290f2c7ccebcf972cd7347afab7521335bcffa4e436f7ed508cdd5002a5ab3b1128228193adb3"
    by (rule fp_mul_by [of _ _ "0x62302d5cc00ad837b8f0b24a8af686062cf583fbac37f4dcd81055b8e1dfab1f72441c760045f850e0dae31c0a1b2fd"]) (simp_all only: BLS12_381_P_def numeral_times_numeral numeral_plus_numeral semiring_norm)
  show "fp_mul 0xcf9af4316ee3746dba2ea81e4f16e9d0d0cf5d8c97dcce9e63d93fcfa7318f4cee1d795c9247c4b0c65ec667df130ee 0x24aa2b2f08f0a91260805272dc51051c6e47ad4fa403b02b4510b647ae3d1770bac0326a805bbefd48056c8c121bdb8 = 0x15f45664b6b5f1b76de46f71ffdbb74ea51431fc30a8c01d6e706b069247c49ac0aec1060eb9085177abf7765ec1c7d"
    by (rule fp_mul_by [of _ _ "0x124b6cf5db2be8d1d7a668d2108114ad520477ee01c8f07db635ae9e14191f02c3dd7932737d6d95be754ba156f4db9"]) (simp_all only: BLS12_381_P_def numeral_times_numeral numeral_plus_numeral semiring_norm)
  show "fp_mul 0x143a538b5330f66099be579c2cd1044679462d6c6e1ef66e0a32140f4af9aa1cd2e8bfbd514c1666f6161095f898a2d8 0x13e02b6052719f607dacd3a088274f65596bd0d09920b61ab5da61bbdc7f5049334cf11213945d57e5ac7d055d042b7e = 0x5ab4336a3472d05e48459da8a2b2f569832f7c88b44e844df01365a7952165988df0558ab738e860f7645b4b891ac0c"
    by (rule fp_mul_by [of _ _ "0xf75ed7f75d6e21f68c0c6c816e2074266163437956cefb018d0f30260d776fc08b564b820ee85b6114a548722a646cc"]) (simp_all only: BLS12_381_P_def numeral_times_numeral numeral_plus_numeral semiring_norm)
  show "fp_sub 0x15f45664b6b5f1b76de46f71ffdbb74ea51431fc30a8c01d6e706b069247c49ac0aec1060eb9085177abf7765ec1c7d 0x5ab4336a3472d05e48459da8a2b2f569832f7c88b44e844df01365a7952165988df0558ab738e860f7645b4b891ac0c = 0x15b51419e1a418afdd7594d2d91e38f5b69596dc2b4ab67c5f16a2f6e6835c1441d7e6b666cc01fec20379c2ad5a1b1c"
    by (rule fp_sub_by [of _ _ "0x0"]) (simp_all only: BLS12_381_P_def numeral_times_numeral numeral_plus_numeral semiring_norm)
  show "fp_sub 0x14e65ce80f82e5cd2c7290f2c7ccebcf972cd7347afab7521335bcffa4e436f7ed508cdd5002a5ab3b1128228193adb3 0x15f45664b6b5f1b76de46f71ffdbb74ea51431fc30a8c01d6e706b069247c49ac0aec1060eb9085177abf7765ec1c7d = 0x13871781c41786b1b59449fba7cf305aacdb9414b7f02b503c4eb64f3bbfbaae4145a0ccef171526239668ab1ba79136"
    by (rule fp_sub_by [of _ _ "0x1"]) (simp_all only: BLS12_381_P_def numeral_times_numeral numeral_plus_numeral semiring_norm)
  show "fp_sub 0x13871781c41786b1b59449fba7cf305aacdb9414b7f02b503c4eb64f3bbfbaae4145a0ccef171526239668ab1ba79136 0x5ab4336a3472d05e48459da8a2b2f569832f7c88b44e844df01365a7952165988df0558ab738e860f7645b4b891ac0c = 0xddbd44b20d059abd10ff0211da4010414a89c4c2cab430b5d4d7ff4c26da454b8669b7443a386a0142022f66315e52a"
    by (rule fp_sub_by [of _ _ "0x1"]) (simp_all only: BLS12_381_P_def numeral_times_numeral numeral_plus_numeral semiring_norm)
  show "fp_add 0x15b51419e1a418afdd7594d2d91e38f5b69596dc2b4ab67c5f16a2f6e6835c1441d7e6b666cc01fec20379c2ad5a1b1c 0x4 = 0x15b51419e1a418afdd7594d2d91e38f5b69596dc2b4ab67c5f16a2f6e6835c1441d7e6b666cc01fec20379c2ad5a1b20"
    by (rule fp_add_by [of _ _ "0x0"]) (simp_all only: BLS12_381_P_def numeral_times_numeral numeral_plus_numeral semiring_norm)
  show "fp_add 0xddbd44b20d059abd10ff0211da4010414a89c4c2cab430b5d4d7ff4c26da454b8669b7443a386a0142022f66315e52a 0x4 = 0xddbd44b20d059abd10ff0211da4010414a89c4c2cab430b5d4d7ff4c26da454b8669b7443a386a0142022f66315e52e"
    by (rule fp_add_by [of _ _ "0x0"]) (simp_all only: BLS12_381_P_def numeral_times_numeral numeral_plus_numeral semiring_norm)
  show "fp_add 0xce5d527727d6e118cc9cdc6da2e351aadfd9baa8cbdd3a76d429a695160d12c923ac9cc3baca289e193548608b82801 0x606c4a02ea734cc32acd2b02bc28b99cb3e287e85a763af267492ab572e99ab3f370d275cec1da1aaa9075ff05f79be = 0x12ec99c7a124a2ddbf76a07705f0c0b4793bc4291265375693b72d14a88f6ad7d171d6f39898c02b8c3c5be5f917a1bf"
    by (rule fp_add_by [of _ _ "0x0"]) (simp_all only: BLS12_381_P_def numeral_times_numeral numeral_plus_numeral semiring_norm)
  show "fp_mul 0x12ec99c7a124a2ddbf76a07705f0c0b4793bc4291265375693b72d14a88f6ad7d171d6f39898c02b8c3c5be5f917a1bf 0x12ec99c7a124a2ddbf76a07705f0c0b4793bc4291265375693b72d14a88f6ad7d171d6f39898c02b8c3c5be5f917a1bf = 0xb5a0edf5f7f33e2b0c16f6727d72053a8f65d3653c62151602ad3253125537a0a641982bd523e9ba89d3b3d218a57c1"
    by (rule fp_mul_by [of _ _ "0xdc5993793b41c577f9d6620b85ce8da32831789e6cab6a68387522467a4d269c8b46d6a21f6ba01bb7fc313072c5e40"]) (simp_all only: BLS12_381_P_def numeral_times_numeral numeral_plus_numeral semiring_norm)
  show "fp_mul 0xce5d527727d6e118cc9cdc6da2e351aadfd9baa8cbdd3a76d429a695160d12c923ac9cc3baca289e193548608b82801 0xce5d527727d6e118cc9cdc6da2e351aadfd9baa8cbdd3a76d429a695160d12c923ac9cc3baca289e193548608b82801 = 0x169a304c2ce96cc084215de7934e828e57ad51a5a2f553c0e492646425f600aed940b261c8e75cfd083fc904b5e71c2f"
    by (rule fp_mul_by [of _ _ "0x665ac183a02c2dcdb2e27e15c5e1f71779d1c58eeeddea318ee2568490eea4fc60e5e5dd6cce44826ec95d440d19b76"]) (simp_all only: BLS12_381_P_def numeral_times_numeral numeral_plus_numeral semiring_norm)
  show "fp_mul 0x606c4a02ea734cc32acd2b02bc28b99cb3e287e85a763af267492ab572e99ab3f370d275cec1da1aaa9075ff05f79be 0x606c4a02ea734cc32acd2b02bc28b99cb3e287e85a763af267492ab572e99ab3f370d275cec1da1aaa9075ff05f79be = 0xe51c324b455410a6abc914ba304998a117bac977aa9d44857bc16d3f72a49a9768cbab621b5afe463c4f42088d010f"
    by (rule fp_mul_by [of _ _ "0x16588e019e55cb4350c711975a18346ac003bfc400b1318d6a255a1aa6f4e5b38e94120f0f95aaee8fca3d8dcf377df"]) (simp_all only: BLS12_381_P_def numeral_times_numeral numeral_plus_numeral semiring_norm)
  show "fp_sub 0x169a304c2ce96cc084215de7934e828e57ad51a5a2f553c0e492646425f600aed940b261c8e75cfd083fc904b5e71c2f 0xe51c324b455410a6abc914ba304998a117bac977aa9d44857bc16d3f72a49a9768cbab621b5afe463c4f42088d010f = 0x15b51419e1a418afdd7594d2d91e38f5b69596dc2b4ab67c5f16a2f6e6835c1441d7e6b666cc01fec20379c2ad5a1b20"
    by (rule fp_sub_by [of _ _ "0x1"]) (simp_all only: BLS12_381_P_def numeral_times_numeral numeral_plus_numeral semiring_norm)
  show "fp_sub 0xb5a0edf5f7f33e2b0c16f6727d72053a8f65d3653c62151602ad3253125537a0a641982bd523e9ba89d3b3d218a57c1 0x169a304c2ce96cc084215de7934e828e57ad51a5a2f553c0e492646425f600aed940b261c8e75cfd083fc904b5e71c2f = 0xec0f07d6c15adbc77bbb935d7d44a9cb5c05715a455e04fe2c9416201e048ef4fcf671fa5bee19e5a5c72386ba2e63d"
    by (rule fp_sub_by [of _ _ "0x0"]) (simp_all only: BLS12_381_P_def numeral_times_numeral numeral_plus_numeral semiring_norm)
  show "fp_sub 0xec0f07d6c15adbc77bbb935d7d44a9cb5c05715a455e04fe2c9416201e048ef4fcf671fa5bee19e5a5c72386ba2e63d 0xe51c324b455410a6abc914ba304998a117bac977aa9d44857bc16d3f72a49a9768cbab621b5afe463c4f42088d010f = 0xddbd44b20d059abd10ff0211da4010414a89c4c2cab430b5d4d7ff4c26da454b8669b7443a386a0142022f66315e52e"
    by (rule fp_sub_by [of _ _ "0x1"]) (simp_all only: BLS12_381_P_def numeral_times_numeral numeral_plus_numeral semiring_norm)
qed

lemma G1_valid: "E1_valid BLS12_381_G1" "BLS12_381_G1 \<noteq> E1_inf"
  by (simp_all add: E1_valid_def BLS12_381_G1_def E1_inf_def POINTonE1_affine_on_curve_def G1_products)
    (simp add: BLS12_381_P_def)

lemma G2_valid: "E2_valid BLS12_381_G2" "BLS12_381_G2 \<noteq> E2_inf"
  by (simp_all add: E2_valid_def BLS12_381_G2_def E2_inf_def POINTonE2_affine_on_curve_def fp2_mul_def fp2_add_def
      G2_products) (simp add: BLS12_381_P_def)

text \<open>
  Sample parameters for evaluating the definitions: in place of each group the two points infinity
  and generator, in place of the pairing values a zero and the group of two elements.
\<close>

definition sample_E1 :: "bool \<Rightarrow> E1" where
  "sample_E1 b = (if b then BLS12_381_G1 else E1_inf)"

definition sample_E2 :: "bool \<Rightarrow> E2" where
  "sample_E2 b = (if b then BLS12_381_G2 else E2_inf)"

definition sample_mul :: "bool option \<Rightarrow> bool option \<Rightarrow> bool option" where
  "sample_mul x y = (case (x, y) of (Some a, Some b) \<Rightarrow> Some (a \<noteq> b) | _ \<Rightarrow> None)"

definition sample_line :: "E2 \<times> E1 \<Rightarrow> bool option" where
  "sample_line qp = (if fst qp = E2_inf \<or> snd qp = E1_inf then None
     else Some (fst qp = BLS12_381_G2 \<and> snd qp = BLS12_381_G1))"

definition sample_compression :: compression where
  "sample_compression v data = [0, 0, 0, 1, 0, 0, 0, 0]"

definition sample_core :: "bool option Core" where
  "sample_core =
    \<lparr>sqrt_fp = (\<lambda>a. if a = fp_mul (E1_Y BLS12_381_G1) (E1_Y BLS12_381_G1) then Some (E1_Y BLS12_381_G1) else None),
     sqrt_fp2 = (\<lambda>a. if a = fp2_mul (E2_Y BLS12_381_G2) (E2_Y BLS12_381_G2) then Some (E2_Y BLS12_381_G2) else None),
     E1_dadd = (\<lambda>p q. sample_E1 ((p = BLS12_381_G1) \<noteq> (q = BLS12_381_G1))), E1_double = (\<lambda>_. E1_inf),
     E1_mult = (\<lambda>p n. sample_E1 (p = BLS12_381_G1 \<and> odd n)),
     E1_mult_glv = (\<lambda>p n. sample_E1 (p = BLS12_381_G1 \<and> odd n)),
     E1_in_G1 = (\<lambda>p. p = E1_inf \<or> p = BLS12_381_G1),
     map_to_g1 = (\<lambda>_ _. BLS12_381_G1),
     E2_dadd = (\<lambda>p q. sample_E2 ((p = BLS12_381_G2) \<noteq> (q = BLS12_381_G2))), E2_double = (\<lambda>_. E2_inf),
     E2_mult = (\<lambda>p n. sample_E2 (p = BLS12_381_G2 \<and> odd n)),
     E2_mult_gls = (\<lambda>p n. sample_E2 (p = BLS12_381_G2 \<and> odd n)),
     E2_in_G2 = (\<lambda>p. p = E2_inf \<or> p = BLS12_381_G2),
     map_to_g2 = (\<lambda>_ _. BLS12_381_G2),
     fp12_one = Some False, mul_fp12 = sample_mul, sqr_fp12 = (\<lambda>x. sample_mul x x), conjugate_fp12 = id,
     final_exp = id, fp12_in_group = (\<lambda>x. x \<noteq> None), fp12_is_zero = (\<lambda>x. x = None),
     bendian_from_fp12 = (\<lambda>_. []),
     miller_lines = (\<lambda>ps. foldr (\<lambda>qp. sample_mul (sample_line qp)) ps (Some False)),
     reciprocal_fr = id, sha256_block_data_order = sample_compression,
     keygen_scratch = sample_scratch, xmd_buffer = replicate 320 0\<rparr>"

lemma sample_hash [simp]:
  "Hash_to_G1 sample_core m d a = BLS12_381_G1" "Encode_to_G1 sample_core m d a = BLS12_381_G1"
  "Hash_to_G2 sample_core m d a = BLS12_381_G2" "Encode_to_G2 sample_core m d a = BLS12_381_G2"
  by (simp_all add: Hash_to_G1_def Encode_to_G1_def Hash_to_G2_def Encode_to_G2_def sample_core_def)

lemma sample_core_roots:
  "sqrt_fp_root sample_core (E1_Y BLS12_381_G1)" "sqrt_fp2_root sample_core (E2_Y BLS12_381_G2)"
  by (simp_all only: sqrt_fp_root_def sqrt_fp2_root_def sample_core_def Core.simps simp_thms if_True) blast+

lemma sample_core_sound: "sqrt_sound sample_core"
  using G1_valid G2_valid unfolding sqrt_sound_def E1_valid_def E2_valid_def
  by (auto simp only: sample_core_def Core.simps split: if_splits)

text \<open>
  C19. A point of E1 survives the wire in both formats: serialising it to 96 bytes or compressing
  it to 48 and constructing an affine or a Jacobian point from the bytes gives the point back,
  the point at infinity included. The exceptions are the points of the curve whose first coordinate
  is zero: every constructor throws \<^verbatim>\<open>BLST_POINT_NOT_IN_GROUP\<close> for their bytes.
\<close>

theorem P1_wire_roundtrip:
  assumes "E1_point p" and "sqrt_fp_root K (E1_Y p)"
  shows "P1_Affine_of_bytes K (P1_Affine_serialize (P1_Affine p)) =
      (if E1_refused p then blst_throw BLST_POINT_NOT_IN_GROUP else Inr (P1_Affine p)) \<and>
    P1_Affine_of_bytes K (P1_Affine_compress (P1_Affine p)) =
      (if E1_refused p then blst_throw BLST_POINT_NOT_IN_GROUP else Inr (P1_Affine p)) \<and>
    P1_of_bytes K (P1_serialize (P1 p)) =
      (if E1_refused p then blst_throw BLST_POINT_NOT_IN_GROUP else Inr (P1 p)) \<and>
    P1_of_bytes K (P1_compress (P1 p)) =
      (if E1_refused p then blst_throw BLST_POINT_NOT_IN_GROUP else Inr (P1 p)) \<and>
    length (P1_serialize (P1 p)) = 96 \<and> length (P1_compress (P1 p)) = 48"
proof -
  have throw: "js_bind (blst_throw e) f = blst_throw e" for e and f :: "E1 \<Rightarrow> 'b js_result"
    by (simp add: js_bind_def blst_throw_def Let_def)
  show ?thesis
    using wire_read_1(1) [OF assms(1), of K] wire_read_1(2) [OF assms] E1_serialize_back(2) [OF assms(1)]
      E1_compress_back(2) [OF assms]
    by (simp add: P1_Affine_of_bytes_def P1_of_bytes_def P1_Affine_serialize_def P1_Affine_compress_def
        P1_serialize_def P1_compress_def throw)
qed

theorem P1_wire_roundtrip_witness:
  "P1_of_bytes sample_core (P1_compress P1_generator) = Inr P1_generator \<and>
   P1_of_bytes (sample_core\<lparr>sqrt_fp := \<lambda>_. Some 2\<rparr>) (P1_compress (P1 (E1 0 2))) = blst_throw BLST_POINT_NOT_IN_GROUP"
proof -
  have g: "E1_point BLS12_381_G1" "\<not> E1_refused BLS12_381_G1" using G1_valid by (simp_all add: E1_valid_point)
  have z: "E1_point (E1 0 2)" "E1_refused (E1 0 2)"
    by (simp_all add: E1_point_def E1_refused_def E1_inf_def POINTonE1_affine_on_curve_def fp_mul_def fp_add_def BLS12_381_P_def)
  have "sqrt_fp_root (sample_core\<lparr>sqrt_fp := \<lambda>_. Some 2\<rparr>) (E1_Y (E1 0 2))" by (simp add: sqrt_fp_root_def)
  from P1_wire_roundtrip [OF z(1) this] P1_wire_roundtrip [OF g(1) sample_core_roots(1)] g(2) z(2)
  show ?thesis unfolding P1_generator_def by simp
qed

text \<open>
  C20. A point of E2 survives the wire in both formats, 192 bytes serialised or 96 compressed, the
  point at infinity included.
\<close>

theorem P2_wire_roundtrip:
  assumes "E2_valid p" and "sqrt_fp2_root K (E2_Y p)"
  shows "P2_Affine_of_bytes K (P2_Affine_serialize (P2_Affine p)) = Inr (P2_Affine p) \<and>
    P2_Affine_of_bytes K (P2_Affine_compress (P2_Affine p)) = Inr (P2_Affine p) \<and>
    P2_of_bytes K (P2_serialize (P2 p)) = Inr (P2 p) \<and> P2_of_bytes K (P2_compress (P2 p)) = Inr (P2 p) \<and>
    length (P2_serialize (P2 p)) = 192 \<and> length (P2_compress (P2 p)) = 96"
  using wire_back_2(1) [OF assms(1), of K] wire_back_2(2) [OF assms] E2_serialize_back(2) [OF assms(1)]
    E2_compress_back(2) [OF assms]
  by (simp add: P2_Affine_of_bytes_def P2_of_bytes_def P2_Affine_serialize_def P2_Affine_compress_def
      P2_serialize_def P2_compress_def js_bind_def)

theorem P2_wire_roundtrip_witness:
  "P2_of_bytes sample_core (P2_compress P2_generator) = Inr P2_generator"
  using P2_wire_roundtrip [OF G2_valid(1) sample_core_roots(2)] unfolding P2_generator_def by blast

text \<open>
  C18. Whatever bytes arrive, a point constructed from them is on the curve with reduced coordinates,
  or it is infinity; membership in the subgroup is left to \<^verbatim>\<open>in_group\<close>.
\<close>

theorem decoded_points_on_curve:
  assumes "sqrt_sound K"
  shows "(P1_Affine_of_bytes K inp = Inr a1 \<longrightarrow> E1_valid (p1a_point a1) \<and> P1_Affine_on_curve a1) \<and>
    (P1_of_bytes K inp = Inr j1 \<longrightarrow> E1_valid (p1_point j1) \<and> P1_on_curve j1) \<and>
    (P2_Affine_of_bytes K inp = Inr a2 \<longrightarrow> E2_valid (p2a_point a2) \<and> P2_Affine_on_curve a2) \<and>
    (P2_of_bytes K inp = Inr j2 \<longrightarrow> E2_valid (p2_point j2) \<and> P2_on_curve j2)"
proof -
  have one: "E1_valid p \<and> (POINTonE1_affine_on_curve p \<or> p = E1_inf)" if "point1_of_bytes K inp = Inr p" for p
    using that E1_deserialize_valid [OF assms, of inp p] by (auto simp: of_bytes_deserialize E1_valid_def)
  have two: "E2_valid q \<and> (POINTonE2_affine_on_curve q \<or> q = E2_inf)" if "point2_of_bytes K inp = Inr q" for q
    using that E2_deserialize_valid [OF assms, of inp q] by (auto simp: of_bytes_deserialize E2_valid_def)
  show ?thesis
    using one two
    by (auto simp: P1_Affine_of_bytes_def P1_of_bytes_def P2_Affine_of_bytes_def P2_of_bytes_def js_bind_def
        P1_Affine_on_curve_def P1_on_curve_def P2_Affine_on_curve_def P2_on_curve_def split: sum.splits)
qed

theorem decoded_points_on_curve_witness:
  "sqrt_sound sample_core \<and> P1_of_bytes sample_core (P1_serialize P1_generator) = Inr P1_generator \<and>
   P1_on_curve P1_generator"
  using decoded_points_on_curve [OF sample_core_sound, of "P1_serialize P1_generator" _ P1_generator]
    wire_back_1(1) [OF G1_valid(1), of sample_core] sample_core_sound
  by (simp add: P1_of_bytes_def js_bind_def P1_serialize_def P1_generator_def)

end
