(* ===== verification/BlstPairing.thy ===== *)
theory BlstPairing
  imports BlstCurve
begin

text \<open>
  Pairings and the verification context (blst/src/aggregate.c and the entry of the Miller loop in
  blst/src/pairing.c), and the classes \<^verbatim>\<open>PT\<close> and \<^verbatim>\<open>Pairing\<close> of the C++ interface
  (blst/bindings/blst.hpp). The context keeps its control word as 32 bits and its queue as the two
  arrays of eight slots; memory that was never written is whatever the allocation returned, an
  argument of the constructor.
\<close>

unbundle bit_operations_syntax

section \<open>The Miller loop\<close>

text \<open>
  A single pair with a point at infinity is special: its value is the identity. The line
  evaluations of all other calls are the parameter \<open>miller_lines\<close>.
\<close>

definition miller_loop_n :: "'gt Core \<Rightarrow> (E2 \<times> E1) list \<Rightarrow> 'gt" where
  "miller_loop_n K ps =
     (if length ps = 1 \<and> (fst (hd ps) = E2_inf \<or> snd (hd ps) = E1_inf) then fp12_one K
      else miller_lines K ps)"

section \<open>The context\<close>

datatype AggregatedSignature = AggrSign_e1 (e1: E1) | AggrSign_e2 (e2: E2)

record 'gt PAIRING =
  pr_ctrl :: "32 word"
  pr_nelems :: nat
  pr_DST :: bytes
  pr_GT :: 'gt
  pr_AggrSign :: AggregatedSignature
  pr_Q :: "E2 list"
  pr_P :: "E1 list"

definition N_MAX :: nat where
  "N_MAX = 8"

definition AGGR_UNDEFINED :: "32 word" where
  "AGGR_UNDEFINED = 0"

definition AGGR_MIN_SIG :: "32 word" where
  "AGGR_MIN_SIG = 1"

definition AGGR_MIN_PK :: "32 word" where
  "AGGR_MIN_PK = 2"

definition AGGR_SIGN_SET :: "32 word" where
  "AGGR_SIGN_SET = 0x10"

definition AGGR_GT_SET :: "32 word" where
  "AGGR_GT_SET = 0x20"

definition AGGR_HASH_OR_ENCODE :: "32 word" where
  "AGGR_HASH_OR_ENCODE = 0x40"

definition MIN_SIG_OR_PK :: "32 word" where
  "MIN_SIG_OR_PK = AGGR_MIN_SIG OR AGGR_MIN_PK"

definition ctrl_has :: "'gt PAIRING \<Rightarrow> 32 word \<Rightarrow> bool" where
  "ctrl_has ctx flag \<longleftrightarrow> pr_ctrl ctx AND flag \<noteq> 0"

definition ctrl_or :: "'gt PAIRING \<Rightarrow> 32 word \<Rightarrow> 'gt PAIRING" where
  "ctrl_or ctx flag = ctx\<lparr>pr_ctrl := pr_ctrl ctx OR flag\<rparr>"

definition blst_pairing_init :: "'gt PAIRING \<Rightarrow> bool \<Rightarrow> bytes \<Rightarrow> 'gt PAIRING" where
  "blst_pairing_init mem hash_or_encode DST =
     mem\<lparr>pr_ctrl := AGGR_UNDEFINED OR (if hash_or_encode then AGGR_HASH_OR_ENCODE else 0),
         pr_nelems := 0, pr_DST := DST\<rparr>"

text \<open>The first \<open>n\<close> slots of the queue go through one Miller loop into the accumulator.\<close>

definition miller_batch :: "'gt Core \<Rightarrow> 'gt PAIRING \<Rightarrow> nat \<Rightarrow> 'gt PAIRING" where
  "miller_batch K ctx n =
     (let v = miller_loop_n K (take n (zip (pr_Q ctx) (pr_P ctx))) in
      if ctrl_has ctx AGGR_GT_SET then ctx\<lparr>pr_GT := mul_fp12 K (pr_GT ctx) v\<rparr>
      else ctrl_or (ctx\<lparr>pr_GT := v\<rparr>) AGGR_GT_SET)"

text \<open>The tail the three aggregation functions share: fill a slot, run the batch when it is full.\<close>

definition enqueue_pair :: "'gt Core \<Rightarrow> 'gt PAIRING \<Rightarrow> E2 \<Rightarrow> E1 \<Rightarrow> 'gt PAIRING" where
  "enqueue_pair K ctx q p =
     (let n = pr_nelems ctx; ctx = ctx\<lparr>pr_Q := (pr_Q ctx)[n := q], pr_P := (pr_P ctx)[n := p]\<rparr> in
      if Suc n = N_MAX then (miller_batch K ctx (Suc n))\<lparr>pr_nelems := 0\<rparr>
      else ctx\<lparr>pr_nelems := Suc n\<rparr>)"

text \<open>The optional multiplier: absent, or a number of bits of a byte string.\<close>

definition multiplier :: "(bytes \<times> nat) option \<Rightarrow> nat option" where
  "multiplier scalar = (case scalar of None \<Rightarrow> None
     | Some (b, nbits) \<Rightarrow> if nbits \<noteq> 0 then Some (le_dec b mod 2 ^ nbits) else None)"

definition times_E1 :: "'gt Core \<Rightarrow> nat option \<Rightarrow> E1 \<Rightarrow> E1" where
  "times_E1 K m p = (case m of None \<Rightarrow> p | Some n \<Rightarrow> E1_mult K p n)"

definition times_E2 :: "'gt Core \<Rightarrow> nat option \<Rightarrow> E2 \<Rightarrow> E2" where
  "times_E2 K m p = (case m of None \<Rightarrow> p | Some n \<Rightarrow> E2_mult K p n)"

definition PAIRING_Aggregate_PK_in_G2 ::
    "'gt Core \<Rightarrow> 'gt PAIRING \<Rightarrow> E2 option \<Rightarrow> bool \<Rightarrow> E1 option \<Rightarrow> bool \<Rightarrow> (bytes \<times> nat) option \<Rightarrow>
     bytes \<Rightarrow> bytes \<Rightarrow> 'gt PAIRING \<times> BLST_ERROR" where
  "PAIRING_Aggregate_PK_in_G2 K ctx PK pk_groupcheck sig sig_groupcheck scalar msg aug =
     (if ctrl_has ctx AGGR_MIN_PK then (ctx, BLST_AGGR_TYPE_MISMATCH)
      else
        let ctx = ctrl_or ctx AGGR_MIN_SIG; m = multiplier scalar;
            signed = (case sig of
              None \<Rightarrow> Inr ctx
            | Some s \<Rightarrow>
                if s = E1_inf then Inr ctx
                else if sig_groupcheck \<and> \<not> E1_in_G1 K s then Inl BLST_POINT_NOT_IN_GROUP
                else if ctrl_has ctx AGGR_SIGN_SET then
                  Inr (ctx\<lparr>pr_AggrSign := AggrSign_e1 (E1_dadd K (e1 (pr_AggrSign ctx)) (times_E1 K m s))\<rparr>)
                else Inr (ctrl_or (ctx\<lparr>pr_AggrSign := AggrSign_e1 (times_E1 K m s)\<rparr>) AGGR_SIGN_SET)) in
        case signed of
          Inl err \<Rightarrow> (ctx, err)
        | Inr ctx \<Rightarrow>
            case PK of
              None \<Rightarrow> (ctx, BLST_SUCCESS)
            | Some pk \<Rightarrow>
                if pk = E2_inf then (ctx, BLST_PK_IS_INFINITY)
                else if pk_groupcheck \<and> \<not> E2_in_G2 K pk then (ctx, BLST_POINT_NOT_IN_GROUP)
                else
                  let H = (if ctrl_has ctx AGGR_HASH_OR_ENCODE then Hash_to_G1 K msg (pr_DST ctx) aug
                           else Encode_to_G1 K msg (pr_DST ctx) aug)
                  in (enqueue_pair K ctx pk (times_E1 K m H), BLST_SUCCESS))"

definition PAIRING_Aggregate_PK_in_G1 ::
    "'gt Core \<Rightarrow> 'gt PAIRING \<Rightarrow> E1 option \<Rightarrow> bool \<Rightarrow> E2 option \<Rightarrow> bool \<Rightarrow> (bytes \<times> nat) option \<Rightarrow>
     bytes \<Rightarrow> bytes \<Rightarrow> 'gt PAIRING \<times> BLST_ERROR" where
  "PAIRING_Aggregate_PK_in_G1 K ctx PK pk_groupcheck sig sig_groupcheck scalar msg aug =
     (if ctrl_has ctx AGGR_MIN_SIG then (ctx, BLST_AGGR_TYPE_MISMATCH)
      else
        let ctx = ctrl_or ctx AGGR_MIN_PK; m = multiplier scalar;
            signed = (case sig of
              None \<Rightarrow> Inr ctx
            | Some s \<Rightarrow>
                if s = E2_inf then Inr ctx
                else if sig_groupcheck \<and> \<not> E2_in_G2 K s then Inl BLST_POINT_NOT_IN_GROUP
                else if ctrl_has ctx AGGR_SIGN_SET then
                  Inr (ctx\<lparr>pr_AggrSign := AggrSign_e2 (E2_dadd K (e2 (pr_AggrSign ctx)) (times_E2 K m s))\<rparr>)
                else Inr (ctrl_or (ctx\<lparr>pr_AggrSign := AggrSign_e2 (times_E2 K m s)\<rparr>) AGGR_SIGN_SET)) in
        case signed of
          Inl err \<Rightarrow> (ctx, err)
        | Inr ctx \<Rightarrow>
            case PK of
              None \<Rightarrow> (ctx, BLST_SUCCESS)
            | Some pk \<Rightarrow>
                if pk = E1_inf then (ctx, BLST_PK_IS_INFINITY)
                else if pk_groupcheck \<and> \<not> E1_in_G1 K pk then (ctx, BLST_POINT_NOT_IN_GROUP)
                else
                  let H = (if ctrl_has ctx AGGR_HASH_OR_ENCODE then Hash_to_G2 K msg (pr_DST ctx) aug
                           else Encode_to_G2 K msg (pr_DST ctx) aug)
                  in (enqueue_pair K ctx H (times_E1 K m pk), BLST_SUCCESS))"

definition PAIRING_Commit :: "'gt Core \<Rightarrow> 'gt PAIRING \<Rightarrow> 'gt PAIRING" where
  "PAIRING_Commit K ctx =
     (if pr_nelems ctx \<noteq> 0 then (miller_batch K ctx (pr_nelems ctx))\<lparr>pr_nelems := 0\<rparr> else ctx)"

definition blst_pairing_merge :: "'gt Core \<Rightarrow> 'gt PAIRING \<Rightarrow> 'gt PAIRING \<Rightarrow> 'gt PAIRING \<times> BLST_ERROR" where
  "blst_pairing_merge K ctx ctx1 =
     (if pr_ctrl ctx AND MIN_SIG_OR_PK \<noteq> AGGR_UNDEFINED \<and> pr_ctrl ctx1 AND MIN_SIG_OR_PK \<noteq> AGGR_UNDEFINED \<and>
         pr_ctrl ctx AND pr_ctrl ctx1 AND MIN_SIG_OR_PK = 0
      then (ctx, BLST_AGGR_TYPE_MISMATCH)
      else if pr_nelems ctx \<noteq> 0 \<or> pr_nelems ctx1 \<noteq> 0 then (ctx, BLST_AGGR_TYPE_MISMATCH)
      else
        let ctx = ctrl_or ctx (pr_ctrl ctx1 AND MIN_SIG_OR_PK); kind = pr_ctrl ctx AND MIN_SIG_OR_PK;
            both = ctrl_has ctx AGGR_SIGN_SET \<and> ctrl_has ctx1 AGGR_SIGN_SET in
        if kind \<noteq> AGGR_MIN_SIG \<and> kind \<noteq> AGGR_MIN_PK \<and> kind \<noteq> AGGR_UNDEFINED
        then (ctx, BLST_AGGR_TYPE_MISMATCH)
        else
          let ctx =
            (if kind = AGGR_UNDEFINED then ctx
             else if both \<and> kind = AGGR_MIN_SIG then
               ctx\<lparr>pr_AggrSign := AggrSign_e1 (E1_dadd K (e1 (pr_AggrSign ctx)) (e1 (pr_AggrSign ctx1)))\<rparr>
             else if both then
               ctx\<lparr>pr_AggrSign := AggrSign_e2 (E2_dadd K (e2 (pr_AggrSign ctx)) (e2 (pr_AggrSign ctx1)))\<rparr>
             else if ctrl_has ctx1 AGGR_SIGN_SET then
               ctrl_or (ctx\<lparr>pr_AggrSign := pr_AggrSign ctx1\<rparr>) AGGR_SIGN_SET
             else ctx) in
          let ctx =
            (if ctrl_has ctx AGGR_GT_SET \<and> ctrl_has ctx1 AGGR_GT_SET then
               ctx\<lparr>pr_GT := mul_fp12 K (pr_GT ctx) (pr_GT ctx1)\<rparr>
             else if ctrl_has ctx1 AGGR_GT_SET then ctrl_or (ctx\<lparr>pr_GT := pr_GT ctx1\<rparr>) AGGR_GT_SET
             else ctx)
          in (ctx, BLST_SUCCESS))"

definition PAIRING_FinalVerify :: "'gt Core \<Rightarrow> 'gt PAIRING \<Rightarrow> 'gt option \<Rightarrow> bool" where
  "PAIRING_FinalVerify K ctx GTsig =
     (if \<not> ctrl_has ctx AGGR_GT_SET then False
      else
        let kind = pr_ctrl ctx AND MIN_SIG_OR_PK;
            sig = (case GTsig of
              Some v \<Rightarrow> Some v
            | None \<Rightarrow>
                if ctrl_has ctx AGGR_SIGN_SET then
                  if kind = AGGR_MIN_SIG then Some (miller_loop_n K [(BLS12_381_G2, e1 (pr_AggrSign ctx))])
                  else if kind = AGGR_MIN_PK then Some (miller_loop_n K [(e2 (pr_AggrSign ctx), BLS12_381_G1)])
                  else None
                else Some (fp12_one K)) in
        case sig of
          None \<Rightarrow> False
        | Some v \<Rightarrow> final_exp K (mul_fp12 K (conjugate_fp12 K v) (pr_GT ctx)) = fp12_one K)"

definition blst_fp12_finalverify :: "'gt Core \<Rightarrow> 'gt \<Rightarrow> 'gt \<Rightarrow> bool" where
  "blst_fp12_finalverify K GT1 GT2 \<longleftrightarrow>
     final_exp K (mul_fp12 K (conjugate_fp12 K GT1) GT2) = fp12_one K"

definition blst_pairing_raw_aggregate :: "'gt Core \<Rightarrow> 'gt PAIRING \<Rightarrow> E2 \<Rightarrow> E1 \<Rightarrow> 'gt PAIRING" where
  "blst_pairing_raw_aggregate K ctx q p =
     (if q = E2_inf \<and> p = E1_inf then ctx else enqueue_pair K ctx q p)"

definition blst_pairing_as_fp12 :: "'gt Core \<Rightarrow> 'gt PAIRING \<Rightarrow> 'gt PAIRING \<times> 'gt" where
  "blst_pairing_as_fp12 K ctx = (let ctx = PAIRING_Commit K ctx in (ctx, pr_GT ctx))"

definition blst_aggregate_in_g1 :: "'gt Core \<Rightarrow> E1 \<Rightarrow> E1 option \<Rightarrow> bytes \<Rightarrow> E1 \<times> BLST_ERROR" where
  "blst_aggregate_in_g1 K out inp zwire =
     (case blst_p1_deserialize K zwire of
        Inl err \<Rightarrow> (out, err)
      | Inr p \<Rightarrow>
          if p = E1_inf then (if inp = None then E1_inf else out, BLST_SUCCESS)
          else if \<not> E1_in_G1 K p then (out, BLST_POINT_NOT_IN_GROUP)
          else (case inp of None \<Rightarrow> p | Some a \<Rightarrow> E1_dadd K a p, BLST_SUCCESS))"

definition blst_aggregate_in_g2 :: "'gt Core \<Rightarrow> E2 \<Rightarrow> E2 option \<Rightarrow> bytes \<Rightarrow> E2 \<times> BLST_ERROR" where
  "blst_aggregate_in_g2 K out inp zwire =
     (case blst_p2_deserialize K zwire of
        Inl err \<Rightarrow> (out, err)
      | Inr p \<Rightarrow>
          if p = E2_inf then (if inp = None then E2_inf else out, BLST_SUCCESS)
          else if \<not> E2_in_G2 K p then (out, BLST_POINT_NOT_IN_GROUP)
          else (case inp of None \<Rightarrow> p | Some a \<Rightarrow> E2_dadd K a p, BLST_SUCCESS))"

definition blst_aggregated_in_g1 :: "'gt Core \<Rightarrow> E1 \<Rightarrow> 'gt" where
  "blst_aggregated_in_g1 K sig = miller_loop_n K [(BLS12_381_G2, sig)]"

definition blst_aggregated_in_g2 :: "'gt Core \<Rightarrow> E2 \<Rightarrow> 'gt" where
  "blst_aggregated_in_g2 K sig = miller_loop_n K [(sig, BLS12_381_G1)]"

definition blst_core_verify_pk_in_g1 ::
    "'gt Core \<Rightarrow> 'gt PAIRING \<Rightarrow> E1 \<Rightarrow> E2 \<Rightarrow> bool \<Rightarrow> bytes \<Rightarrow> bytes \<Rightarrow> bytes \<Rightarrow> BLST_ERROR" where
  "blst_core_verify_pk_in_g1 K mem pk signature hash_or_encode msg DST aug =
     (let (ctx, ret) = PAIRING_Aggregate_PK_in_G1 K (blst_pairing_init mem hash_or_encode DST)
            (Some pk) True (Some signature) True None msg aug in
      if ret \<noteq> BLST_SUCCESS then ret
      else if PAIRING_FinalVerify K (PAIRING_Commit K ctx) None then BLST_SUCCESS else BLST_VERIFY_FAIL)"

definition blst_core_verify_pk_in_g2 ::
    "'gt Core \<Rightarrow> 'gt PAIRING \<Rightarrow> E2 \<Rightarrow> E1 \<Rightarrow> bool \<Rightarrow> bytes \<Rightarrow> bytes \<Rightarrow> bytes \<Rightarrow> BLST_ERROR" where
  "blst_core_verify_pk_in_g2 K mem pk signature hash_or_encode msg DST aug =
     (let (ctx, ret) = PAIRING_Aggregate_PK_in_G2 K (blst_pairing_init mem hash_or_encode DST)
            (Some pk) True (Some signature) True None msg aug in
      if ret \<noteq> BLST_SUCCESS then ret
      else if PAIRING_FinalVerify K (PAIRING_Commit K ctx) None then BLST_SUCCESS else BLST_VERIFY_FAIL)"

section \<open>The classes PT and Pairing\<close>

datatype 'gt PT = PT (pt_value: 'gt)

definition PT_of_P1 :: "'gt Core \<Rightarrow> P1_Affine \<Rightarrow> 'gt PT" where
  "PT_of_P1 K p = PT (blst_aggregated_in_g1 K (p1a_point p))"

definition PT_of_P2 :: "'gt Core \<Rightarrow> P2_Affine \<Rightarrow> 'gt PT" where
  "PT_of_P2 K q = PT (blst_aggregated_in_g2 K (p2a_point q))"

definition PT_of_pair :: "'gt Core \<Rightarrow> P2_Affine \<Rightarrow> P1_Affine \<Rightarrow> 'gt PT" where
  "PT_of_pair K q p = PT (miller_loop_n K [(p2a_point q, p1a_point p)])"

definition PT_one :: "'gt Core \<Rightarrow> 'gt PT" where
  "PT_one K = PT (fp12_one K)"

definition PT_is_one :: "'gt Core \<Rightarrow> 'gt PT \<Rightarrow> bool" where
  "PT_is_one K t \<longleftrightarrow> pt_value t = fp12_one K"

definition PT_is_equal :: "'gt PT \<Rightarrow> 'gt PT \<Rightarrow> bool" where
  "PT_is_equal t u \<longleftrightarrow> pt_value t = pt_value u"

definition PT_sqr :: "'gt Core \<Rightarrow> 'gt PT \<Rightarrow> 'gt PT" where
  "PT_sqr K t = PT (sqr_fp12 K (pt_value t))"

definition PT_mul :: "'gt Core \<Rightarrow> 'gt PT \<Rightarrow> 'gt PT \<Rightarrow> 'gt PT" where
  "PT_mul K t u = PT (mul_fp12 K (pt_value t) (pt_value u))"

definition PT_final_exp :: "'gt Core \<Rightarrow> 'gt PT \<Rightarrow> 'gt PT" where
  "PT_final_exp K t = PT (final_exp K (pt_value t))"

definition PT_in_group :: "'gt Core \<Rightarrow> 'gt PT \<Rightarrow> bool" where
  "PT_in_group K t \<longleftrightarrow> fp12_in_group K (pt_value t)"

definition PT_to_bendian :: "'gt Core \<Rightarrow> 'gt PT \<Rightarrow> bytes" where
  "PT_to_bendian K t = bendian_from_fp12 K (pt_value t)"

definition Pairing_new :: "'gt PAIRING \<Rightarrow> bool \<Rightarrow> bytes \<Rightarrow> 'gt PAIRING" where
  "Pairing_new mem hash_or_encode DST = blst_pairing_init mem hash_or_encode DST"

definition Pairing_aggregate_g1 ::
    "'gt Core \<Rightarrow> 'gt PAIRING \<Rightarrow> P1_Affine \<Rightarrow> P2_Affine \<Rightarrow> bytes \<Rightarrow> bytes \<Rightarrow> 'gt PAIRING \<times> BLST_ERROR" where
  "Pairing_aggregate_g1 K ctx pk sig msg aug =
     PAIRING_Aggregate_PK_in_G1 K ctx (Some (p1a_point pk)) False (Some (p2a_point sig)) True None msg aug"

definition Pairing_aggregate_g2 ::
    "'gt Core \<Rightarrow> 'gt PAIRING \<Rightarrow> P2_Affine \<Rightarrow> P1_Affine \<Rightarrow> bytes \<Rightarrow> bytes \<Rightarrow> 'gt PAIRING \<times> BLST_ERROR" where
  "Pairing_aggregate_g2 K ctx pk sig msg aug =
     PAIRING_Aggregate_PK_in_G2 K ctx (Some (p2a_point pk)) False (Some (p1a_point sig)) True None msg aug"

definition Pairing_mul_n_aggregate_g1 ::
    "'gt Core \<Rightarrow> 'gt PAIRING \<Rightarrow> P1_Affine \<Rightarrow> P2_Affine \<Rightarrow> bytes \<Rightarrow> bytes \<Rightarrow> bytes \<Rightarrow> 'gt PAIRING \<times> BLST_ERROR" where
  "Pairing_mul_n_aggregate_g1 K ctx pk sig scalar msg aug =
     PAIRING_Aggregate_PK_in_G1 K ctx (Some (p1a_point pk)) False (Some (p2a_point sig)) True
       (Some (scalar, 8 * length scalar)) msg aug"

definition Pairing_mul_n_aggregate_g2 ::
    "'gt Core \<Rightarrow> 'gt PAIRING \<Rightarrow> P2_Affine \<Rightarrow> P1_Affine \<Rightarrow> bytes \<Rightarrow> bytes \<Rightarrow> bytes \<Rightarrow> 'gt PAIRING \<times> BLST_ERROR" where
  "Pairing_mul_n_aggregate_g2 K ctx pk sig scalar msg aug =
     PAIRING_Aggregate_PK_in_G2 K ctx (Some (p2a_point pk)) False (Some (p1a_point sig)) True
       (Some (scalar, 8 * length scalar)) msg aug"

definition Pairing_commit :: "'gt Core \<Rightarrow> 'gt PAIRING \<Rightarrow> 'gt PAIRING" where
  "Pairing_commit K ctx = PAIRING_Commit K ctx"

definition Pairing_merge :: "'gt Core \<Rightarrow> 'gt PAIRING \<Rightarrow> 'gt PAIRING \<Rightarrow> 'gt PAIRING \<times> BLST_ERROR" where
  "Pairing_merge K ctx ctx1 = blst_pairing_merge K ctx ctx1"

definition Pairing_finalverify :: "'gt Core \<Rightarrow> 'gt PAIRING \<Rightarrow> 'gt PT option \<Rightarrow> bool" where
  "Pairing_finalverify K ctx sig = PAIRING_FinalVerify K ctx (map_option pt_value sig)"

definition Pairing_raw_aggregate :: "'gt Core \<Rightarrow> 'gt PAIRING \<Rightarrow> P2_Affine \<Rightarrow> P1_Affine \<Rightarrow> 'gt PAIRING" where
  "Pairing_raw_aggregate K ctx q p = blst_pairing_raw_aggregate K ctx (p2a_point q) (p1a_point p)"

definition Pairing_as_fp12 :: "'gt Core \<Rightarrow> 'gt PAIRING \<Rightarrow> 'gt PAIRING \<times> 'gt PT" where
  "Pairing_as_fp12 K ctx = map_prod id PT (blst_pairing_as_fp12 K ctx)"

definition P1_Affine_core_verify ::
    "'gt Core \<Rightarrow> 'gt PAIRING \<Rightarrow> P1_Affine \<Rightarrow> P2_Affine \<Rightarrow> bool \<Rightarrow> bytes \<Rightarrow> bytes \<Rightarrow> bytes \<Rightarrow> BLST_ERROR" where
  "P1_Affine_core_verify K mem sig pk hash_or_encode msg DST aug =
     blst_core_verify_pk_in_g2 K mem (p2a_point pk) (p1a_point sig) hash_or_encode msg DST aug"

definition P2_Affine_core_verify ::
    "'gt Core \<Rightarrow> 'gt PAIRING \<Rightarrow> P2_Affine \<Rightarrow> P1_Affine \<Rightarrow> bool \<Rightarrow> bytes \<Rightarrow> bytes \<Rightarrow> bytes \<Rightarrow> BLST_ERROR" where
  "P2_Affine_core_verify K mem sig pk hash_or_encode msg DST aug =
     blst_core_verify_pk_in_g1 K mem (p1a_point pk) (p2a_point sig) hash_or_encode msg DST aug"

section \<open>The control word\<close>

lemma ctrl_has_or: "ctrl_has (ctrl_or ctx f) g \<longleftrightarrow> ctrl_has ctx g \<or> f AND g \<noteq> 0"
  by (simp add: ctrl_has_def ctrl_or_def bit.conj_disj_distrib2 or_eq_0_iff)

lemma ctrl_has_upd [simp]:
  "ctrl_has (ctx\<lparr>pr_nelems := n\<rparr>) g = ctrl_has ctx g" "ctrl_has (ctx\<lparr>pr_GT := v\<rparr>) g = ctrl_has ctx g"
  "ctrl_has (ctx\<lparr>pr_AggrSign := s\<rparr>) g = ctrl_has ctx g" "ctrl_has (ctx\<lparr>pr_Q := qs\<rparr>) g = ctrl_has ctx g"
  "ctrl_has (ctx\<lparr>pr_P := ps\<rparr>) g = ctrl_has ctx g" "ctrl_has (ctx\<lparr>pr_DST := d\<rparr>) g = ctrl_has ctx g"
  by (simp_all add: ctrl_has_def)

lemma ctrl_or_sel [simp]:
  "pr_nelems (ctrl_or ctx f) = pr_nelems ctx" "pr_GT (ctrl_or ctx f) = pr_GT ctx"
  "pr_AggrSign (ctrl_or ctx f) = pr_AggrSign ctx" "pr_Q (ctrl_or ctx f) = pr_Q ctx"
  "pr_P (ctrl_or ctx f) = pr_P ctx" "pr_DST (ctrl_or ctx f) = pr_DST ctx"
  "pr_ctrl (ctrl_or ctx f) = pr_ctrl ctx OR f"
  by (simp_all add: ctrl_or_def)

lemma flags_disjoint [simp]:
  "AGGR_MIN_SIG AND AGGR_MIN_SIG \<noteq> 0" "AGGR_MIN_SIG AND AGGR_MIN_PK = 0" "AGGR_MIN_SIG AND AGGR_SIGN_SET = 0"
  "AGGR_MIN_SIG AND AGGR_GT_SET = 0" "AGGR_MIN_SIG AND AGGR_HASH_OR_ENCODE = 0"
  "AGGR_MIN_PK AND AGGR_MIN_SIG = 0" "AGGR_MIN_PK AND AGGR_MIN_PK \<noteq> 0" "AGGR_MIN_PK AND AGGR_SIGN_SET = 0"
  "AGGR_MIN_PK AND AGGR_GT_SET = 0" "AGGR_MIN_PK AND AGGR_HASH_OR_ENCODE = 0"
  "AGGR_SIGN_SET AND AGGR_MIN_SIG = 0" "AGGR_SIGN_SET AND AGGR_MIN_PK = 0" "AGGR_SIGN_SET AND AGGR_SIGN_SET \<noteq> 0"
  "AGGR_SIGN_SET AND AGGR_GT_SET = 0" "AGGR_SIGN_SET AND AGGR_HASH_OR_ENCODE = 0"
  "AGGR_GT_SET AND AGGR_MIN_SIG = 0" "AGGR_GT_SET AND AGGR_MIN_PK = 0" "AGGR_GT_SET AND AGGR_SIGN_SET = 0"
  "AGGR_GT_SET AND AGGR_GT_SET \<noteq> 0" "AGGR_GT_SET AND AGGR_HASH_OR_ENCODE = 0"
  "AGGR_MIN_SIG \<noteq> 0" "AGGR_MIN_PK \<noteq> 0" "AGGR_SIGN_SET \<noteq> 0" "AGGR_GT_SET \<noteq> 0"
  by (simp_all add: AGGR_MIN_SIG_def AGGR_MIN_PK_def AGGR_SIGN_SET_def AGGR_GT_SET_def AGGR_HASH_OR_ENCODE_def)

lemma kind_bits:
  "pr_ctrl ctx AND MIN_SIG_OR_PK = AGGR_MIN_SIG \<longleftrightarrow> ctrl_has ctx AGGR_MIN_SIG \<and> \<not> ctrl_has ctx AGGR_MIN_PK"
  "pr_ctrl ctx AND MIN_SIG_OR_PK = AGGR_MIN_PK \<longleftrightarrow> ctrl_has ctx AGGR_MIN_PK \<and> \<not> ctrl_has ctx AGGR_MIN_SIG"
  "pr_ctrl ctx AND MIN_SIG_OR_PK = AGGR_UNDEFINED \<longleftrightarrow> \<not> ctrl_has ctx AGGR_MIN_PK \<and> \<not> ctrl_has ctx AGGR_MIN_SIG"
proof -
  let ?c = "pr_ctrl ctx"
  have b: "?c AND 1 = (if bit ?c 0 then 1 else 0)" "?c AND 2 = (if bit ?c 1 then 2 else 0)"
    by (auto intro!: bit_word_eqI simp: bit_and_iff bit_1_iff bit_2_iff split: if_splits)
  have "?c AND MIN_SIG_OR_PK = (?c AND 1) OR (?c AND 2)"
    by (simp add: MIN_SIG_OR_PK_def AGGR_MIN_SIG_def AGGR_MIN_PK_def flip: bit.conj_disj_distrib)
  then have c: "?c AND MIN_SIG_OR_PK = (if bit ?c 0 then 1 else 0) OR (if bit ?c 1 then 2 else 0)"
    by (simp only: b)
  show "?c AND MIN_SIG_OR_PK = AGGR_MIN_SIG \<longleftrightarrow> ctrl_has ctx AGGR_MIN_SIG \<and> \<not> ctrl_has ctx AGGR_MIN_PK"
    "?c AND MIN_SIG_OR_PK = AGGR_MIN_PK \<longleftrightarrow> ctrl_has ctx AGGR_MIN_PK \<and> \<not> ctrl_has ctx AGGR_MIN_SIG"
    "?c AND MIN_SIG_OR_PK = AGGR_UNDEFINED \<longleftrightarrow> \<not> ctrl_has ctx AGGR_MIN_PK \<and> \<not> ctrl_has ctx AGGR_MIN_SIG"
    unfolding c unfolding ctrl_has_def AGGR_MIN_SIG_def AGGR_MIN_PK_def AGGR_UNDEFINED_def b
    by (cases "bit ?c 0"; cases "bit ?c 1"; simp)+
qed

lemma init_flags [simp]:
  "ctrl_has (blst_pairing_init mem h d) AGGR_MIN_SIG = False" "ctrl_has (blst_pairing_init mem h d) AGGR_MIN_PK = False"
  "ctrl_has (blst_pairing_init mem h d) AGGR_SIGN_SET = False" "ctrl_has (blst_pairing_init mem h d) AGGR_GT_SET = False"
  "ctrl_has (blst_pairing_init mem h d) AGGR_HASH_OR_ENCODE = h"
  "pr_nelems (blst_pairing_init mem h d) = 0" "pr_DST (blst_pairing_init mem h d) = d"
  "pr_Q (blst_pairing_init mem h d) = pr_Q mem" "pr_P (blst_pairing_init mem h d) = pr_P mem"
  by (simp_all add: ctrl_has_def blst_pairing_init_def AGGR_UNDEFINED_def AGGR_MIN_SIG_def AGGR_MIN_PK_def
      AGGR_SIGN_SET_def AGGR_GT_SET_def AGGR_HASH_OR_ENCODE_def)

section \<open>The queue\<close>

text \<open>The pairs waiting in the queue, and the shape of the context.\<close>

definition pending :: "'gt PAIRING \<Rightarrow> (E2 \<times> E1) list" where
  "pending ctx = take (pr_nelems ctx) (zip (pr_Q ctx) (pr_P ctx))"

definition PAIRING_shape :: "'gt PAIRING \<Rightarrow> bool" where
  "PAIRING_shape ctx \<longleftrightarrow> pr_nelems ctx < N_MAX \<and> length (pr_Q ctx) = N_MAX \<and> length (pr_P ctx) = N_MAX"

lemma miller_batch_sel [simp]:
  "pr_nelems (miller_batch K ctx n) = pr_nelems ctx" "pr_AggrSign (miller_batch K ctx n) = pr_AggrSign ctx"
  "pr_Q (miller_batch K ctx n) = pr_Q ctx" "pr_P (miller_batch K ctx n) = pr_P ctx"
  "pr_DST (miller_batch K ctx n) = pr_DST ctx"
  "ctrl_has (miller_batch K ctx n) f = (ctrl_has ctx f \<or> \<not> ctrl_has ctx AGGR_GT_SET \<and> AGGR_GT_SET AND f \<noteq> 0)"
  by (simp_all add: miller_batch_def Let_def ctrl_has_or)

lemma enqueue_pair_sel [simp]:
  "pr_AggrSign (enqueue_pair K ctx q p) = pr_AggrSign ctx" "pr_DST (enqueue_pair K ctx q p) = pr_DST ctx"
  "AGGR_GT_SET AND f = 0 \<Longrightarrow> ctrl_has (enqueue_pair K ctx q p) f = ctrl_has ctx f"
  by (simp_all add: enqueue_pair_def Let_def)

lemma enqueue_shape: "PAIRING_shape ctx \<Longrightarrow> PAIRING_shape (enqueue_pair K ctx q p)"
  by (auto simp: PAIRING_shape_def enqueue_pair_def Let_def N_MAX_def)

lemma pending_enqueue:
  assumes "PAIRING_shape ctx"
  shows "take (Suc (pr_nelems ctx)) (zip ((pr_Q ctx)[pr_nelems ctx := q]) ((pr_P ctx)[pr_nelems ctx := p])) =
    pending ctx @ [(q, p)]"
  using assms unfolding PAIRING_shape_def pending_def
  by (simp add: take_Suc_conv_app_nth take_update_cancel take_zip)

lemma pending_enqueue_not_full:
  assumes "PAIRING_shape ctx" and "Suc (pr_nelems ctx) \<noteq> N_MAX"
  shows "pending (enqueue_pair K ctx q p) = pending ctx @ [(q, p)]"
  using pending_enqueue [OF assms(1), of q p] assms(2)
  by (simp add: enqueue_pair_def Let_def pending_def)

section \<open>What the parameters promise\<close>

text \<open>
  The pairing values are a commutative monoid, and the line evaluations of several pairs multiply
  up. On the subgroups, addition and multiplication are those of a group of points of the curve;
  the maps of field elements end in the subgroup. The pairing, Miller loop followed by the final exponentiation, is
  bilinear, with values that conjugation inverts.
\<close>

definition gt_laws :: "'gt Core \<Rightarrow> bool" where
  "gt_laws K \<longleftrightarrow>
     (\<forall>a b c. mul_fp12 K (mul_fp12 K a b) c = mul_fp12 K a (mul_fp12 K b c)) \<and>
     (\<forall>a b. mul_fp12 K a b = mul_fp12 K b a) \<and> (\<forall>a. mul_fp12 K (fp12_one K) a = a) \<and>
     (\<forall>x y ys. miller_lines K (x # y # ys) = mul_fp12 K (miller_lines K [x]) (miller_lines K (y # ys)))"

definition group1_laws :: "'gt Core \<Rightarrow> bool" where
  "group1_laws K \<longleftrightarrow>
     E1_in_G1 K E1_inf \<and> E1_in_G1 K BLS12_381_G1 \<and> (\<forall>p. E1_in_G1 K p \<longrightarrow> E1_valid p) \<and>
     (\<forall>p q. E1_in_G1 K p \<longrightarrow> E1_in_G1 K q \<longrightarrow> E1_in_G1 K (E1_dadd K p q)) \<and>
     (\<forall>p q s. E1_in_G1 K p \<longrightarrow> E1_in_G1 K q \<longrightarrow> E1_in_G1 K s \<longrightarrow>
        E1_dadd K (E1_dadd K p q) s = E1_dadd K p (E1_dadd K q s)) \<and>
     (\<forall>p. E1_in_G1 K p \<longrightarrow> E1_dadd K E1_inf p = p \<and> E1_dadd K p E1_inf = p) \<and>
     (\<forall>p n. E1_in_G1 K p \<longrightarrow> E1_mult K p 0 = E1_inf \<and> E1_mult K p (Suc n) = E1_dadd K (E1_mult K p n) p) \<and>
     (\<forall>p n. E1_in_G1 K p \<longrightarrow> n < BLS12_381_r \<longrightarrow> E1_mult_glv K p n = E1_mult K p n) \<and>
     (\<forall>u v. E1_in_G1 K (map_to_g1 K u v))"

definition group2_laws :: "'gt Core \<Rightarrow> bool" where
  "group2_laws K \<longleftrightarrow>
     E2_in_G2 K E2_inf \<and> E2_in_G2 K BLS12_381_G2 \<and> (\<forall>p. E2_in_G2 K p \<longrightarrow> E2_valid p) \<and>
     (\<forall>p q. E2_in_G2 K p \<longrightarrow> E2_in_G2 K q \<longrightarrow> E2_in_G2 K (E2_dadd K p q)) \<and>
     (\<forall>p q s. E2_in_G2 K p \<longrightarrow> E2_in_G2 K q \<longrightarrow> E2_in_G2 K s \<longrightarrow>
        E2_dadd K (E2_dadd K p q) s = E2_dadd K p (E2_dadd K q s)) \<and>
     (\<forall>p. E2_in_G2 K p \<longrightarrow> E2_dadd K E2_inf p = p \<and> E2_dadd K p E2_inf = p) \<and>
     (\<forall>p n. E2_in_G2 K p \<longrightarrow> E2_mult K p 0 = E2_inf \<and> E2_mult K p (Suc n) = E2_dadd K (E2_mult K p n) p) \<and>
     (\<forall>p n. E2_in_G2 K p \<longrightarrow> n < BLS12_381_r \<longrightarrow> E2_mult_gls K p n = E2_mult K p n) \<and>
     (\<forall>u v. E2_in_G2 K (map_to_g2 K u v))"

definition pair_value :: "'gt Core \<Rightarrow> E2 \<Rightarrow> E1 \<Rightarrow> 'gt" where
  "pair_value K q p = final_exp K (miller_loop_n K [(q, p)])"

definition pairing_laws :: "'gt Core \<Rightarrow> bool" where
  "pairing_laws K \<longleftrightarrow>
     final_exp K (fp12_one K) = fp12_one K \<and>
     (\<forall>a b. final_exp K (mul_fp12 K a b) = mul_fp12 K (final_exp K a) (final_exp K b)) \<and>
     (\<forall>a. \<not> fp12_is_zero K a \<longrightarrow> mul_fp12 K (final_exp K (conjugate_fp12 K a)) (final_exp K a) = fp12_one K) \<and>
     (\<forall>q p. E2_in_G2 K q \<longrightarrow> E1_in_G1 K p \<longrightarrow> \<not> fp12_is_zero K (miller_loop_n K [(q, p)])) \<and>
     (\<forall>q q' p. E2_in_G2 K q \<longrightarrow> E2_in_G2 K q' \<longrightarrow> E1_in_G1 K p \<longrightarrow>
        pair_value K (E2_dadd K q q') p = mul_fp12 K (pair_value K q p) (pair_value K q' p)) \<and>
     (\<forall>q p p'. E2_in_G2 K q \<longrightarrow> E1_in_G1 K p \<longrightarrow> E1_in_G1 K p' \<longrightarrow>
        pair_value K q (E1_dadd K p p') = mul_fp12 K (pair_value K q p) (pair_value K q p'))"

definition core_laws :: "'gt Core \<Rightarrow> bool" where
  "core_laws K \<longleftrightarrow> gt_laws K \<and> group1_laws K \<and> group2_laws K \<and> pairing_laws K"

lemma gt_ac:
  assumes "gt_laws K"
  shows "mul_fp12 K (mul_fp12 K a b) c = mul_fp12 K a (mul_fp12 K b c)" "mul_fp12 K a b = mul_fp12 K b a"
    "mul_fp12 K (fp12_one K) a = a" "mul_fp12 K a (fp12_one K) = a"
    "miller_lines K (x # y # ys) = mul_fp12 K (miller_lines K [x]) (miller_lines K (y # ys))"
  using assms unfolding gt_laws_def by metis+

lemma group1:
  assumes "group1_laws K"
  shows "E1_in_G1 K E1_inf" "E1_in_G1 K BLS12_381_G1" "E1_in_G1 K p \<Longrightarrow> E1_valid p"
    "E1_in_G1 K p \<Longrightarrow> E1_in_G1 K q \<Longrightarrow> E1_in_G1 K (E1_dadd K p q)"
    "E1_in_G1 K p \<Longrightarrow> E1_dadd K E1_inf p = p" "E1_in_G1 K p \<Longrightarrow> E1_dadd K p E1_inf = p"
    "E1_in_G1 K p \<Longrightarrow> E1_mult K p 0 = E1_inf"
    "E1_in_G1 K p \<Longrightarrow> E1_mult K p (Suc n) = E1_dadd K (E1_mult K p n) p"
    "E1_in_G1 K p \<Longrightarrow> n < BLS12_381_r \<Longrightarrow> E1_mult_glv K p n = E1_mult K p n"
    "E1_in_G1 K (Hash_to_G1 K m d a)" "E1_in_G1 K (Encode_to_G1 K m d a)"
    "E1_in_G1 K p \<Longrightarrow> E1_in_G1 K q \<Longrightarrow> E1_in_G1 K s \<Longrightarrow>
       E1_dadd K (E1_dadd K p q) s = E1_dadd K p (E1_dadd K q s)"
  using assms unfolding group1_laws_def by (simp_all add: Hash_to_G1_def Encode_to_G1_def Let_def)

lemma group2:
  assumes "group2_laws K"
  shows "E2_in_G2 K E2_inf" "E2_in_G2 K BLS12_381_G2" "E2_in_G2 K p \<Longrightarrow> E2_valid p"
    "E2_in_G2 K p \<Longrightarrow> E2_in_G2 K q \<Longrightarrow> E2_in_G2 K (E2_dadd K p q)"
    "E2_in_G2 K p \<Longrightarrow> E2_dadd K E2_inf p = p" "E2_in_G2 K p \<Longrightarrow> E2_dadd K p E2_inf = p"
    "E2_in_G2 K p \<Longrightarrow> E2_mult K p 0 = E2_inf"
    "E2_in_G2 K p \<Longrightarrow> E2_mult K p (Suc n) = E2_dadd K (E2_mult K p n) p"
    "E2_in_G2 K p \<Longrightarrow> n < BLS12_381_r \<Longrightarrow> E2_mult_gls K p n = E2_mult K p n"
    "E2_in_G2 K (Hash_to_G2 K m d a)" "E2_in_G2 K (Encode_to_G2 K m d a)"
    "E2_in_G2 K p \<Longrightarrow> E2_in_G2 K q \<Longrightarrow> E2_in_G2 K s \<Longrightarrow>
       E2_dadd K (E2_dadd K p q) s = E2_dadd K p (E2_dadd K q s)"
  using assms unfolding group2_laws_def by (simp_all add: Hash_to_G2_def Encode_to_G2_def Let_def)

lemma mult_in_group:
  "group1_laws K \<Longrightarrow> E1_in_G1 K p \<Longrightarrow> E1_in_G1 K (E1_mult K p n)"
  "group2_laws K \<Longrightarrow> E2_in_G2 K q \<Longrightarrow> E2_in_G2 K (E2_mult K q n)"
  by (induction n) (simp_all add: group1 group2)

text \<open>The sample parameters keep these promises.\<close>

lemma sample_miller: "miller_loop_n sample_core [(q, p)] =
    (if q = E2_inf \<or> p = E1_inf then Some False else Some (q = BLS12_381_G2 \<and> p = BLS12_381_G1))"
  by (simp add: miller_loop_n_def sample_core_def sample_line_def sample_mul_def)

lemma sample_points [simp]:
  "sample_E1 a = E1_inf \<longleftrightarrow> \<not> a" "sample_E1 a = BLS12_381_G1 \<longleftrightarrow> a"
  "sample_E2 a = E2_inf \<longleftrightarrow> \<not> a" "sample_E2 a = BLS12_381_G2 \<longleftrightarrow> a"
  "E1_inf \<noteq> BLS12_381_G1" "BLS12_381_G1 \<noteq> E1_inf" "E2_inf \<noteq> BLS12_381_G2" "BLS12_381_G2 \<noteq> E2_inf"
  using G1_valid(2) G2_valid(2) by (auto simp: sample_E1_def sample_E2_def)

lemma inf_valid: "E1_valid E1_inf" "E2_valid E2_inf"
  by (simp_all add: E1_valid_def E2_valid_def)

lemma sample_core_laws: "core_laws sample_core"
proof -
  have "gt_laws sample_core"
    by (auto simp: gt_laws_def sample_core_def sample_mul_def split: option.splits)
  moreover have "group1_laws sample_core"
    by (auto simp: group1_laws_def sample_core_def G1_valid(1) inf_valid sample_E1_def)
  moreover have "group2_laws sample_core"
    by (auto simp: group2_laws_def sample_core_def G2_valid(1) inf_valid sample_E2_def)
  moreover have "pairing_laws sample_core"
    unfolding pairing_laws_def pair_value_def sample_miller
    by (auto simp: sample_core_def sample_mul_def split: option.splits)
  ultimately show ?thesis by (simp add: core_laws_def)
qed

section \<open>Sequences of aggregation calls\<close>

definition gt_prod :: "'gt Core \<Rightarrow> 'gt list \<Rightarrow> 'gt" where
  "gt_prod K vs = foldl (mul_fp12 K) (fp12_one K) vs"

fun run_calls :: "('c \<Rightarrow> 'x \<Rightarrow> 'c \<times> BLST_ERROR) \<Rightarrow> 'c \<Rightarrow> 'x list \<Rightarrow> 'c \<times> BLST_ERROR list" where
  "run_calls step c [] = (c, [])"
| "run_calls step c (x # xs) =
     (let (c', e) = step c x; (c'', es) = run_calls step c' xs in (c'', e # es))"

text \<open>
  The interface of an accumulator: each accepted call succeeds, keeps the invariant, multiplies one
  value into the accumulator and adds one point to the sum.
\<close>

locale aggregation =
  fixes inv :: "'c \<Rightarrow> bool"
    and step :: "'c \<Rightarrow> 'x \<Rightarrow> 'c \<times> BLST_ERROR"
    and accept :: "'x \<Rightarrow> bool"
    and acc :: "'c \<Rightarrow> 'v"
    and mul :: "'v \<Rightarrow> 'v \<Rightarrow> 'v"
    and val :: "'x \<Rightarrow> 'v"
    and sum :: "'c \<Rightarrow> 's"
    and add :: "'s \<Rightarrow> 's \<Rightarrow> 's"
    and sig :: "'x \<Rightarrow> 's"
    and used :: "'c \<Rightarrow> bool"
  assumes step_inv: "inv c \<Longrightarrow> accept x \<Longrightarrow> inv (fst (step c x))"
    and step_ok: "inv c \<Longrightarrow> accept x \<Longrightarrow> snd (step c x) = BLST_SUCCESS"
    and step_acc: "inv c \<Longrightarrow> accept x \<Longrightarrow> acc (fst (step c x)) = mul (acc c) (val x)"
    and step_sum: "inv c \<Longrightarrow> accept x \<Longrightarrow> sum (fst (step c x)) = add (sum c) (sig x)"
    and step_used: "inv c \<Longrightarrow> accept x \<Longrightarrow> used (fst (step c x))"
begin

lemma run_ok:
  assumes "inv c" and "\<forall>x \<in> set xs. accept x"
  shows "inv (fst (run_calls step c xs)) \<and> snd (run_calls step c xs) = replicate (length xs) BLST_SUCCESS \<and>
    acc (fst (run_calls step c xs)) = foldl mul (acc c) (map val xs) \<and>
    sum (fst (run_calls step c xs)) = foldl add (sum c) (map sig xs) \<and>
    (xs \<noteq> [] \<or> used c \<longrightarrow> used (fst (run_calls step c xs)))"
  using assms
proof (induction xs arbitrary: c)
  case (Cons x xs)
  let ?c = "fst (step c x)"
  have x: "inv c" "accept x" using Cons.prems by auto
  have "inv ?c" "used ?c" using step_inv [OF x] step_used [OF x] .
  with Cons.IH [of ?c] Cons.prems show ?case
    using step_ok [OF x] step_acc [OF x] step_sum [OF x] by (auto simp: split_beta Let_def)
qed simp

end

section \<open>Batching does not show\<close>

text \<open>
  Whatever part of the calls has gone through a Miller loop, the accumulated value and the pairs
  still waiting stand for one product.
\<close>

definition pair_line :: "'gt Core \<Rightarrow> E2 \<times> E1 \<Rightarrow> 'gt" where
  "pair_line K qp = miller_lines K [qp]"

definition finite_pair :: "E2 \<times> E1 \<Rightarrow> bool" where
  "finite_pair qp \<longleftrightarrow> fst qp \<noteq> E2_inf \<and> snd qp \<noteq> E1_inf"

definition GT_value :: "'gt Core \<Rightarrow> 'gt PAIRING \<Rightarrow> 'gt" where
  "GT_value K ctx = (if ctrl_has ctx AGGR_GT_SET then pr_GT ctx else fp12_one K)"

definition accumulated :: "'gt Core \<Rightarrow> 'gt PAIRING \<Rightarrow> 'gt" where
  "accumulated K ctx = mul_fp12 K (GT_value K ctx) (gt_prod K (map (pair_line K) (pending ctx)))"

definition in_use :: "'gt PAIRING \<Rightarrow> bool" where
  "in_use ctx \<longleftrightarrow> ctrl_has ctx AGGR_GT_SET \<or> pr_nelems ctx \<noteq> 0"

lemma foldl_mul: "gt_laws K \<Longrightarrow> foldl (mul_fp12 K) a vs = mul_fp12 K a (gt_prod K vs)"
proof (induction vs rule: rev_induct)
  case Nil
  then show ?case by (simp add: gt_prod_def gt_ac(4))
next
  case (snoc v vs)
  then show ?case by (simp add: gt_prod_def gt_ac(1))
qed

lemma gt_prod_Cons: "gt_laws K \<Longrightarrow> gt_prod K (v # vs) = mul_fp12 K v (gt_prod K vs)"
  using foldl_mul [of K v vs] by (simp add: gt_prod_def gt_ac(3))

lemma miller_lines_prod: "gt_laws K \<Longrightarrow> ps \<noteq> [] \<Longrightarrow> miller_lines K ps = gt_prod K (map (pair_line K) ps)"
proof (induction ps)
  case (Cons x xs)
  show ?case
  proof (cases xs)
    case Nil
    then show ?thesis using Cons.prems by (simp add: gt_prod_def gt_ac(3) pair_line_def)
  next
    case (Cons y ys)
    then show ?thesis
      using Cons.prems Cons.IH gt_ac(5) [OF Cons.prems(1), of x y ys]
      by (simp add: gt_prod_Cons [OF Cons.prems(1), of "miller_lines K [x]"] pair_line_def)
  qed
qed simp

lemma miller_loop_prod:
  assumes "gt_laws K" and "ps \<noteq> []" and "\<forall>x \<in> set ps. finite_pair x"
  shows "miller_loop_n K ps = gt_prod K (map (pair_line K) ps)"
proof -
  have "finite_pair (hd ps)" using assms by simp
  then show ?thesis using miller_lines_prod [OF assms(1,2)] by (auto simp: miller_loop_n_def finite_pair_def)
qed

lemma batch_value:
  assumes "gt_laws K" and "ps = take n (zip (pr_Q ctx) (pr_P ctx))" and "ps \<noteq> []" and "\<forall>x \<in> set ps. finite_pair x"
  shows "GT_value K (miller_batch K ctx n) = mul_fp12 K (GT_value K ctx) (gt_prod K (map (pair_line K) ps))"
    and "ctrl_has (miller_batch K ctx n) AGGR_GT_SET"
proof -
  show "ctrl_has (miller_batch K ctx n) AGGR_GT_SET" by simp
  show "GT_value K (miller_batch K ctx n) = mul_fp12 K (GT_value K ctx) (gt_prod K (map (pair_line K) ps))"
    using miller_loop_prod [OF assms(1,3,4)] assms(1)
    by (simp add: GT_value_def ctrl_has_or miller_batch_def Let_def gt_ac(3) assms(2))
qed

lemma GT_value_upd [simp]: "GT_value K (ctx\<lparr>pr_nelems := n\<rparr>) = GT_value K ctx"
  "GT_value K (ctx\<lparr>pr_Q := qs\<rparr>) = GT_value K ctx" "GT_value K (ctx\<lparr>pr_P := ps\<rparr>) = GT_value K ctx"
  "GT_value K (ctx\<lparr>pr_AggrSign := s\<rparr>) = GT_value K ctx"
  by (simp_all add: GT_value_def)

lemma pending_0: "pr_nelems ctx = 0 \<Longrightarrow> pending ctx = []"
  by (simp add: pending_def)

lemma enqueue_accumulated:
  assumes "gt_laws K" and "PAIRING_shape ctx" and "\<forall>x \<in> set (pending ctx). finite_pair x" and "finite_pair (q, p)"
  shows "accumulated K (enqueue_pair K ctx q p) = mul_fp12 K (accumulated K ctx) (pair_line K (q, p))"
    and "\<forall>x \<in> set (pending (enqueue_pair K ctx q p)). finite_pair x" and "in_use (enqueue_pair K ctx q p)"
proof -
  let ?n = "pr_nelems ctx"
  let ?c = "ctx\<lparr>pr_Q := (pr_Q ctx)[?n := q], pr_P := (pr_P ctx)[?n := p]\<rparr>"
  have new: "pending ctx @ [(q, p)] = take (Suc ?n) (zip (pr_Q ?c) (pr_P ?c))"
    using pending_enqueue [OF assms(2), of q p] by simp
  have fin: "\<forall>x \<in> set (pending ctx @ [(q, p)]). finite_pair x" using assms(3,4) by simp
  note batch = batch_value [OF assms(1) new _ fin]
  have snoc: "gt_prod K (vs @ [v]) = mul_fp12 K (gt_prod K vs) v" for vs v by (simp add: gt_prod_def)
  have full: "enqueue_pair K ctx q p = (miller_batch K ?c (Suc ?n))\<lparr>pr_nelems := 0\<rparr>" if "Suc ?n = N_MAX"
    using that by (simp add: enqueue_pair_def Let_def)
  have part: "pending (enqueue_pair K ctx q p) = pending ctx @ [(q, p)]"
    "GT_value K (enqueue_pair K ctx q p) = GT_value K ctx" "pr_nelems (enqueue_pair K ctx q p) = Suc ?n"
    if "Suc ?n \<noteq> N_MAX"
    using that pending_enqueue_not_full [OF assms(2)] by (simp_all add: enqueue_pair_def Let_def)
  have empty: "pending (c\<lparr>pr_nelems := 0\<rparr>) = []" for c :: "'a PAIRING" by (simp add: pending_def)
  show "accumulated K (enqueue_pair K ctx q p) = mul_fp12 K (accumulated K ctx) (pair_line K (q, p))"
  proof (cases "Suc ?n = N_MAX")
    case True
    show ?thesis
      unfolding accumulated_def full [OF True] empty using batch(1)
      by (simp add: snoc gt_ac(1) [OF assms(1)] gt_ac(4) [OF assms(1)] gt_prod_def)
  next
    case False
    then show ?thesis by (simp add: accumulated_def part snoc gt_ac(1) [OF assms(1)])
  qed
  show "\<forall>x \<in> set (pending (enqueue_pair K ctx q p)). finite_pair x"
    using fin part full empty by (cases "Suc ?n = N_MAX") auto
  show "in_use (enqueue_pair K ctx q p)"
    using part full batch(2) by (cases "Suc ?n = N_MAX") (auto simp: in_use_def)
qed

lemma commit_value:
  assumes "gt_laws K" and "PAIRING_shape ctx" and "\<forall>x \<in> set (pending ctx). finite_pair x"
  shows "GT_value K (PAIRING_Commit K ctx) = accumulated K ctx"
    and "ctrl_has (PAIRING_Commit K ctx) AGGR_GT_SET = in_use ctx"
    and "f \<noteq> AGGR_GT_SET \<Longrightarrow> AGGR_GT_SET AND f = 0 \<Longrightarrow> ctrl_has (PAIRING_Commit K ctx) f = ctrl_has ctx f"
    and "pr_AggrSign (PAIRING_Commit K ctx) = pr_AggrSign ctx" and "pr_nelems (PAIRING_Commit K ctx) = 0"
proof -
  have len: "length (pending ctx) = pr_nelems ctx" using assms(2) by (simp add: pending_def PAIRING_shape_def)
  show "GT_value K (PAIRING_Commit K ctx) = accumulated K ctx"
  proof (cases "pr_nelems ctx = 0")
    case True
    then show ?thesis using assms(1) by (simp add: PAIRING_Commit_def accumulated_def pending_0 gt_prod_def gt_ac(4))
  next
    case False
    then have "pending ctx \<noteq> []" using len by auto
    from batch_value(1) [OF assms(1) pending_def this assms(3)] False show ?thesis
      by (simp add: PAIRING_Commit_def accumulated_def)
  qed
qed (auto simp: PAIRING_Commit_def in_use_def)

section \<open>Public keys in G1, signatures in G2\<close>

type_synonym g1_call = "P1_Affine \<times> P2_Affine \<times> bytes \<times> bytes"

definition g1_step :: "'gt Core \<Rightarrow> 'gt PAIRING \<Rightarrow> g1_call \<Rightarrow> 'gt PAIRING \<times> BLST_ERROR" where
  "g1_step K ctx x = (case x of (pk, sig, msg, aug) \<Rightarrow> Pairing_aggregate_g1 K ctx pk sig msg aug)"

definition g1_pk :: "g1_call \<Rightarrow> E1" where
  "g1_pk x = p1a_point (fst x)"

definition g1_sig :: "g1_call \<Rightarrow> E2" where
  "g1_sig x = p2a_point (fst (snd x))"

definition g1_hash :: "'gt Core \<Rightarrow> bool \<Rightarrow> bytes \<Rightarrow> g1_call \<Rightarrow> E2" where
  "g1_hash K h DST x = (case x of (_, _, msg, aug) \<Rightarrow>
     if h then Hash_to_G2 K msg DST aug else Encode_to_G2 K msg DST aug)"

definition g1_accept :: "'gt Core \<Rightarrow> bool \<Rightarrow> bytes \<Rightarrow> g1_call \<Rightarrow> bool" where
  "g1_accept K h DST x \<longleftrightarrow> g1_pk x \<noteq> E1_inf \<and> E2_in_G2 K (g1_sig x) \<and> g1_hash K h DST x \<noteq> E2_inf"

definition sum_G2 :: "'gt PAIRING \<Rightarrow> E2" where
  "sum_G2 ctx = (if ctrl_has ctx AGGR_SIGN_SET then e2 (pr_AggrSign ctx) else E2_inf)"

definition g1_inv :: "'gt Core \<Rightarrow> bool \<Rightarrow> bytes \<Rightarrow> 'gt PAIRING \<Rightarrow> bool" where
  "g1_inv K h DST ctx \<longleftrightarrow> core_laws K \<and> PAIRING_shape ctx \<and> (\<forall>x \<in> set (pending ctx). finite_pair x) \<and>
     \<not> ctrl_has ctx AGGR_MIN_SIG \<and> (ctrl_has ctx AGGR_SIGN_SET \<longrightarrow> ctrl_has ctx AGGR_MIN_PK) \<and>
     ctrl_has ctx AGGR_HASH_OR_ENCODE = h \<and> pr_DST ctx = DST \<and> E2_in_G2 K (sum_G2 ctx)"

definition g1_add_sig :: "'gt Core \<Rightarrow> 'gt PAIRING \<Rightarrow> E2 \<Rightarrow> 'gt PAIRING" where
  "g1_add_sig K ctx s =
     (let c = ctrl_or ctx AGGR_MIN_PK in
      if s = E2_inf then c
      else if ctrl_has c AGGR_SIGN_SET then
        c\<lparr>pr_AggrSign := AggrSign_e2 (E2_dadd K (e2 (pr_AggrSign c)) s)\<rparr>
      else ctrl_or (c\<lparr>pr_AggrSign := AggrSign_e2 s\<rparr>) AGGR_SIGN_SET)"

lemma g1_add_sig_sel [simp]:
  "pr_nelems (g1_add_sig K ctx s) = pr_nelems ctx" "pr_GT (g1_add_sig K ctx s) = pr_GT ctx"
  "pr_Q (g1_add_sig K ctx s) = pr_Q ctx" "pr_P (g1_add_sig K ctx s) = pr_P ctx"
  "pr_DST (g1_add_sig K ctx s) = pr_DST ctx" "ctrl_has (g1_add_sig K ctx s) AGGR_MIN_PK"
  "ctrl_has (g1_add_sig K ctx s) AGGR_MIN_SIG = ctrl_has ctx AGGR_MIN_SIG"
  "ctrl_has (g1_add_sig K ctx s) AGGR_GT_SET = ctrl_has ctx AGGR_GT_SET"
  "ctrl_has (g1_add_sig K ctx s) AGGR_HASH_OR_ENCODE = ctrl_has ctx AGGR_HASH_OR_ENCODE"
  "ctrl_has (g1_add_sig K ctx s) AGGR_SIGN_SET = (ctrl_has ctx AGGR_SIGN_SET \<or> s \<noteq> E2_inf)"
  by (simp_all add: g1_add_sig_def Let_def ctrl_has_or)

lemma sum_G2_enqueue: "sum_G2 (enqueue_pair K ctx q p) = sum_G2 ctx"
  by (simp add: sum_G2_def)

lemma g1_add_sig_sum:
  "group2_laws K \<Longrightarrow> E2_in_G2 K (sum_G2 ctx) \<Longrightarrow> E2_in_G2 K s \<Longrightarrow>
     sum_G2 (g1_add_sig K ctx s) = E2_dadd K (sum_G2 ctx) s"
  by (auto simp: sum_G2_def g1_add_sig_def Let_def ctrl_has_or group2)

lemma g1_step_eq:
  assumes "\<not> ctrl_has ctx AGGR_MIN_SIG" and "g1_accept K h DST x"
    and "ctrl_has ctx AGGR_HASH_OR_ENCODE = h" and "pr_DST ctx = DST"
  shows "g1_step K ctx x =
    (enqueue_pair K (g1_add_sig K ctx (g1_sig x)) (g1_hash K h DST x) (g1_pk x), BLST_SUCCESS)"
  using assms
  by (cases x) (simp add: g1_step_def Pairing_aggregate_g1_def PAIRING_Aggregate_PK_in_G1_def g1_add_sig_def
      g1_accept_def g1_pk_def g1_sig_def g1_hash_def Let_def multiplier_def times_E1_def times_E2_def ctrl_has_or)

lemma g1_keeps:
  assumes "g1_inv K h DST ctx" and "g1_accept K h DST x"
  shows "g1_inv K h DST (fst (g1_step K ctx x))" and "snd (g1_step K ctx x) = BLST_SUCCESS"
    and "accumulated K (fst (g1_step K ctx x)) =
      mul_fp12 K (accumulated K ctx) (miller_loop_n K [(g1_hash K h DST x, g1_pk x)])"
    and "sum_G2 (fst (g1_step K ctx x)) = E2_dadd K (sum_G2 ctx) (g1_sig x)"
    and "in_use (fst (g1_step K ctx x))"
proof -
  let ?c = "g1_add_sig K ctx (g1_sig x)" and ?p = "(g1_hash K h DST x, g1_pk x)"
  note i = assms(1) [unfolded g1_inv_def core_laws_def]
  have a: "finite_pair ?p" "E2_in_G2 K (g1_sig x)" using assms(2) by (auto simp: g1_accept_def finite_pair_def)
  have eq: "g1_step K ctx x = (enqueue_pair K ?c (fst ?p) (snd ?p), BLST_SUCCESS)"
    using g1_step_eq [OF _ assms(2)] i by simp
  have same: "pending ?c = pending ctx" "GT_value K ?c = GT_value K ctx" "PAIRING_shape ?c"
    using i by (simp_all add: pending_def GT_value_def PAIRING_shape_def)
  have fin: "\<forall>x \<in> set (pending ?c). finite_pair x" and law: "gt_laws K" using i same(1) by simp_all
  have "finite_pair (fst ?p, snd ?p)" using a(1) by simp
  note enq = enqueue_accumulated [OF law same(3) fin this]
  have acc: "accumulated K ?c = accumulated K ctx" by (simp add: accumulated_def same(1,2))
  have line: "pair_line K ?p = miller_loop_n K [?p]"
    using a(1) by (simp add: pair_line_def miller_loop_n_def finite_pair_def)
  show "snd (g1_step K ctx x) = BLST_SUCCESS" "in_use (fst (g1_step K ctx x))" using eq enq(3) by simp_all
  show "accumulated K (fst (g1_step K ctx x)) =
      mul_fp12 K (accumulated K ctx) (miller_loop_n K [(g1_hash K h DST x, g1_pk x)])"
    using enq(1) unfolding eq acc by (simp add: line)
  show sum: "sum_G2 (fst (g1_step K ctx x)) = E2_dadd K (sum_G2 ctx) (g1_sig x)"
    using g1_add_sig_sum [of K ctx "g1_sig x"] i a(2) eq by (simp add: sum_G2_enqueue)
  show "g1_inv K h DST (fst (g1_step K ctx x))"
    unfolding g1_inv_def sum using eq enq(2) enqueue_shape [OF same(3)] i a(2)
    by (simp add: core_laws_def group2)
qed

interpretation g1: aggregation "g1_inv K h DST" "g1_step K" "g1_accept K h DST" "accumulated K" "mul_fp12 K"
  "\<lambda>x. miller_loop_n K [(g1_hash K h DST x, g1_pk x)]" sum_G2 "E2_dadd K" g1_sig in_use
  for K h DST
  by unfold_locales (fact g1_keeps)+

section \<open>Public keys in G2, signatures in G1\<close>

type_synonym g2_call = "P2_Affine \<times> P1_Affine \<times> bytes \<times> bytes"

definition g2_step :: "'gt Core \<Rightarrow> 'gt PAIRING \<Rightarrow> g2_call \<Rightarrow> 'gt PAIRING \<times> BLST_ERROR" where
  "g2_step K ctx x = (case x of (pk, sig, msg, aug) \<Rightarrow> Pairing_aggregate_g2 K ctx pk sig msg aug)"

definition g2_pk :: "g2_call \<Rightarrow> E2" where
  "g2_pk x = p2a_point (fst x)"

definition g2_sig :: "g2_call \<Rightarrow> E1" where
  "g2_sig x = p1a_point (fst (snd x))"

definition g2_hash :: "'gt Core \<Rightarrow> bool \<Rightarrow> bytes \<Rightarrow> g2_call \<Rightarrow> E1" where
  "g2_hash K h DST x = (case x of (_, _, msg, aug) \<Rightarrow>
     if h then Hash_to_G1 K msg DST aug else Encode_to_G1 K msg DST aug)"

definition g2_accept :: "'gt Core \<Rightarrow> bool \<Rightarrow> bytes \<Rightarrow> g2_call \<Rightarrow> bool" where
  "g2_accept K h DST x \<longleftrightarrow> g2_pk x \<noteq> E2_inf \<and> E1_in_G1 K (g2_sig x) \<and> g2_hash K h DST x \<noteq> E1_inf"

definition sum_G1 :: "'gt PAIRING \<Rightarrow> E1" where
  "sum_G1 ctx = (if ctrl_has ctx AGGR_SIGN_SET then e1 (pr_AggrSign ctx) else E1_inf)"

definition g2_inv :: "'gt Core \<Rightarrow> bool \<Rightarrow> bytes \<Rightarrow> 'gt PAIRING \<Rightarrow> bool" where
  "g2_inv K h DST ctx \<longleftrightarrow> core_laws K \<and> PAIRING_shape ctx \<and> (\<forall>x \<in> set (pending ctx). finite_pair x) \<and>
     \<not> ctrl_has ctx AGGR_MIN_PK \<and> (ctrl_has ctx AGGR_SIGN_SET \<longrightarrow> ctrl_has ctx AGGR_MIN_SIG) \<and>
     ctrl_has ctx AGGR_HASH_OR_ENCODE = h \<and> pr_DST ctx = DST \<and> E1_in_G1 K (sum_G1 ctx)"

definition g2_add_sig :: "'gt Core \<Rightarrow> 'gt PAIRING \<Rightarrow> E1 \<Rightarrow> 'gt PAIRING" where
  "g2_add_sig K ctx s =
     (let c = ctrl_or ctx AGGR_MIN_SIG in
      if s = E1_inf then c
      else if ctrl_has c AGGR_SIGN_SET then
        c\<lparr>pr_AggrSign := AggrSign_e1 (E1_dadd K (e1 (pr_AggrSign c)) s)\<rparr>
      else ctrl_or (c\<lparr>pr_AggrSign := AggrSign_e1 s\<rparr>) AGGR_SIGN_SET)"

lemma g2_add_sig_sel [simp]:
  "pr_nelems (g2_add_sig K ctx s) = pr_nelems ctx" "pr_GT (g2_add_sig K ctx s) = pr_GT ctx"
  "pr_Q (g2_add_sig K ctx s) = pr_Q ctx" "pr_P (g2_add_sig K ctx s) = pr_P ctx"
  "pr_DST (g2_add_sig K ctx s) = pr_DST ctx" "ctrl_has (g2_add_sig K ctx s) AGGR_MIN_SIG"
  "ctrl_has (g2_add_sig K ctx s) AGGR_MIN_PK = ctrl_has ctx AGGR_MIN_PK"
  "ctrl_has (g2_add_sig K ctx s) AGGR_GT_SET = ctrl_has ctx AGGR_GT_SET"
  "ctrl_has (g2_add_sig K ctx s) AGGR_HASH_OR_ENCODE = ctrl_has ctx AGGR_HASH_OR_ENCODE"
  "ctrl_has (g2_add_sig K ctx s) AGGR_SIGN_SET = (ctrl_has ctx AGGR_SIGN_SET \<or> s \<noteq> E1_inf)"
  by (simp_all add: g2_add_sig_def Let_def ctrl_has_or)

lemma sum_G1_enqueue: "sum_G1 (enqueue_pair K ctx q p) = sum_G1 ctx"
  by (simp add: sum_G1_def)

lemma g2_add_sig_sum:
  "group1_laws K \<Longrightarrow> E1_in_G1 K (sum_G1 ctx) \<Longrightarrow> E1_in_G1 K s \<Longrightarrow>
     sum_G1 (g2_add_sig K ctx s) = E1_dadd K (sum_G1 ctx) s"
  by (auto simp: sum_G1_def g2_add_sig_def Let_def ctrl_has_or group1)

lemma g2_step_eq:
  assumes "\<not> ctrl_has ctx AGGR_MIN_PK" and "g2_accept K h DST x"
    and "ctrl_has ctx AGGR_HASH_OR_ENCODE = h" and "pr_DST ctx = DST"
  shows "g2_step K ctx x =
    (enqueue_pair K (g2_add_sig K ctx (g2_sig x)) (g2_pk x) (g2_hash K h DST x), BLST_SUCCESS)"
  using assms
  by (cases x) (simp add: g2_step_def Pairing_aggregate_g2_def PAIRING_Aggregate_PK_in_G2_def g2_add_sig_def
      g2_accept_def g2_pk_def g2_sig_def g2_hash_def Let_def multiplier_def times_E2_def times_E1_def ctrl_has_or)

lemma g2_keeps:
  assumes "g2_inv K h DST ctx" and "g2_accept K h DST x"
  shows "g2_inv K h DST (fst (g2_step K ctx x))" and "snd (g2_step K ctx x) = BLST_SUCCESS"
    and "accumulated K (fst (g2_step K ctx x)) =
      mul_fp12 K (accumulated K ctx) (miller_loop_n K [(g2_pk x, g2_hash K h DST x)])"
    and "sum_G1 (fst (g2_step K ctx x)) = E1_dadd K (sum_G1 ctx) (g2_sig x)"
    and "in_use (fst (g2_step K ctx x))"
proof -
  let ?c = "g2_add_sig K ctx (g2_sig x)" and ?p = "(g2_pk x, g2_hash K h DST x)"
  note i = assms(1) [unfolded g2_inv_def core_laws_def]
  have a: "finite_pair ?p" "E1_in_G1 K (g2_sig x)" using assms(2) by (auto simp: g2_accept_def finite_pair_def)
  have eq: "g2_step K ctx x = (enqueue_pair K ?c (fst ?p) (snd ?p), BLST_SUCCESS)"
    using g2_step_eq [OF _ assms(2)] i by simp
  have same: "pending ?c = pending ctx" "GT_value K ?c = GT_value K ctx" "PAIRING_shape ?c"
    using i by (simp_all add: pending_def GT_value_def PAIRING_shape_def)
  have fin: "\<forall>x \<in> set (pending ?c). finite_pair x" and law: "gt_laws K" using i same(1) by simp_all
  have "finite_pair (fst ?p, snd ?p)" using a(1) by simp
  note enq = enqueue_accumulated [OF law same(3) fin this]
  have acc: "accumulated K ?c = accumulated K ctx" by (simp add: accumulated_def same(1,2))
  have line: "pair_line K ?p = miller_loop_n K [?p]"
    using a(1) by (simp add: pair_line_def miller_loop_n_def finite_pair_def)
  show "snd (g2_step K ctx x) = BLST_SUCCESS" "in_use (fst (g2_step K ctx x))" using eq enq(3) by simp_all
  show "accumulated K (fst (g2_step K ctx x)) =
      mul_fp12 K (accumulated K ctx) (miller_loop_n K [(g2_pk x, g2_hash K h DST x)])"
    using enq(1) unfolding eq acc by (simp add: line)
  show sum: "sum_G1 (fst (g2_step K ctx x)) = E1_dadd K (sum_G1 ctx) (g2_sig x)"
    using g2_add_sig_sum [of K ctx "g2_sig x"] i a(2) eq by (simp add: sum_G1_enqueue)
  show "g2_inv K h DST (fst (g2_step K ctx x))"
    unfolding g2_inv_def sum using eq enq(2) enqueue_shape [OF same(3)] i a(2)
    by (simp add: core_laws_def group1)
qed

interpretation g2: aggregation "g2_inv K h DST" "g2_step K" "g2_accept K h DST" "accumulated K" "mul_fp12 K"
  "\<lambda>x. miller_loop_n K [(g2_pk x, g2_hash K h DST x)]" sum_G1 "E1_dadd K" g2_sig in_use
  for K h DST
  by unfold_locales (fact g2_keeps)+

section \<open>What finalverify decides\<close>

lemma pairing_rules:
  assumes "pairing_laws K"
  shows "final_exp K (fp12_one K) = fp12_one K"
    and "final_exp K (mul_fp12 K a b) = mul_fp12 K (final_exp K a) (final_exp K b)"
    and "\<not> fp12_is_zero K a \<Longrightarrow> mul_fp12 K (final_exp K (conjugate_fp12 K a)) (final_exp K a) = fp12_one K"
    and "E2_in_G2 K q \<Longrightarrow> E1_in_G1 K p \<Longrightarrow> \<not> fp12_is_zero K (miller_loop_n K [(q, p)])"
    and "E2_in_G2 K q \<Longrightarrow> E2_in_G2 K q' \<Longrightarrow> E1_in_G1 K p \<Longrightarrow>
      pair_value K (E2_dadd K q q') p = mul_fp12 K (pair_value K q p) (pair_value K q' p)"
    and "E2_in_G2 K q \<Longrightarrow> E1_in_G1 K p \<Longrightarrow> E1_in_G1 K p' \<Longrightarrow>
      pair_value K q (E1_dadd K p p') = mul_fp12 K (pair_value K q p) (pair_value K q p')"
  using assms unfolding pairing_laws_def by blast+

lemma pair_value_inf:
  "pairing_laws K \<Longrightarrow> pair_value K E2_inf p = fp12_one K" "pairing_laws K \<Longrightarrow> pair_value K q E1_inf = fp12_one K"
  by (simp_all add: pair_value_def miller_loop_n_def pairing_rules)

lemma final_check:
  assumes "gt_laws K" and "pairing_laws K" and "\<not> fp12_is_zero K v"
  shows "final_exp K (mul_fp12 K (conjugate_fp12 K v) g) = fp12_one K \<longleftrightarrow> final_exp K g = final_exp K v"
proof -
  let ?m = "mul_fp12 K" and ?f = "final_exp K" and ?c = "final_exp K (conjugate_fp12 K v)"
  have inv: "?m ?c (?f v) = fp12_one K" by (rule pairing_rules(3) [OF assms(2,3)])
  have "?f g = ?f v" if "?m ?c (?f g) = fp12_one K"
  proof -
    have "?f g = ?m (?m ?c (?f v)) (?f g)" unfolding inv gt_ac(3) [OF assms(1)] ..
    also have "\<dots> = ?m (?f v) (?m ?c (?f g))"
      using gt_ac(1) [OF assms(1), of "?f v" ?c "?f g"] gt_ac(2) [OF assms(1), of ?c "?f v"] by simp
    also have "\<dots> = ?f v" unfolding that by (rule gt_ac(4) [OF assms(1)])
    finally show ?thesis .
  qed
  then show ?thesis unfolding pairing_rules(2) [OF assms(2)] using inv by auto
qed

lemma verify_g1:
  assumes "g1_inv K h DST ctx" and "in_use ctx"
  shows "Pairing_finalverify K (Pairing_commit K ctx) None \<longleftrightarrow>
    final_exp K (accumulated K ctx) = pair_value K (sum_G2 ctx) BLS12_381_G1"
proof -
  note i = assms(1) [unfolded g1_inv_def core_laws_def]
  let ?c = "PAIRING_Commit K ctx" and ?v = "miller_loop_n K [(sum_G2 ctx, BLS12_381_G1)]"
  have laws: "gt_laws K" "PAIRING_shape ctx" "\<forall>x \<in> set (pending ctx). finite_pair x" using i by simp_all
  note commit = commit_value [OF laws]
  have gt: "ctrl_has ?c AGGR_GT_SET" "pr_GT ?c = accumulated K ctx"
    using commit(1,2) assms(2) by (simp_all add: GT_value_def)
  have flags: "ctrl_has ?c AGGR_SIGN_SET = ctrl_has ctx AGGR_SIGN_SET" "ctrl_has ?c AGGR_MIN_PK = ctrl_has ctx AGGR_MIN_PK"
    "ctrl_has ?c AGGR_MIN_SIG = ctrl_has ctx AGGR_MIN_SIG"
    by (simp_all add: PAIRING_Commit_def)
  have pl: "pairing_laws K" using i by simp
  have "\<not> fp12_is_zero K ?v" using i by (intro pairing_rules(4)) (simp_all add: group1)
  note check = final_check [OF laws(1) pl this]
  have "Pairing_finalverify K ?c None \<longleftrightarrow>
      final_exp K (mul_fp12 K (conjugate_fp12 K ?v) (accumulated K ctx)) = fp12_one K"
  proof (cases "ctrl_has ctx AGGR_SIGN_SET")
    case True
    then show ?thesis
      using i gt flags commit(4)
      by (simp add: Pairing_finalverify_def PAIRING_FinalVerify_def Let_def kind_bits sum_G2_def)
  next
    case False
    then show ?thesis
      using gt flags by (simp add: Pairing_finalverify_def PAIRING_FinalVerify_def Let_def sum_G2_def miller_loop_n_def)
  qed
  then show ?thesis unfolding check Pairing_commit_def pair_value_def .
qed

lemma verify_g2:
  assumes "g2_inv K h DST ctx" and "in_use ctx"
  shows "Pairing_finalverify K (Pairing_commit K ctx) None \<longleftrightarrow>
    final_exp K (accumulated K ctx) = pair_value K BLS12_381_G2 (sum_G1 ctx)"
proof -
  note i = assms(1) [unfolded g2_inv_def core_laws_def]
  let ?c = "PAIRING_Commit K ctx" and ?v = "miller_loop_n K [(BLS12_381_G2, sum_G1 ctx)]"
  have laws: "gt_laws K" "PAIRING_shape ctx" "\<forall>x \<in> set (pending ctx). finite_pair x" using i by simp_all
  note commit = commit_value [OF laws]
  have gt: "ctrl_has ?c AGGR_GT_SET" "pr_GT ?c = accumulated K ctx"
    using commit(1,2) assms(2) by (simp_all add: GT_value_def)
  have flags: "ctrl_has ?c AGGR_SIGN_SET = ctrl_has ctx AGGR_SIGN_SET" "ctrl_has ?c AGGR_MIN_PK = ctrl_has ctx AGGR_MIN_PK"
    "ctrl_has ?c AGGR_MIN_SIG = ctrl_has ctx AGGR_MIN_SIG"
    by (simp_all add: PAIRING_Commit_def)
  have pl: "pairing_laws K" using i by simp
  have "\<not> fp12_is_zero K ?v" using i by (intro pairing_rules(4)) (simp_all add: group2)
  note check = final_check [OF laws(1) pl this]
  have "Pairing_finalverify K ?c None \<longleftrightarrow>
      final_exp K (mul_fp12 K (conjugate_fp12 K ?v) (accumulated K ctx)) = fp12_one K"
  proof (cases "ctrl_has ctx AGGR_SIGN_SET")
    case True
    then show ?thesis
      using i gt flags commit(4)
      by (simp add: Pairing_finalverify_def PAIRING_FinalVerify_def Let_def kind_bits sum_G1_def)
  next
    case False
    then show ?thesis
      using gt flags by (simp add: Pairing_finalverify_def PAIRING_FinalVerify_def Let_def sum_G1_def miller_loop_n_def)
  qed
  then show ?thesis unfolding check Pairing_commit_def pair_value_def .
qed

lemma final_exp_prod:
  assumes "pairing_laws K"
  shows "final_exp K (gt_prod K vs) = gt_prod K (map (final_exp K) vs)"
  by (induction vs rule: rev_induct) (simp_all add: gt_prod_def pairing_rules [OF assms])

text \<open>A context of eight slots, whatever else the memory held.\<close>

definition fresh_memory :: "'gt PAIRING \<Rightarrow> bool" where
  "fresh_memory mem \<longleftrightarrow> length (pr_Q mem) = N_MAX \<and> length (pr_P mem) = N_MAX"

lemma fresh:
  assumes "core_laws K" and "fresh_memory mem"
  shows "g1_inv K h DST (Pairing_new mem h DST)" "g2_inv K h DST (Pairing_new mem h DST)"
    "accumulated K (Pairing_new mem h DST) = fp12_one K"
    "sum_G2 (Pairing_new mem h DST) = E2_inf" "sum_G1 (Pairing_new mem h DST) = E1_inf"
  using assms
  by (simp_all add: g1_inv_def g2_inv_def Pairing_new_def PAIRING_shape_def fresh_memory_def N_MAX_def pending_0
      sum_G2_def sum_G1_def core_laws_def group1 group2 accumulated_def GT_value_def gt_prod_def gt_ac)

definition E1_sum :: "'gt Core \<Rightarrow> E1 list \<Rightarrow> E1" where
  "E1_sum K ps = foldl (E1_dadd K) E1_inf ps"

definition E2_sum :: "'gt Core \<Rightarrow> E2 list \<Rightarrow> E2" where
  "E2_sum K qs = foldl (E2_dadd K) E2_inf qs"

lemma run_g1:
  assumes "core_laws K" and "fresh_memory mem" and "\<forall>x \<in> set xs. g1_accept K h DST x"
  defines "r \<equiv> run_calls (g1_step K) (Pairing_new mem h DST) xs"
  shows "g1_inv K h DST (fst r)" and "snd r = replicate (length xs) BLST_SUCCESS"
    and "accumulated K (fst r) = gt_prod K (map (\<lambda>x. miller_loop_n K [(g1_hash K h DST x, g1_pk x)]) xs)"
    and "sum_G2 (fst r) = E2_sum K (map g1_sig xs)" and "xs \<noteq> [] \<Longrightarrow> in_use (fst r)"
  using g1.run_ok [OF fresh(1) [OF assms(1,2)] assms(3)] fresh [OF assms(1,2), of h DST]
  by (simp_all add: r_def gt_prod_def E2_sum_def)

lemma run_g2:
  assumes "core_laws K" and "fresh_memory mem" and "\<forall>x \<in> set xs. g2_accept K h DST x"
  defines "r \<equiv> run_calls (g2_step K) (Pairing_new mem h DST) xs"
  shows "g2_inv K h DST (fst r)" and "snd r = replicate (length xs) BLST_SUCCESS"
    and "accumulated K (fst r) = gt_prod K (map (\<lambda>x. miller_loop_n K [(g2_pk x, g2_hash K h DST x)]) xs)"
    and "sum_G1 (fst r) = E1_sum K (map g2_sig xs)" and "xs \<noteq> [] \<Longrightarrow> in_use (fst r)"
  using g2.run_ok [OF fresh(2) [OF assms(1,2)] assms(3)] fresh [OF assms(1,2), of h DST]
  by (simp_all add: r_def gt_prod_def E1_sum_def)

lemma run_verify_g1:
  assumes "core_laws K" and "fresh_memory mem" and "xs \<noteq> []" and "\<forall>x \<in> set xs. g1_accept K h DST x"
  shows "Pairing_finalverify K (Pairing_commit K (fst (run_calls (g1_step K) (Pairing_new mem h DST) xs))) None \<longleftrightarrow>
    gt_prod K (map (\<lambda>x. pair_value K (g1_hash K h DST x) (g1_pk x)) xs) =
    pair_value K (E2_sum K (map g1_sig xs)) BLS12_381_G1"
proof -
  note r = run_g1 [OF assms(1,2,4)]
  have pl: "pairing_laws K" using assms(1) by (simp add: core_laws_def)
  show ?thesis
    unfolding verify_g1 [OF r(1) r(5) [OF assms(3)]] r(3,4) final_exp_prod [OF pl]
    by (simp add: pair_value_def comp_def)
qed

text \<open>
  C5. The verification context decides the pairing equation. After any number of accepted calls of
  \<^verbatim>\<open>aggregate\<close> with keys in G1 and signatures in G2, \<^verbatim>\<open>commit\<close> and
  \<^verbatim>\<open>finalverify\<close> answer whether the product of the pairings of the hashed messages with the keys is
  the pairing of the sum of the signatures with the generator. How the calls fell into batches of
  eight, and what the memory of the context held before, does not show.
\<close>

theorem pairing_decides_pk_in_g1:
  assumes "core_laws K" and "fresh_memory mem" and "xs \<noteq> []" and "\<forall>x \<in> set xs. g1_accept K h DST x"
  shows "case run_calls (g1_step K) (Pairing_new mem h DST) xs of (ctx, errs) \<Rightarrow>
    errs = replicate (length xs) BLST_SUCCESS \<and>
    (Pairing_finalverify K (Pairing_commit K ctx) None \<longleftrightarrow>
       gt_prod K (map (\<lambda>x. pair_value K (g1_hash K h DST x) (g1_pk x)) xs) =
       pair_value K (E2_sum K (map g1_sig xs)) BLS12_381_G1)"
  using run_verify_g1 [OF assms] run_g1(2) [OF assms(1,2,4)] by (simp add: split_beta)

definition sample_memory :: "bool option PAIRING" where
  "sample_memory = \<lparr>pr_ctrl = 0xffffffff, pr_nelems = 77, pr_DST = [1], pr_GT = None,
     pr_AggrSign = AggrSign_e1 E1_inf, pr_Q = replicate 8 E2_inf, pr_P = replicate 8 E1_inf\<rparr>"

lemma sample_memory_fresh: "fresh_memory sample_memory"
  by (simp add: fresh_memory_def sample_memory_def N_MAX_def)

definition sample_g1_call :: g1_call where
  "sample_g1_call = (P1_Affine BLS12_381_G1, P2_Affine BLS12_381_G2, [7], [])"

lemma sample_g1_accept: "g1_accept sample_core h DST sample_g1_call"
  by (simp add: g1_accept_def sample_g1_call_def g1_pk_def g1_sig_def g1_hash_def) (simp add: sample_core_def)

lemma sample_values:
  "pair_value sample_core BLS12_381_G2 BLS12_381_G1 = Some True" "pair_value sample_core E2_inf p = Some False"
  by (simp_all add: pair_value_def sample_miller) (simp_all add: sample_core_def)

theorem pairing_decides_pk_in_g1_witness:
  "Pairing_finalverify sample_core
     (Pairing_commit sample_core (fst (run_calls (g1_step sample_core) (Pairing_new sample_memory True [])
       (replicate 9 sample_g1_call)))) None"
proof -
  let ?xs = "replicate 9 sample_g1_call"
  have v: "E2_sum sample_core (map g1_sig ?xs) = BLS12_381_G2"
    by (simp add: E2_sum_def sample_core_def g1_sig_def sample_g1_call_def numeral_eq_Suc)
  have w: "gt_prod sample_core (map (\<lambda>x. pair_value sample_core (g1_hash sample_core True [] x) (g1_pk x)) ?xs) = Some True"
  proof -
    have "pair_value sample_core (g1_hash sample_core True [] sample_g1_call) (g1_pk sample_g1_call) = Some True"
      using sample_values(1) by (simp add: g1_hash_def g1_pk_def sample_g1_call_def)
    then show ?thesis by (simp add: gt_prod_def numeral_eq_Suc) (simp add: sample_core_def sample_mul_def)
  qed
  from pairing_decides_pk_in_g1 [OF sample_core_laws sample_memory_fresh, of ?xs True "[]"]
  show ?thesis using sample_g1_accept v w sample_values(1) by (simp add: split_beta)
qed

section \<open>Honest signatures verify\<close>

lemma pair_value_mult:
  assumes "core_laws K" and "E2_in_G2 K q" and "E1_in_G1 K p"
  shows "pair_value K (E2_mult K q n) p = pair_value K q (E1_mult K p n)"
proof -
  have laws: "group1_laws K" "group2_laws K" "pairing_laws K" using assms(1) by (simp_all add: core_laws_def)
  show ?thesis
    by (induction n) (simp_all add: assms(2,3) group1 [OF laws(1)] group2 [OF laws(2)] pair_value_inf [OF laws(3)]
        pairing_rules(5,6) [OF laws(3)] mult_in_group laws)
qed

lemma pair_value_sum:
  assumes "core_laws K" and "E1_in_G1 K p" and "\<forall>q \<in> set qs. E2_in_G2 K q"
  shows "pair_value K (E2_sum K qs) p = gt_prod K (map (\<lambda>q. pair_value K q p) qs) \<and> E2_in_G2 K (E2_sum K qs)"
proof -
  have laws: "group2_laws K" "pairing_laws K" using assms(1) by (simp_all add: core_laws_def)
  show ?thesis
    using assms(3)
    by (induction qs rule: rev_induct)
      (simp_all add: E2_sum_def gt_prod_def pair_value_inf [OF laws(2)] group2 [OF laws(1)] pairing_rules(5) [OF laws(2)] assms(2))
qed

text \<open>
  A signer: a secret key, the message and the augmentation. The call the signer's values lead to, as
  the classes compute them: the public key, and the hashed message signed with the key.
\<close>

type_synonym signer = "SecretKey \<times> bytes \<times> bytes"

definition signer_call :: "'gt Core \<Rightarrow> bytes \<Rightarrow> signer \<Rightarrow> g1_call" where
  "signer_call K DST s = (case s of (sk, msg, aug) \<Rightarrow>
     (P1_to_affine (P1_of_sk K sk), P2_to_affine (P2_sign_with K (P2_hash_to K P2_new msg DST aug) sk), msg, aug))"

definition good_signer :: "'gt Core \<Rightarrow> bytes \<Rightarrow> signer \<Rightarrow> bool" where
  "good_signer K DST s = (case s of (sk, msg, aug) \<Rightarrow>
     sk_key sk < BLS12_381_r \<and> E1_mult K BLS12_381_G1 (sk_key sk) \<noteq> E1_inf \<and> Hash_to_G2 K msg DST aug \<noteq> E2_inf)"

lemma signer_call_parts:
  assumes "core_laws K" and "good_signer K DST s"
  defines "n \<equiv> sk_key (fst s)" and "H \<equiv> Hash_to_G2 K (fst (snd s)) DST (snd (snd s))"
  shows "g1_pk (signer_call K DST s) = E1_mult K BLS12_381_G1 n" "g1_sig (signer_call K DST s) = E2_mult K H n"
    "g1_hash K True DST (signer_call K DST s) = H" "g1_accept K True DST (signer_call K DST s)"
    "E2_in_G2 K (E2_mult K H n)" "pair_value K H (E1_mult K BLS12_381_G1 n) = pair_value K (E2_mult K H n) BLS12_381_G1"
proof -
  have laws: "group1_laws K" "group2_laws K" using assms(1) by (simp_all add: core_laws_def)
  have n: "n < BLS12_381_r" "E1_mult K BLS12_381_G1 n \<noteq> E1_inf" "H \<noteq> E2_inf"
    using assms(2) by (auto simp: good_signer_def n_def H_def)
  have H: "E2_in_G2 K H" unfolding H_def by (rule group2(10) [OF laws(2)])
  have "E1_mult_glv K BLS12_381_G1 n = E1_mult K BLS12_381_G1 n" "E2_mult_gls K H n = E2_mult K H n"
    using group1(9) [OF laws(1) group1(2) [OF laws(1)] n(1)] group2(9) [OF laws(2) H n(1)] by simp_all
  then show parts: "g1_pk (signer_call K DST s) = E1_mult K BLS12_381_G1 n"
    "g1_sig (signer_call K DST s) = E2_mult K H n" "g1_hash K True DST (signer_call K DST s) = H"
    by (simp_all add: signer_call_def g1_pk_def g1_sig_def g1_hash_def P1_to_affine_def P1_Affine_of_jacobian_def
        P1_of_sk_def P2_to_affine_def P2_Affine_of_jacobian_def P2_sign_with_def P2_hash_to_def n_def H_def split_beta)
  show sig: "E2_in_G2 K (E2_mult K H n)" by (rule mult_in_group(2) [OF laws(2) H])
  show "g1_accept K True DST (signer_call K DST s)" using parts n sig by (simp add: g1_accept_def)
  show "pair_value K H (E1_mult K BLS12_381_G1 n) = pair_value K (E2_mult K H n) BLS12_381_G1"
    using pair_value_mult [OF assms(1) H group1(2) [OF laws(1)]] by simp
qed

text \<open>
  C6. Honest signatures verify: any number of signers, each signing a message of its own with a key
  of its own, give calls that all succeed and a context whose \<^verbatim>\<open>finalverify\<close> accepts.
\<close>

theorem honest_signers_verify:
  assumes "core_laws K" and "fresh_memory mem" and "ss \<noteq> []" and "\<forall>s \<in> set ss. good_signer K DST s"
  shows "case run_calls (g1_step K) (Pairing_new mem True DST) (map (signer_call K DST) ss) of (ctx, errs) \<Rightarrow>
    errs = replicate (length ss) BLST_SUCCESS \<and> Pairing_finalverify K (Pairing_commit K ctx) None"
proof -
  let ?xs = "map (signer_call K DST) ss"
  let ?sig = "\<lambda>s. g1_sig (signer_call K DST s)"
  note parts = signer_call_parts [OF assms(1)]
  have acc: "\<forall>x \<in> set ?xs. g1_accept K True DST x" and ne: "?xs \<noteq> []" using parts(4) assms(3,4) by auto
  have G1: "E1_in_G1 K BLS12_381_G1" using assms(1) by (simp add: core_laws_def group1)
  have "\<forall>q \<in> set (map g1_sig ?xs). E2_in_G2 K q" using parts(2,5) assms(4) by auto
  note sum = pair_value_sum [OF assms(1) G1 this]
  have "map (\<lambda>x. pair_value K (g1_hash K True DST x) (g1_pk x)) ?xs = map (\<lambda>q. pair_value K q BLS12_381_G1) (map g1_sig ?xs)"
    using parts assms(4) by simp
  then have "gt_prod K (map (\<lambda>x. pair_value K (g1_hash K True DST x) (g1_pk x)) ?xs) =
      pair_value K (E2_sum K (map g1_sig ?xs)) BLS12_381_G1" using sum by (simp only:)
  then show ?thesis
    using run_verify_g1 [OF assms(1,2) ne acc] run_g1(2) [OF assms(1,2) acc] by (simp add: split_beta)
qed

theorem honest_signers_verify_witness:
  "Pairing_finalverify sample_core (Pairing_commit sample_core (fst (run_calls (g1_step sample_core)
     (Pairing_new sample_memory True [2]) (map (signer_call sample_core [2])
       [(SecretKey 1, [5], []), (SecretKey 3, [6], [1]), (SecretKey 5, [7], [])])))) None"
proof -
  have "\<forall>s \<in> set [(SecretKey 1, [5], []), (SecretKey 3, [6], [1]), (SecretKey 5, [7], [])]. good_signer sample_core [2] s"
    by (simp add: good_signer_def) (simp add: sample_core_def BLS12_381_r_def)
  from honest_signers_verify [OF sample_core_laws sample_memory_fresh _ this] show ?thesis
    by (simp add: split_beta)
qed

lemma core_verify_value:
  assumes "core_laws K" and "fresh_memory mem"
  shows "P2_Affine_core_verify K mem (P2_Affine sig) (P1_Affine pk) h msg DST aug =
    (if sig \<noteq> E2_inf \<and> \<not> E2_in_G2 K sig then BLST_POINT_NOT_IN_GROUP
     else if pk = E1_inf then BLST_PK_IS_INFINITY
     else if \<not> E1_in_G1 K pk then BLST_POINT_NOT_IN_GROUP
     else if pair_value K (if h then Hash_to_G2 K msg DST aug else Encode_to_G2 K msg DST aug) pk =
             pair_value K sig BLS12_381_G1 then BLST_SUCCESS else BLST_VERIFY_FAIL)"
proof -
  have laws: "gt_laws K" "group1_laws K" "group2_laws K" "pairing_laws K" using assms(1) by (simp_all add: core_laws_def)
  let ?c = "blst_pairing_init mem h DST" and ?H = "if h then Hash_to_G2 K msg DST aug else Encode_to_G2 K msg DST aug"
  let ?r = "PAIRING_Aggregate_PK_in_G1 K ?c (Some pk) True (Some sig) True None msg aug"
  have bad: "?r = (ctrl_or ?c AGGR_MIN_PK, BLST_POINT_NOT_IN_GROUP)" if "sig \<noteq> E2_inf" "\<not> E2_in_G2 K sig"
    using that by (simp add: PAIRING_Aggregate_PK_in_G1_def Let_def)
  have step: "?r = (if pk = E1_inf then (g1_add_sig K ?c sig, BLST_PK_IS_INFINITY)
      else if \<not> E1_in_G1 K pk then (g1_add_sig K ?c sig, BLST_POINT_NOT_IN_GROUP)
      else (enqueue_pair K (g1_add_sig K ?c sig) ?H pk, BLST_SUCCESS))" if "sig = E2_inf \<or> E2_in_G2 K sig"
    using that by (auto simp: PAIRING_Aggregate_PK_in_G1_def g1_add_sig_def Let_def multiplier_def times_E1_def
        times_E2_def ctrl_has_or)
  let ?e = "PAIRING_Commit K (enqueue_pair K (g1_add_sig K ?c sig) ?H pk)"
  have commit: "ctrl_has ?e AGGR_GT_SET" "pr_GT ?e = miller_loop_n K [(?H, pk)]"
    "ctrl_has ?e AGGR_SIGN_SET = (sig \<noteq> E2_inf)" "ctrl_has ?e AGGR_MIN_PK" "\<not> ctrl_has ?e AGGR_MIN_SIG"
    "sig \<noteq> E2_inf \<Longrightarrow> pr_AggrSign ?e = AggrSign_e2 sig"
    using assms(2)
    by (simp_all add: PAIRING_Commit_def enqueue_pair_def Let_def N_MAX_def fresh_memory_def miller_batch_def
        ctrl_has_or g1_add_sig_def numeral_eq_Suc length_Suc_conv) auto
  have verify: "PAIRING_FinalVerify K ?e None \<longleftrightarrow> pair_value K ?H pk = pair_value K sig BLS12_381_G1"
    if "sig = E2_inf \<or> E2_in_G2 K sig"
  proof -
    let ?v = "miller_loop_n K [(sig, BLS12_381_G1)]"
    have "\<not> fp12_is_zero K ?v" using that laws by (intro pairing_rules(4)) (auto simp: group1 group2)
    note check = final_check [OF laws(1,4) this]
    have "PAIRING_FinalVerify K ?e None \<longleftrightarrow>
        final_exp K (mul_fp12 K (conjugate_fp12 K ?v) (miller_loop_n K [(?H, pk)])) = fp12_one K"
      using commit by (cases "sig = E2_inf") (simp_all add: PAIRING_FinalVerify_def Let_def kind_bits miller_loop_n_def)
    then show ?thesis unfolding check by (simp add: pair_value_def)
  qed
  show ?thesis
    unfolding P2_Affine_core_verify_def blst_core_verify_pk_in_g1_def P2_Affine.sel P1_Affine.sel
    using bad step verify by (cases "sig = E2_inf \<or> E2_in_G2 K sig") (auto simp: Let_def)
qed

text \<open>
  C8. One call of \<^verbatim>\<open>core_verify\<close> returns, for a signature in G2: not in group for a finite
  signature outside the subgroup, infinity for an infinite key, not in group for a key outside the
  subgroup, and otherwise success exactly if the pairing of the hashed message with the key is that
  of the signature with the generator.
\<close>

theorem core_verify_decides:
  assumes "core_laws K" and "fresh_memory mem"
  shows "P2_Affine_core_verify K mem (P2_Affine sig) (P1_Affine pk) h msg DST aug =
    (if sig \<noteq> E2_inf \<and> \<not> E2_in_G2 K sig then BLST_POINT_NOT_IN_GROUP
     else if pk = E1_inf then BLST_PK_IS_INFINITY
     else if \<not> E1_in_G1 K pk then BLST_POINT_NOT_IN_GROUP
     else if pair_value K (if h then Hash_to_G2 K msg DST aug else Encode_to_G2 K msg DST aug) pk =
             pair_value K sig BLS12_381_G1 then BLST_SUCCESS else BLST_VERIFY_FAIL)"
  by (rule core_verify_value [OF assms])

theorem core_verify_decides_witness:
  "P2_Affine_core_verify sample_core sample_memory (P2_Affine BLS12_381_G2) (P1_Affine BLS12_381_G1) True [1] [2] [] =
     BLST_SUCCESS \<and>
   P2_Affine_core_verify sample_core sample_memory (P2_Affine E2_inf) (P1_Affine BLS12_381_G1) True [1] [2] [] =
     BLST_VERIFY_FAIL"
proof -
  have "Hash_to_G2 sample_core [1] [2] [] = BLS12_381_G2" "E2_in_G2 sample_core BLS12_381_G2"
    "E1_in_G1 sample_core BLS12_381_G1" by simp_all (simp_all add: sample_core_def)
  then show ?thesis
    using core_verify_decides [OF sample_core_laws sample_memory_fresh] sample_values by simp
qed

section \<open>Contexts filled in parallel\<close>

lemma no_common_kind:
  assumes "\<not> ctrl_has c1 AGGR_MIN_SIG" and "\<not> ctrl_has c2 AGGR_MIN_SIG"
    and "pr_ctrl c1 AND MIN_SIG_OR_PK \<noteq> AGGR_UNDEFINED" and "pr_ctrl c2 AND MIN_SIG_OR_PK \<noteq> AGGR_UNDEFINED"
  shows "pr_ctrl c1 AND pr_ctrl c2 AND MIN_SIG_OR_PK \<noteq> 0"
proof -
  have "pr_ctrl c1 AND MIN_SIG_OR_PK = AGGR_MIN_PK" "pr_ctrl c2 AND MIN_SIG_OR_PK = AGGR_MIN_PK"
    using assms by (simp_all add: kind_bits)
  then have "pr_ctrl c1 AND pr_ctrl c2 AND MIN_SIG_OR_PK = AGGR_MIN_PK AND AGGR_MIN_PK"
    by (metis and.assoc and.idem and.left_commute)
  then show ?thesis by simp
qed

lemma merge_kind:
  assumes "\<not> ctrl_has c1 AGGR_MIN_SIG" and "\<not> ctrl_has c2 AGGR_MIN_SIG"
  defines "c \<equiv> ctrl_or c1 (pr_ctrl c2 AND MIN_SIG_OR_PK)"
  shows "\<not> ctrl_has c AGGR_MIN_SIG" "ctrl_has c AGGR_MIN_PK = (ctrl_has c1 AGGR_MIN_PK \<or> ctrl_has c2 AGGR_MIN_PK)"
    "ctrl_has c AGGR_SIGN_SET = ctrl_has c1 AGGR_SIGN_SET" "ctrl_has c AGGR_GT_SET = ctrl_has c1 AGGR_GT_SET"
    "ctrl_has c AGGR_HASH_OR_ENCODE = ctrl_has c1 AGGR_HASH_OR_ENCODE"
proof -
  have m: "MIN_SIG_OR_PK AND AGGR_MIN_SIG = AGGR_MIN_SIG" "MIN_SIG_OR_PK AND AGGR_MIN_PK = AGGR_MIN_PK"
    "MIN_SIG_OR_PK AND AGGR_SIGN_SET = 0" "MIN_SIG_OR_PK AND AGGR_GT_SET = 0" "MIN_SIG_OR_PK AND AGGR_HASH_OR_ENCODE = 0"
    by (simp_all add: MIN_SIG_OR_PK_def AGGR_MIN_SIG_def AGGR_MIN_PK_def AGGR_SIGN_SET_def AGGR_GT_SET_def
        AGGR_HASH_OR_ENCODE_def)
  show "\<not> ctrl_has c AGGR_MIN_SIG" "ctrl_has c AGGR_MIN_PK = (ctrl_has c1 AGGR_MIN_PK \<or> ctrl_has c2 AGGR_MIN_PK)"
    "ctrl_has c AGGR_SIGN_SET = ctrl_has c1 AGGR_SIGN_SET" "ctrl_has c AGGR_GT_SET = ctrl_has c1 AGGR_GT_SET"
    "ctrl_has c AGGR_HASH_OR_ENCODE = ctrl_has c1 AGGR_HASH_OR_ENCODE"
    using assms(1,2) unfolding c_def ctrl_has_or and.assoc m by (simp_all add: ctrl_has_def)
qed

lemma merge_g1:
  assumes "g1_inv K h DST c1" and "g1_inv K h' DST' c2" and "pr_nelems c1 = 0" and "pr_nelems c2 = 0"
  defines "r \<equiv> blst_pairing_merge K c1 c2"
  shows "snd r = BLST_SUCCESS" and "g1_inv K h DST (fst r)"
    and "accumulated K (fst r) = mul_fp12 K (accumulated K c1) (accumulated K c2)"
    and "sum_G2 (fst r) = E2_dadd K (sum_G2 c1) (sum_G2 c2)" and "in_use (fst r) = (in_use c1 \<or> in_use c2)"
    and "pr_nelems (fst r) = 0"
proof -
  note i = assms(1) [unfolded g1_inv_def core_laws_def] and j = assms(2) [unfolded g1_inv_def]
  define c where "c = ctrl_or c1 (pr_ctrl c2 AND MIN_SIG_OR_PK)"
  have csel: "pr_GT c = pr_GT c1" "pr_nelems c = pr_nelems c1" "pr_Q c = pr_Q c1" "pr_P c = pr_P c1"
    "pr_DST c = pr_DST c1" "pr_AggrSign c = pr_AggrSign c1" by (simp_all add: c_def)
  have ns: "\<not> ctrl_has c1 AGGR_MIN_SIG" "\<not> ctrl_has c2 AGGR_MIN_SIG" using i j by simp_all
  note k = merge_kind [OF ns, folded c_def]
  define s where "s = (if ctrl_has c1 AGGR_SIGN_SET \<and> ctrl_has c2 AGGR_SIGN_SET then
      c\<lparr>pr_AggrSign := AggrSign_e2 (E2_dadd K (e2 (pr_AggrSign c1)) (e2 (pr_AggrSign c2)))\<rparr>
    else if ctrl_has c2 AGGR_SIGN_SET then ctrl_or (c\<lparr>pr_AggrSign := pr_AggrSign c2\<rparr>) AGGR_SIGN_SET else c)"
  have sel: "pr_GT s = pr_GT c1" "pr_nelems s = 0" "pr_Q s = pr_Q c1" "pr_P s = pr_P c1" "pr_DST s = pr_DST c1"
    "\<not> ctrl_has s AGGR_MIN_SIG" "ctrl_has s AGGR_MIN_PK = (ctrl_has c1 AGGR_MIN_PK \<or> ctrl_has c2 AGGR_MIN_PK)"
    "ctrl_has s AGGR_GT_SET = ctrl_has c1 AGGR_GT_SET" "ctrl_has s AGGR_HASH_OR_ENCODE = ctrl_has c1 AGGR_HASH_OR_ENCODE"
    "ctrl_has s AGGR_SIGN_SET = (ctrl_has c1 AGGR_SIGN_SET \<or> ctrl_has c2 AGGR_SIGN_SET)"
    using assms(3) by (auto simp: s_def ctrl_has_or k csel)
  have sum: "sum_G2 s = E2_dadd K (sum_G2 c1) (sum_G2 c2)"
    using i j group2(5,6,1) [of K] by (auto simp: s_def sum_G2_def ctrl_has_or k csel)
  have kind: "pr_ctrl c AND MIN_SIG_OR_PK = AGGR_MIN_PK \<or> pr_ctrl c AND MIN_SIG_OR_PK = AGGR_UNDEFINED"
    unfolding kind_bits using k by blast
  have undef: "s = c" if "pr_ctrl c AND MIN_SIG_OR_PK = AGGR_UNDEFINED"
    using that i j unfolding kind_bits k by (auto simp: s_def)
  have neq: "AGGR_MIN_PK \<noteq> AGGR_MIN_SIG" "AGGR_MIN_PK \<noteq> AGGR_UNDEFINED" "AGGR_UNDEFINED \<noteq> AGGR_MIN_SIG"
    by (simp_all add: AGGR_MIN_PK_def AGGR_MIN_SIG_def AGGR_UNDEFINED_def)
  have guard: "(pr_ctrl c1 AND MIN_SIG_OR_PK \<noteq> AGGR_UNDEFINED \<and> pr_ctrl c2 AND MIN_SIG_OR_PK \<noteq> AGGR_UNDEFINED \<and>
      pr_ctrl c1 AND pr_ctrl c2 AND MIN_SIG_OR_PK = 0) = False"
    using no_common_kind [OF ns] by blast
  have r: "r = (if ctrl_has c1 AGGR_GT_SET \<and> ctrl_has c2 AGGR_GT_SET then s\<lparr>pr_GT := mul_fp12 K (pr_GT c1) (pr_GT c2)\<rparr>
      else if ctrl_has c2 AGGR_GT_SET then ctrl_or (s\<lparr>pr_GT := pr_GT c2\<rparr>) AGGR_GT_SET else s, BLST_SUCCESS)"
    using kind
  proof
    assume u: "pr_ctrl c AND MIN_SIG_OR_PK = AGGR_UNDEFINED"
    show ?thesis
      unfolding r_def blst_pairing_merge_def Let_def c_def [symmetric] u guard if_False using assms(3,4) neq sel(1,8)
      by (simp add: undef [OF u])
  next
    assume u: "pr_ctrl c AND MIN_SIG_OR_PK = AGGR_MIN_PK"
    show ?thesis
      unfolding r_def blst_pairing_merge_def Let_def c_def [symmetric] u guard if_False using assms(3,4) neq
      by (simp add: s_def k csel ctrl_has_or)
  qed
  then show "snd r = BLST_SUCCESS" by simp
  have fr: "sum_G2 (fst r) = sum_G2 s" "pr_nelems (fst r) = 0" "pr_Q (fst r) = pr_Q c1" "pr_P (fst r) = pr_P c1"
    "pr_DST (fst r) = pr_DST c1" "AGGR_GT_SET AND f = 0 \<Longrightarrow> ctrl_has (fst r) f = ctrl_has s f" for f
    using r sel by (auto simp: sum_G2_def ctrl_has_or)
  show "pr_nelems (fst r) = 0" by (rule fr(2))
  show "sum_G2 (fst r) = E2_dadd K (sum_G2 c1) (sum_G2 c2)" using fr sum by simp
  show "accumulated K (fst r) = mul_fp12 K (accumulated K c1) (accumulated K c2)"
    using r sel i gt_ac(3,4) [of K] assms(3,4) fr(2)
    by (auto simp: accumulated_def GT_value_def pending_0 gt_prod_def ctrl_has_or)
  show "in_use (fst r) = (in_use c1 \<or> in_use c2)" using r sel assms(3,4) by (auto simp: in_use_def ctrl_has_or)
  show "g1_inv K h DST (fst r)"
    unfolding g1_inv_def fr(1) sum using i j sel fr by (simp add: core_laws_def PAIRING_shape_def pending_0 N_MAX_def group2)
qed

lemma commit_g1:
  assumes "g1_inv K h DST ctx"
  shows "g1_inv K h DST (Pairing_commit K ctx)" and "accumulated K (Pairing_commit K ctx) = accumulated K ctx"
    and "sum_G2 (Pairing_commit K ctx) = sum_G2 ctx" and "in_use (Pairing_commit K ctx) = in_use ctx"
    and "pr_nelems (Pairing_commit K ctx) = 0"
proof -
  note i = assms [unfolded g1_inv_def core_laws_def]
  have laws: "gt_laws K" "PAIRING_shape ctx" "\<forall>x \<in> set (pending ctx). finite_pair x" using i by simp_all
  note c = commit_value [OF laws]
  have flags: "ctrl_has (PAIRING_Commit K ctx) AGGR_SIGN_SET = ctrl_has ctx AGGR_SIGN_SET"
    "ctrl_has (PAIRING_Commit K ctx) AGGR_MIN_PK = ctrl_has ctx AGGR_MIN_PK"
    "ctrl_has (PAIRING_Commit K ctx) AGGR_MIN_SIG = ctrl_has ctx AGGR_MIN_SIG"
    "ctrl_has (PAIRING_Commit K ctx) AGGR_HASH_OR_ENCODE = ctrl_has ctx AGGR_HASH_OR_ENCODE"
    "pr_DST (PAIRING_Commit K ctx) = pr_DST ctx" "pr_Q (PAIRING_Commit K ctx) = pr_Q ctx" "pr_P (PAIRING_Commit K ctx) = pr_P ctx"
    by (simp_all add: PAIRING_Commit_def)
  show "pr_nelems (Pairing_commit K ctx) = 0" using c(5) by (simp add: Pairing_commit_def)
  show sum: "sum_G2 (Pairing_commit K ctx) = sum_G2 ctx" by (simp add: Pairing_commit_def sum_G2_def flags c(4))
  show "accumulated K (Pairing_commit K ctx) = accumulated K ctx"
    using c(1,5) laws(1) by (simp add: Pairing_commit_def accumulated_def [of K "PAIRING_Commit K ctx"] pending_0 gt_prod_def gt_ac(4))
  show "in_use (Pairing_commit K ctx) = in_use ctx"
    using c(2,5) by (simp add: Pairing_commit_def in_use_def [of "PAIRING_Commit K ctx"])
  show "g1_inv K h DST (Pairing_commit K ctx)"
    unfolding g1_inv_def sum using i c(5) flags
    by (simp add: Pairing_commit_def core_laws_def PAIRING_shape_def N_MAX_def pending_0)
qed

lemma verify_g1_iff:
  assumes "g1_inv K h DST ctx"
  shows "Pairing_finalverify K (Pairing_commit K ctx) None \<longleftrightarrow>
    in_use ctx \<and> final_exp K (accumulated K ctx) = pair_value K (sum_G2 ctx) BLS12_381_G1"
proof (cases "in_use ctx")
  case True
  then show ?thesis using verify_g1 [OF assms] by simp
next
  case False
  then show ?thesis
    by (simp add: in_use_def Pairing_commit_def PAIRING_Commit_def Pairing_finalverify_def PAIRING_FinalVerify_def)
qed

lemma run_in_use:
  assumes "core_laws K" and "fresh_memory mem" and "\<forall>x \<in> set xs. g1_accept K h DST x"
  shows "in_use (fst (run_calls (g1_step K) (Pairing_new mem h DST) xs)) = (xs \<noteq> [])"
proof (cases "xs = []")
  case True
  then show ?thesis by (simp add: in_use_def Pairing_new_def)
qed (simp add: run_g1(5) [OF assms])

lemma E2_sum_append:
  assumes "group2_laws K" and "\<forall>q \<in> set (xs @ ys). E2_in_G2 K q"
  shows "E2_sum K (xs @ ys) = E2_dadd K (E2_sum K xs) (E2_sum K ys) \<and> E2_in_G2 K (E2_sum K ys)"
  using assms(2)
proof (induction ys rule: rev_induct)
  case Nil
  then have "E2_in_G2 K (E2_sum K xs)"
    by (induction xs rule: rev_induct) (simp_all add: E2_sum_def group2 [OF assms(1)])
  then show ?case by (simp add: E2_sum_def group2 [OF assms(1)])
next
  case (snoc y ys)
  have "E2_in_G2 K (E2_sum K xs)" using snoc.prems
    by (induction xs rule: rev_induct) (simp_all add: E2_sum_def group2 [OF assms(1)])
  with snoc show ?case by (simp add: E2_sum_def group2 [OF assms(1)])
qed

text \<open>
  C7. Contexts filled separately and merged, the usage pattern for several processors, verify like
  one context that received all the calls: the merge of two committed contexts succeeds and
  \<^verbatim>\<open>finalverify\<close> answers the same.
\<close>

theorem merge_like_one_context:
  assumes "core_laws K" and "fresh_memory m1" and "fresh_memory m2" and "fresh_memory m3"
    and "\<forall>x \<in> set (xs @ ys). g1_accept K h DST x"
  shows "case Pairing_merge K (Pairing_commit K (fst (run_calls (g1_step K) (Pairing_new m1 h DST) xs)))
      (Pairing_commit K (fst (run_calls (g1_step K) (Pairing_new m2 h DST) ys))) of (ctx, err) \<Rightarrow>
    err = BLST_SUCCESS \<and> Pairing_finalverify K ctx None =
      Pairing_finalverify K (Pairing_commit K (fst (run_calls (g1_step K) (Pairing_new m3 h DST) (xs @ ys)))) None"
proof -
  have ax: "\<forall>x \<in> set xs. g1_accept K h DST x" and ay: "\<forall>x \<in> set ys. g1_accept K h DST x" using assms(5) by simp_all
  have laws: "gt_laws K" "group2_laws K" using assms(1) by (simp_all add: core_laws_def)
  note rx = run_g1 [OF assms(1,2) ax] and ry = run_g1 [OF assms(1,3) ay] and r = run_g1 [OF assms(1,4,5)]
  let ?x = "fst (run_calls (g1_step K) (Pairing_new m1 h DST) xs)" and ?y = "fst (run_calls (g1_step K) (Pairing_new m2 h DST) ys)"
  let ?m = "blst_pairing_merge K (Pairing_commit K ?x) (Pairing_commit K ?y)"
  note cx = commit_g1 [OF rx(1)] and cy = commit_g1 [OF ry(1)]
  note m = merge_g1 [OF cx(1) cy(1) cx(5) cy(5)]
  note use = run_in_use [OF assms(1,2) ax] run_in_use [OF assms(1,3) ay] run_in_use [OF assms(1,4,5)]
  have "\<forall>q \<in> set (map g1_sig xs @ map g1_sig ys). E2_in_G2 K q" using ax ay by (auto simp: g1_accept_def)
  note sum = E2_sum_append [OF laws(2) this]
  have same: "Pairing_commit K (fst ?m) = fst ?m" using m(6) by (simp add: Pairing_commit_def PAIRING_Commit_def)
  have prod: "gt_prod K (map f (xs @ ys)) = mul_fp12 K (gt_prod K (map f xs)) (gt_prod K (map f ys))" for f
    using foldl_mul [OF laws(1), of "gt_prod K (map f xs)" "map f ys"] by (simp add: gt_prod_def)
  have "Pairing_finalverify K (fst ?m) None =
      Pairing_finalverify K (Pairing_commit K (fst (run_calls (g1_step K) (Pairing_new m3 h DST) (xs @ ys)))) None"
    using verify_g1_iff [OF m(2)] verify_g1_iff [OF r(1)]
    unfolding same m(3-5) cx(2-4) cy(2-4) use r(3,4) rx(3,4) ry(3,4) prod using sum by auto
  then show ?thesis using m(1) by (simp add: Pairing_merge_def split_beta)
qed

theorem merge_like_one_context_witness:
  "Pairing_finalverify sample_core (fst (Pairing_merge sample_core
       (Pairing_commit sample_core (fst (run_calls (g1_step sample_core) (Pairing_new sample_memory True []) [sample_g1_call])))
       (Pairing_commit sample_core (fst (run_calls (g1_step sample_core) (Pairing_new sample_memory True []) [sample_g1_call]))))) None =
   Pairing_finalverify sample_core (Pairing_commit sample_core
     (fst (run_calls (g1_step sample_core) (Pairing_new sample_memory True []) [sample_g1_call, sample_g1_call]))) None"
proof -
  have "\<forall>x \<in> set ([sample_g1_call] @ [sample_g1_call]). g1_accept sample_core True [] x"
    using sample_g1_accept by simp
  from merge_like_one_context [OF sample_core_laws sample_memory_fresh sample_memory_fresh sample_memory_fresh this]
  show ?thesis by (simp add: split_beta del: run_calls.simps)
qed

section \<open>Memory that was never written does not show\<close>

datatype pairing_op =
  Op_aggregate_g1 P1_Affine P2_Affine bytes bytes
| Op_aggregate_g2 P2_Affine P1_Affine bytes bytes
| Op_mul_n_aggregate_g1 P1_Affine P2_Affine bytes bytes bytes
| Op_mul_n_aggregate_g2 P2_Affine P1_Affine bytes bytes bytes
| Op_raw_aggregate P2_Affine P1_Affine
| Op_commit
| Op_as_fp12

fun pairing_op_step :: "'gt Core \<Rightarrow> 'gt PAIRING \<Rightarrow> pairing_op \<Rightarrow> 'gt PAIRING \<times> BLST_ERROR" where
  "pairing_op_step K ctx (Op_aggregate_g1 pk sig msg aug) = Pairing_aggregate_g1 K ctx pk sig msg aug"
| "pairing_op_step K ctx (Op_aggregate_g2 pk sig msg aug) = Pairing_aggregate_g2 K ctx pk sig msg aug"
| "pairing_op_step K ctx (Op_mul_n_aggregate_g1 pk sig scalar msg aug) =
     Pairing_mul_n_aggregate_g1 K ctx pk sig scalar msg aug"
| "pairing_op_step K ctx (Op_mul_n_aggregate_g2 pk sig scalar msg aug) =
     Pairing_mul_n_aggregate_g2 K ctx pk sig scalar msg aug"
| "pairing_op_step K ctx (Op_raw_aggregate q p) = (Pairing_raw_aggregate K ctx q p, BLST_SUCCESS)"
| "pairing_op_step K ctx Op_commit = (Pairing_commit K ctx, BLST_SUCCESS)"
| "pairing_op_step K ctx Op_as_fp12 = (fst (Pairing_as_fp12 K ctx), BLST_SUCCESS)"

text \<open>
  How a context comes about: it is constructed in memory of its own, operated on, and merged with
  another context. \<open>prog_ctx\<close> is the context for a given content of the memory, \<open>prog_codes\<close> are the
  codes that the calls on the way returned, and \<open>prog_root\<close> is the memory the context lies in.
\<close>

datatype pairing_prog =
  New nat bool bytes
| Call pairing_prog pairing_op
| Merge pairing_prog pairing_prog

fun prog_ctx :: "'gt Core \<Rightarrow> (nat \<Rightarrow> 'gt PAIRING) \<Rightarrow> pairing_prog \<Rightarrow> 'gt PAIRING" where
  "prog_ctx K mem (New i h DST) = Pairing_new (mem i) h DST"
| "prog_ctx K mem (Call p op) = fst (pairing_op_step K (prog_ctx K mem p) op)"
| "prog_ctx K mem (Merge p q) = fst (Pairing_merge K (prog_ctx K mem p) (prog_ctx K mem q))"

fun prog_codes :: "'gt Core \<Rightarrow> (nat \<Rightarrow> 'gt PAIRING) \<Rightarrow> pairing_prog \<Rightarrow> BLST_ERROR list" where
  "prog_codes K mem (New i h DST) = []"
| "prog_codes K mem (Call p op) = prog_codes K mem p @ [snd (pairing_op_step K (prog_ctx K mem p) op)]"
| "prog_codes K mem (Merge p q) =
     prog_codes K mem p @ prog_codes K mem q @ [snd (Pairing_merge K (prog_ctx K mem p) (prog_ctx K mem q))]"

fun prog_root :: "pairing_prog \<Rightarrow> nat" where
  "prog_root (New i h DST) = i"
| "prog_root (Call p op) = prog_root p"
| "prog_root (Merge p q) = prog_root p"

text \<open>Contexts that agree on everything the flags and the counter say has been written.\<close>

definition same_context :: "'gt PAIRING \<Rightarrow> 'gt PAIRING \<Rightarrow> bool" where
  "same_context c c' \<longleftrightarrow> PAIRING_shape c \<and> PAIRING_shape c' \<and> pr_ctrl c = pr_ctrl c' \<and>
     pr_nelems c = pr_nelems c' \<and> pr_DST c = pr_DST c' \<and> pending c = pending c' \<and>
     (ctrl_has c AGGR_GT_SET \<longrightarrow> pr_GT c = pr_GT c') \<and>
     (ctrl_has c AGGR_SIGN_SET \<longrightarrow> pr_AggrSign c = pr_AggrSign c')"

lemma same_has: "same_context c c' \<Longrightarrow> ctrl_has c' f = ctrl_has c f"
  by (simp add: same_context_def ctrl_has_def)

lemma same_ctrl_or:
  "same_context c c' \<Longrightarrow> AGGR_GT_SET AND f = 0 \<Longrightarrow> AGGR_SIGN_SET AND f = 0 \<Longrightarrow> same_context (ctrl_or c f) (ctrl_or c' f)"
  by (auto simp: same_context_def ctrl_has_or PAIRING_shape_def pending_def and.commute [of f])

lemma same_sign:
  "same_context c c' \<Longrightarrow> same_context (c\<lparr>pr_AggrSign := s\<rparr>) (c'\<lparr>pr_AggrSign := s\<rparr>)"
  "same_context c c' \<Longrightarrow> same_context (ctrl_or (c\<lparr>pr_AggrSign := s\<rparr>) AGGR_SIGN_SET) (ctrl_or (c'\<lparr>pr_AggrSign := s\<rparr>) AGGR_SIGN_SET)"
  by (auto simp: same_context_def ctrl_has_or PAIRING_shape_def pending_def)

lemma same_batch:
  assumes "pr_ctrl c = pr_ctrl c'" and "pr_DST c = pr_DST c'"
    and "ctrl_has c AGGR_GT_SET \<longrightarrow> pr_GT c = pr_GT c'" and "ctrl_has c AGGR_SIGN_SET \<longrightarrow> pr_AggrSign c = pr_AggrSign c'"
    and "take n (zip (pr_Q c) (pr_P c)) = take n (zip (pr_Q c') (pr_P c'))"
    and "length (pr_Q c) = N_MAX" "length (pr_P c) = N_MAX" "length (pr_Q c') = N_MAX" "length (pr_P c') = N_MAX"
  shows "same_context ((miller_batch K c n)\<lparr>pr_nelems := 0\<rparr>) ((miller_batch K c' n)\<lparr>pr_nelems := 0\<rparr>)"
proof -
  have has: "ctrl_has c' f = ctrl_has c f" for f using assms(1) by (simp add: ctrl_has_def)
  show ?thesis
    using assms by (auto simp: same_context_def PAIRING_shape_def N_MAX_def pending_def miller_batch_def Let_def has ctrl_has_or)
qed

lemma same_enqueue:
  assumes "same_context c c'"
  shows "same_context (enqueue_pair K c q p) (enqueue_pair K c' q p)"
proof -
  note s = assms [unfolded same_context_def]
  let ?n = "pr_nelems c"
  let ?u = "\<lambda>c. c\<lparr>pr_Q := (pr_Q c)[?n := q], pr_P := (pr_P c)[?n := p]\<rparr>"
  have t: "take (Suc ?n) (zip (pr_Q (?u c)) (pr_P (?u c))) = take (Suc ?n) (zip (pr_Q (?u c')) (pr_P (?u c')))"
    using pending_enqueue [of c q p] pending_enqueue [of c' q p] s by simp
  show ?thesis
  proof (cases "Suc ?n = N_MAX")
    case True
    have "same_context ((miller_batch K (?u c) (Suc ?n))\<lparr>pr_nelems := 0\<rparr>) ((miller_batch K (?u c') (Suc ?n))\<lparr>pr_nelems := 0\<rparr>)"
      using s t by (intro same_batch) (simp_all add: PAIRING_shape_def)
    then show ?thesis using True s by (simp add: enqueue_pair_def Let_def)
  next
    case False
    then have "enqueue_pair K c q p = (?u c)\<lparr>pr_nelems := Suc ?n\<rparr>" "enqueue_pair K c' q p = (?u c')\<lparr>pr_nelems := Suc ?n\<rparr>"
      using s by (simp_all add: enqueue_pair_def Let_def)
    then show ?thesis
      using False s t by (simp add: same_context_def PAIRING_shape_def pending_def)
  qed
qed

lemma same_commit:
  assumes "same_context c c'"
  shows "same_context (PAIRING_Commit K c) (PAIRING_Commit K c')"
proof (cases "pr_nelems c = 0")
  case True
  then show ?thesis using assms by (simp add: PAIRING_Commit_def same_context_def)
next
  case False
  note s = assms [unfolded same_context_def]
  have "same_context ((miller_batch K c (pr_nelems c))\<lparr>pr_nelems := 0\<rparr>) ((miller_batch K c' (pr_nelems c))\<lparr>pr_nelems := 0\<rparr>)"
    using s by (intro same_batch) (auto simp: PAIRING_shape_def pending_def)
  then show ?thesis using False s by (simp add: PAIRING_Commit_def)
qed

lemma same_aggregate_G1:
  assumes "same_context c c'"
  shows "same_context (fst (PAIRING_Aggregate_PK_in_G1 K c PK k sig j scalar msg aug))
      (fst (PAIRING_Aggregate_PK_in_G1 K c' PK k sig j scalar msg aug)) \<and>
    snd (PAIRING_Aggregate_PK_in_G1 K c PK k sig j scalar msg aug) =
      snd (PAIRING_Aggregate_PK_in_G1 K c' PK k sig j scalar msg aug)"
proof -
  let ?d = "ctrl_or c AGGR_MIN_PK" and ?d' = "ctrl_or c' AGGR_MIN_PK"
  have d: "same_context ?d ?d'" by (rule same_ctrl_or [OF assms]) simp_all
  have same: "ctrl_has c' f = ctrl_has c f" "ctrl_has ?d' f = ctrl_has ?d f" for f using same_has assms d by blast+
  have sign: "ctrl_has ?d AGGR_SIGN_SET \<Longrightarrow> pr_AggrSign c = pr_AggrSign c'" "pr_DST c = pr_DST c'"
    using d by (simp_all add: same_context_def)
  show ?thesis
    using assms d
    by (auto simp: PAIRING_Aggregate_PK_in_G1_def Let_def same sign ctrl_has_or [where f = AGGR_SIGN_SET]
        intro!: same_enqueue same_sign split: option.splits sum.splits)
qed

lemma same_aggregate_G2:
  assumes "same_context c c'"
  shows "same_context (fst (PAIRING_Aggregate_PK_in_G2 K c PK k sig j scalar msg aug))
      (fst (PAIRING_Aggregate_PK_in_G2 K c' PK k sig j scalar msg aug)) \<and>
    snd (PAIRING_Aggregate_PK_in_G2 K c PK k sig j scalar msg aug) =
      snd (PAIRING_Aggregate_PK_in_G2 K c' PK k sig j scalar msg aug)"
proof -
  let ?d = "ctrl_or c AGGR_MIN_SIG" and ?d' = "ctrl_or c' AGGR_MIN_SIG"
  have d: "same_context ?d ?d'" by (rule same_ctrl_or [OF assms]) simp_all
  have same: "ctrl_has c' f = ctrl_has c f" "ctrl_has ?d' f = ctrl_has ?d f" for f using same_has assms d by blast+
  have sign: "ctrl_has ?d AGGR_SIGN_SET \<Longrightarrow> pr_AggrSign c = pr_AggrSign c'" "pr_DST c = pr_DST c'"
    using d by (simp_all add: same_context_def)
  show ?thesis
    using assms d
    by (auto simp: PAIRING_Aggregate_PK_in_G2_def Let_def same sign ctrl_has_or [where f = AGGR_SIGN_SET]
        intro!: same_enqueue same_sign split: option.splits sum.splits)
qed

lemma same_step:
  assumes "same_context c c'"
  shows "same_context (fst (pairing_op_step K c op)) (fst (pairing_op_step K c' op))"
    and "snd (pairing_op_step K c op) = snd (pairing_op_step K c' op)"
  using assms same_aggregate_G1 [OF assms] same_aggregate_G2 [OF assms] same_commit [OF assms] same_enqueue [OF assms]
  by (cases op; simp add: Pairing_aggregate_g1_def Pairing_aggregate_g2_def Pairing_mul_n_aggregate_g1_def
      Pairing_mul_n_aggregate_g2_def Pairing_raw_aggregate_def blst_pairing_raw_aggregate_def Pairing_commit_def
      Pairing_as_fp12_def blst_pairing_as_fp12_def Let_def)+

lemma same_GT:
  "same_context c c' \<Longrightarrow> same_context (c\<lparr>pr_GT := v\<rparr>) (c'\<lparr>pr_GT := v\<rparr>)"
  "same_context c c' \<Longrightarrow> same_context (ctrl_or (c\<lparr>pr_GT := v\<rparr>) AGGR_GT_SET) (ctrl_or (c'\<lparr>pr_GT := v\<rparr>) AGGR_GT_SET)"
  by (auto simp: same_context_def ctrl_has_or PAIRING_shape_def pending_def)

text \<open>The two halves of a merge: the signatures, and the accumulated values.\<close>

definition merged_sign :: "'gt Core \<Rightarrow> 32 word \<Rightarrow> 'gt PAIRING \<Rightarrow> 'gt PAIRING \<Rightarrow> 'gt PAIRING" where
  "merged_sign K kind ctx ctx1 =
     (if kind = AGGR_UNDEFINED then ctx
      else if (ctrl_has ctx AGGR_SIGN_SET \<and> ctrl_has ctx1 AGGR_SIGN_SET) \<and> kind = AGGR_MIN_SIG then
        ctx\<lparr>pr_AggrSign := AggrSign_e1 (E1_dadd K (e1 (pr_AggrSign ctx)) (e1 (pr_AggrSign ctx1)))\<rparr>
      else if ctrl_has ctx AGGR_SIGN_SET \<and> ctrl_has ctx1 AGGR_SIGN_SET then
        ctx\<lparr>pr_AggrSign := AggrSign_e2 (E2_dadd K (e2 (pr_AggrSign ctx)) (e2 (pr_AggrSign ctx1)))\<rparr>
      else if ctrl_has ctx1 AGGR_SIGN_SET then
        ctrl_or (ctx\<lparr>pr_AggrSign := pr_AggrSign ctx1\<rparr>) AGGR_SIGN_SET
      else ctx)"

definition merged_GT :: "'gt Core \<Rightarrow> 'gt PAIRING \<Rightarrow> 'gt PAIRING \<Rightarrow> 'gt PAIRING" where
  "merged_GT K ctx ctx1 =
     (if ctrl_has ctx AGGR_GT_SET \<and> ctrl_has ctx1 AGGR_GT_SET then
        ctx\<lparr>pr_GT := mul_fp12 K (pr_GT ctx) (pr_GT ctx1)\<rparr>
      else if ctrl_has ctx1 AGGR_GT_SET then ctrl_or (ctx\<lparr>pr_GT := pr_GT ctx1\<rparr>) AGGR_GT_SET
      else ctx)"

lemma merge_in_halves:
  "blst_pairing_merge K ctx ctx1 =
     (if pr_ctrl ctx AND MIN_SIG_OR_PK \<noteq> AGGR_UNDEFINED \<and> pr_ctrl ctx1 AND MIN_SIG_OR_PK \<noteq> AGGR_UNDEFINED \<and>
         pr_ctrl ctx AND pr_ctrl ctx1 AND MIN_SIG_OR_PK = 0
      then (ctx, BLST_AGGR_TYPE_MISMATCH)
      else if pr_nelems ctx \<noteq> 0 \<or> pr_nelems ctx1 \<noteq> 0 then (ctx, BLST_AGGR_TYPE_MISMATCH)
      else
        let ctx = ctrl_or ctx (pr_ctrl ctx1 AND MIN_SIG_OR_PK); kind = pr_ctrl ctx AND MIN_SIG_OR_PK in
        if kind \<noteq> AGGR_MIN_SIG \<and> kind \<noteq> AGGR_MIN_PK \<and> kind \<noteq> AGGR_UNDEFINED
        then (ctx, BLST_AGGR_TYPE_MISMATCH)
        else (merged_GT K (merged_sign K kind ctx ctx1) ctx1, BLST_SUCCESS))"
  unfolding blst_pairing_merge_def merged_sign_def merged_GT_def Let_def by (rule refl)

lemma same_merged_sign:
  assumes "same_context c c'" and "same_context d d'"
  shows "same_context (merged_sign K k c d) (merged_sign K k c' d')"
  using assms(1) same_sign [OF assms(1)] same_has [OF assms(1)] same_has [OF assms(2)]
    assms(1,2) [unfolded same_context_def]
  unfolding merged_sign_def by auto

lemma same_merged_GT:
  assumes "same_context c c'" and "same_context d d'"
  shows "same_context (merged_GT K c d) (merged_GT K c' d')"
  using assms(1) same_GT [OF assms(1)] same_has [OF assms(1)] same_has [OF assms(2)]
    assms(1,2) [unfolded same_context_def]
  unfolding merged_GT_def by auto

lemma kind_flags: "AGGR_GT_SET AND (x AND MIN_SIG_OR_PK) = 0" "AGGR_SIGN_SET AND (x AND MIN_SIG_OR_PK) = 0"
proof -
  have "AGGR_GT_SET AND MIN_SIG_OR_PK = 0" "AGGR_SIGN_SET AND MIN_SIG_OR_PK = 0"
    by (simp_all add: AGGR_GT_SET_def AGGR_SIGN_SET_def MIN_SIG_OR_PK_def AGGR_MIN_SIG_def AGGR_MIN_PK_def)
  then show "AGGR_GT_SET AND (x AND MIN_SIG_OR_PK) = 0" "AGGR_SIGN_SET AND (x AND MIN_SIG_OR_PK) = 0"
    by (simp_all only: and.left_commute [of _ x] bit.conj_zero_right)
qed

lemma same_merge:
  assumes "same_context c c'" and "same_context d d'"
  shows "same_context (fst (blst_pairing_merge K c d)) (fst (blst_pairing_merge K c' d')) \<and>
    snd (blst_pairing_merge K c d) = snd (blst_pairing_merge K c' d')"
proof -
  let ?k = "pr_ctrl d AND MIN_SIG_OR_PK"
  have eq: "pr_ctrl c' = pr_ctrl c" "pr_ctrl d' = pr_ctrl d" "pr_nelems c' = pr_nelems c" "pr_nelems d' = pr_nelems d"
    using assms by (simp_all add: same_context_def)
  have or: "same_context (ctrl_or c ?k) (ctrl_or c' ?k)" by (rule same_ctrl_or [OF assms(1) kind_flags])
  then have kind: "pr_ctrl (ctrl_or c' ?k) = pr_ctrl (ctrl_or c ?k)" by (simp add: same_context_def)
  have halves: "same_context (merged_GT K (merged_sign K kind (ctrl_or c ?k) d) d)
      (merged_GT K (merged_sign K kind (ctrl_or c' ?k) d') d')" for kind
    by (rule same_merged_GT [OF same_merged_sign [OF or assms(2)] assms(2)])
  show ?thesis
    unfolding merge_in_halves Let_def eq kind using assms(1) or halves
    by (simp only: fst_conv snd_conv simp_thms split: if_split) blast
qed

lemma same_new:
  assumes "fresh_memory mem" and "fresh_memory mem'"
  shows "same_context (Pairing_new mem h DST) (Pairing_new mem' h DST)"
  using assms by (auto simp: same_context_def Pairing_new_def fresh_memory_def PAIRING_shape_def N_MAX_def pending_0)
    (simp add: blst_pairing_init_def)

lemma same_prog:
  assumes "\<And>i. fresh_memory (mem i)" and "\<And>i. fresh_memory (mem' i)"
  shows "same_context (prog_ctx K mem P) (prog_ctx K mem' P) \<and> prog_codes K mem P = prog_codes K mem' P"
proof (induction P)
  case (New i h DST)
  then show ?case using same_new [OF assms] by simp
next
  case (Call p op)
  then show ?case using same_step by auto
next
  case (Merge p q)
  then show ?case
    using same_merge [of "prog_ctx K mem p" "prog_ctx K mem' p" "prog_ctx K mem q" "prog_ctx K mem' q" K]
    by (simp add: Pairing_merge_def)
qed

text \<open>Without the flag that says so, nothing has been written to the accumulator.\<close>

definition GT_kept :: "'gt PAIRING \<Rightarrow> 'gt PAIRING \<Rightarrow> bool" where
  "GT_kept c d \<longleftrightarrow> \<not> ctrl_has d AGGR_GT_SET \<longrightarrow> \<not> ctrl_has c AGGR_GT_SET \<and> pr_GT d = pr_GT c"

lemma GT_kept_enqueue: "GT_kept c (enqueue_pair K c q p)"
  by (simp add: GT_kept_def enqueue_pair_def miller_batch_def Let_def ctrl_has_def ctrl_or_def)

lemma GT_kept_commit: "GT_kept c (PAIRING_Commit K c)"
  by (simp add: GT_kept_def PAIRING_Commit_def miller_batch_def Let_def ctrl_has_def ctrl_or_def)

lemma GT_kept_trans: "GT_kept c d \<Longrightarrow> GT_kept d e \<Longrightarrow> GT_kept c e"
  by (auto simp: GT_kept_def)

lemma GT_kept_or: "AGGR_GT_SET AND f = 0 \<Longrightarrow> GT_kept c (ctrl_or c f)"
  by (simp add: GT_kept_def ctrl_has_or and.commute [of f])

lemma GT_kept_sign:
  "GT_kept c d \<Longrightarrow> GT_kept c (d\<lparr>pr_AggrSign := s\<rparr>)"
  "GT_kept c d \<Longrightarrow> GT_kept c (ctrl_or (d\<lparr>pr_AggrSign := s\<rparr>) AGGR_SIGN_SET)"
  by (simp_all add: GT_kept_def ctrl_has_or)

lemma GT_kept_aggregate:
  "GT_kept c (fst (PAIRING_Aggregate_PK_in_G1 K c PK k sig j scalar msg aug))"
  "GT_kept c (fst (PAIRING_Aggregate_PK_in_G2 K c PK2 k sig2 j scalar msg aug))"
proof -
  have refl: "GT_kept c c" and min: "GT_kept c (ctrl_or c AGGR_MIN_PK)" "GT_kept c (ctrl_or c AGGR_MIN_SIG)"
    by (simp add: GT_kept_def) (rule GT_kept_or; simp)+
  note steps = refl min GT_kept_sign GT_kept_trans [OF _ GT_kept_enqueue]
  show "GT_kept c (fst (PAIRING_Aggregate_PK_in_G1 K c PK k sig j scalar msg aug))"
    by (auto simp: PAIRING_Aggregate_PK_in_G1_def Let_def intro!: steps split: option.splits sum.splits)
  show "GT_kept c (fst (PAIRING_Aggregate_PK_in_G2 K c PK2 k sig2 j scalar msg aug))"
    by (auto simp: PAIRING_Aggregate_PK_in_G2_def Let_def intro!: steps split: option.splits sum.splits)
qed

lemma GT_kept_merge: "GT_kept c (fst (blst_pairing_merge K c d))"
proof -
  let ?k = "pr_ctrl d AND MIN_SIG_OR_PK"
  have or: "GT_kept c (ctrl_or c ?k)" by (rule GT_kept_or [OF kind_flags(1)])
  have "GT_kept c (merged_GT K (merged_sign K kind (ctrl_or c ?k) d) d)" for kind
    using or unfolding merged_sign_def merged_GT_def by (auto simp: GT_kept_def ctrl_has_or)
  moreover have "GT_kept c c" by (simp add: GT_kept_def)
  ultimately show ?thesis
    unfolding merge_in_halves Let_def using or by (simp only: fst_conv simp_thms split: if_split)
qed

lemma GT_kept_step: "GT_kept c (fst (pairing_op_step K c op))"
  using GT_kept_aggregate [of c K] GT_kept_commit [of c K] GT_kept_enqueue [of c K]
  by (cases op) (simp_all add: Pairing_aggregate_g1_def Pairing_aggregate_g2_def Pairing_mul_n_aggregate_g1_def
      Pairing_mul_n_aggregate_g2_def Pairing_raw_aggregate_def blst_pairing_raw_aggregate_def Pairing_commit_def
      Pairing_as_fp12_def blst_pairing_as_fp12_def Let_def GT_kept_def)

lemma unwritten_GT:
  "\<not> ctrl_has (prog_ctx K mem P) AGGR_GT_SET \<Longrightarrow> pr_GT (prog_ctx K mem P) = pr_GT (mem (prog_root P))"
proof (induction P)
  case (New i h DST)
  then show ?case by (simp add: Pairing_new_def blst_pairing_init_def)
next
  case (Call p op)
  then show ?case using GT_kept_step [of "prog_ctx K mem p" K op] by (simp add: GT_kept_def)
next
  case (Merge p q)
  then show ?case using GT_kept_merge [of "prog_ctx K mem p" K "prog_ctx K mem q"] by (simp add: GT_kept_def Pairing_merge_def)
qed

text \<open>
  C11. Memory that was never written does not show, with one exception. Whatever the memory of the
  contexts held before, every program that constructs contexts, operates on them and merges them
  gets the same codes from all its calls, the same answer of \<^verbatim>\<open>finalverify\<close>, and the same value of
  \<^verbatim>\<open>as_fp12\<close> if a pair was accumulated. If none was, \<^verbatim>\<open>as_fp12\<close> returns what the memory of the context
  held before.
\<close>

theorem uninitialised_memory_unused:
  assumes "\<And>i. fresh_memory (mem i)" and "\<And>i. fresh_memory (mem' i)"
  shows "prog_codes K mem P = prog_codes K mem' P \<and>
    Pairing_finalverify K (prog_ctx K mem P) gtsig = Pairing_finalverify K (prog_ctx K mem' P) gtsig \<and>
    (if ctrl_has (PAIRING_Commit K (prog_ctx K mem P)) AGGR_GT_SET
     then snd (Pairing_as_fp12 K (prog_ctx K mem P)) = snd (Pairing_as_fp12 K (prog_ctx K mem' P))
     else snd (Pairing_as_fp12 K (prog_ctx K mem P)) = PT (pr_GT (mem (prog_root P))))"
proof -
  let ?c = "prog_ctx K mem P" and ?c' = "prog_ctx K mem' P"
  have same: "same_context ?c ?c'" and codes: "prog_codes K mem P = prog_codes K mem' P"
    using same_prog [of mem mem' K P] assms by blast+
  have "Pairing_finalverify K ?c gtsig = Pairing_finalverify K ?c' gtsig"
    using same same_has [OF same]
    by (auto simp: same_context_def Pairing_finalverify_def PAIRING_FinalVerify_def Let_def split: option.splits)
  moreover have "pr_GT (PAIRING_Commit K ?c) = pr_GT (PAIRING_Commit K ?c')"
    if "ctrl_has (PAIRING_Commit K ?c) AGGR_GT_SET"
    using same_commit [OF same, of K] that by (simp add: same_context_def)
  moreover have "pr_GT (PAIRING_Commit K ?c) = pr_GT (mem (prog_root P))"
    if "\<not> ctrl_has (PAIRING_Commit K ?c) AGGR_GT_SET"
    using unwritten_GT [of K mem "Call P Op_commit"] that by (simp add: Pairing_commit_def)
  ultimately show ?thesis using codes by (simp add: Pairing_as_fp12_def blst_pairing_as_fp12_def Let_def)
qed

definition sample_prog :: pairing_prog where
  "sample_prog = Merge
     (Call (Call (New 0 True []) (Op_raw_aggregate (P2_Affine BLS12_381_G2) (P1_Affine BLS12_381_G1))) Op_commit)
     (New 1 True [])"

theorem uninitialised_memory_unused_witness:
  "Pairing_finalverify sample_core (prog_ctx sample_core (\<lambda>_. sample_memory) sample_prog) None =
   Pairing_finalverify sample_core (prog_ctx sample_core (\<lambda>_. sample_memory\<lparr>pr_GT := Some True\<rparr>) sample_prog) None \<and>
   snd (Pairing_as_fp12 sample_core (prog_ctx sample_core (\<lambda>_. sample_memory\<lparr>pr_GT := Some True\<rparr>) (New 0 True []))) =
     PT (Some True)"
proof -
  have fresh: "fresh_memory (sample_memory\<lparr>pr_GT := Some True\<rparr>)" using sample_memory_fresh by (simp add: fresh_memory_def)
  have "\<not> ctrl_has (PAIRING_Commit sample_core (prog_ctx sample_core (\<lambda>_. sample_memory\<lparr>pr_GT := Some True\<rparr>) (New 0 True [])))
      AGGR_GT_SET"
    by (simp add: Pairing_new_def blst_pairing_init_def PAIRING_Commit_def ctrl_has_def AGGR_UNDEFINED_def
        AGGR_HASH_OR_ENCODE_def AGGR_GT_SET_def)
  with uninitialised_memory_unused [of "\<lambda>_. sample_memory\<lparr>pr_GT := Some True\<rparr>"
      "\<lambda>_. sample_memory\<lparr>pr_GT := Some True\<rparr>" sample_core "New 0 True []", OF fresh fresh]
  have "snd (Pairing_as_fp12 sample_core (prog_ctx sample_core (\<lambda>_. sample_memory\<lparr>pr_GT := Some True\<rparr>) (New 0 True []))) =
      PT (Some True)" by (simp del: prog_ctx.simps)
  then show ?thesis
    using uninitialised_memory_unused [of "\<lambda>_. sample_memory" "\<lambda>_. sample_memory\<lparr>pr_GT := Some True\<rparr>" sample_core
        sample_prog None, OF sample_memory_fresh fresh] by blast
qed

lemma not_in_use_rejected: "\<not> in_use c \<Longrightarrow> \<not> Pairing_finalverify K (Pairing_commit K c) gtsig"
  by (simp add: in_use_def Pairing_commit_def PAIRING_Commit_def Pairing_finalverify_def PAIRING_FinalVerify_def)

lemma failed_not_in_use:
  "snd (Pairing_aggregate_g1 K (Pairing_new mem h DST) pk1 sig2 msg aug) \<noteq> BLST_SUCCESS \<Longrightarrow>
     \<not> in_use (fst (Pairing_aggregate_g1 K (Pairing_new mem h DST) pk1 sig2 msg aug))"
  "snd (Pairing_aggregate_g2 K (Pairing_new mem h DST) pk2 sig1 msg aug) \<noteq> BLST_SUCCESS \<Longrightarrow>
     \<not> in_use (fst (Pairing_aggregate_g2 K (Pairing_new mem h DST) pk2 sig1 msg aug))"
  by (auto simp: Pairing_aggregate_g1_def Pairing_aggregate_g2_def Pairing_new_def PAIRING_Aggregate_PK_in_G1_def
      PAIRING_Aggregate_PK_in_G2_def Let_def in_use_def ctrl_has_or split: if_splits)

text \<open>
  C12. A caller may ignore the code \<^verbatim>\<open>aggregate\<close> returns: if the only call on a context
  failed, with keys in either group, \<^verbatim>\<open>finalverify\<close> rejects.
\<close>

theorem failed_aggregate_rejected:
  "(snd (Pairing_aggregate_g1 K (Pairing_new mem h DST) pk1 sig2 msg aug) \<noteq> BLST_SUCCESS \<longrightarrow>
      \<not> Pairing_finalverify K (Pairing_commit K (fst (Pairing_aggregate_g1 K (Pairing_new mem h DST) pk1 sig2 msg aug))) gtsig) \<and>
    (snd (Pairing_aggregate_g2 K (Pairing_new mem h DST) pk2 sig1 msg aug) \<noteq> BLST_SUCCESS \<longrightarrow>
      \<not> Pairing_finalverify K (Pairing_commit K (fst (Pairing_aggregate_g2 K (Pairing_new mem h DST) pk2 sig1 msg aug))) gtsig)"
  using not_in_use_rejected failed_not_in_use by metis

theorem failed_aggregate_rejected_witness:
  "\<not> Pairing_finalverify sample_core (Pairing_commit sample_core (fst (Pairing_aggregate_g1 sample_core
     (Pairing_new sample_memory True []) (P1_Affine E1_inf) (P2_Affine BLS12_381_G2) [1] []))) None"
proof -
  have "snd (Pairing_aggregate_g1 sample_core (Pairing_new sample_memory True []) (P1_Affine E1_inf) (P2_Affine BLS12_381_G2) [1] []) =
      BLST_PK_IS_INFINITY"
    by (simp add: Pairing_aggregate_g1_def Pairing_new_def PAIRING_Aggregate_PK_in_G1_def Let_def ctrl_has_or)
      (simp add: sample_core_def)
  then show ?thesis
    using failed_aggregate_rejected [of sample_core sample_memory True "[]" "P1_Affine E1_inf" "P2_Affine BLS12_381_G2" "[1]" "[]"
        None] by simp
qed

lemma context_core_verify:
  assumes "E1_in_G1 K (p1a_point pk)"
  shows "Pairing_finalverify K (Pairing_commit K (fst (Pairing_aggregate_g1 K (Pairing_new mem h DST) pk sig msg aug))) None
    \<longleftrightarrow> P2_Affine_core_verify K mem sig pk h msg DST aug = BLST_SUCCESS"
proof -
  have same: "PAIRING_Aggregate_PK_in_G1 K c (Some (p1a_point pk)) True (Some s) True None msg aug =
      PAIRING_Aggregate_PK_in_G1 K c (Some (p1a_point pk)) False (Some s) True None msg aug" for c s
    using assms by (simp add: PAIRING_Aggregate_PK_in_G1_def Let_def cong: option.case_cong sum.case_cong)
  let ?r = "Pairing_aggregate_g1 K (Pairing_new mem h DST) pk sig msg aug"
  have eq: "P2_Affine_core_verify K mem sig pk h msg DST aug =
      (if snd ?r \<noteq> BLST_SUCCESS then snd ?r
       else if Pairing_finalverify K (Pairing_commit K (fst ?r)) None then BLST_SUCCESS else BLST_VERIFY_FAIL)"
    by (simp add: P2_Affine_core_verify_def blst_core_verify_pk_in_g1_def same Pairing_aggregate_g1_def Pairing_new_def
        Pairing_finalverify_def Pairing_commit_def split_beta Let_def)
  show ?thesis
    unfolding eq using not_in_use_rejected failed_not_in_use(1) by (metis BLST_ERROR.distinct(9))
qed

text \<open>
  C9. For a public key that has been vetted with \<^verbatim>\<open>in_group\<close>, verifying through a context of its
  own and verifying with \<^verbatim>\<open>core_verify\<close> is the same: \<^verbatim>\<open>finalverify\<close> accepts exactly if
  \<^verbatim>\<open>core_verify\<close> returns success, for whatever signature and message.
\<close>

theorem context_agrees_with_core_verify:
  assumes "E1_in_G1 K (p1a_point pk)"
  shows "Pairing_finalverify K (Pairing_commit K (fst (Pairing_aggregate_g1 K (Pairing_new mem h DST) pk sig msg aug))) None
    \<longleftrightarrow> P2_Affine_core_verify K mem sig pk h msg DST aug = BLST_SUCCESS"
  by (rule context_core_verify [OF assms])

theorem context_agrees_with_core_verify_witness:
  "Pairing_finalverify sample_core (Pairing_commit sample_core (fst (Pairing_aggregate_g1 sample_core
     (Pairing_new sample_memory True []) (P1_Affine BLS12_381_G1) (P2_Affine BLS12_381_G2) [1] []))) None"
proof -
  have "E1_in_G1 sample_core (p1a_point (P1_Affine BLS12_381_G1))" "E1_in_G1 sample_core BLS12_381_G1"
    "E2_in_G2 sample_core BLS12_381_G2" "Hash_to_G2 sample_core [1] [] [] = BLS12_381_G2"
    by simp_all (simp_all add: sample_core_def)
  then show ?thesis
    using context_agrees_with_core_verify [of sample_core "P1_Affine BLS12_381_G1" sample_memory True "[]" "P2_Affine BLS12_381_G2" "[1]" "[]"]
      core_verify_value [OF sample_core_laws sample_memory_fresh, of BLS12_381_G2 BLS12_381_G1 True "[1]" "[]" "[]"]
    by simp
qed

section \<open>Corners\<close>

text \<open>
  An infinite key is refused after its signature has been added: the context keeps the signature
  and queues nothing.
\<close>

lemma infinite_key_keeps_signature:
  assumes "\<not> ctrl_has ctx AGGR_MIN_SIG" and "E2_in_G2 K (p2a_point sig)"
  shows "Pairing_aggregate_g1 K ctx (P1_Affine E1_inf) sig msg aug =
    (g1_add_sig K ctx (p2a_point sig), BLST_PK_IS_INFINITY)"
  using assms
  by (auto simp: Pairing_aggregate_g1_def PAIRING_Aggregate_PK_in_G1_def g1_add_sig_def Let_def multiplier_def
      times_E2_def)

text \<open>The value of a context that has received nothing is what its memory held.\<close>

lemma as_fp12_of_fresh: "snd (Pairing_as_fp12 K (Pairing_new mem h DST)) = PT (pr_GT mem)"
  by (simp add: Pairing_as_fp12_def blst_pairing_as_fp12_def PAIRING_Commit_def Pairing_new_def Let_def)
    (simp add: blst_pairing_init_def)

text \<open>
  A raw pair with one point at infinity counts as the identity when it is alone in its batch, but
  goes through the line evaluations when another pair is there.
\<close>

lemma raw_infinite_pair:
  assumes "fresh_memory mem" and "p \<noteq> E1_inf"
  shows "pr_GT (Pairing_commit K (Pairing_raw_aggregate K (Pairing_new mem h DST) (P2_Affine E2_inf) (P1_Affine p))) = fp12_one K"
    and "pr_GT (Pairing_commit K (Pairing_raw_aggregate K (Pairing_raw_aggregate K (Pairing_new mem h DST)
        (P2_Affine E2_inf) (P1_Affine p)) (P2_Affine q) (P1_Affine p))) = miller_lines K [(E2_inf, p), (q, p)]"
  using assms
  by (auto simp: Pairing_commit_def PAIRING_Commit_def Pairing_raw_aggregate_def blst_pairing_raw_aggregate_def
      Pairing_new_def enqueue_pair_def Let_def N_MAX_def fresh_memory_def miller_batch_def ctrl_has_or
      miller_loop_n_def numeral_eq_Suc length_Suc_conv)

lemma run_verify_g2:
  assumes "core_laws K" and "fresh_memory mem" and "xs \<noteq> []" and "\<forall>x \<in> set xs. g2_accept K h DST x"
  shows "Pairing_finalverify K (Pairing_commit K (fst (run_calls (g2_step K) (Pairing_new mem h DST) xs))) None \<longleftrightarrow>
    gt_prod K (map (\<lambda>x. pair_value K (g2_pk x) (g2_hash K h DST x)) xs) =
    pair_value K BLS12_381_G2 (E1_sum K (map g2_sig xs))"
proof -
  note r = run_g2 [OF assms(1,2,4)]
  have pl: "pairing_laws K" using assms(1) by (simp add: core_laws_def)
  show ?thesis
    unfolding verify_g2 [OF r(1) r(5) [OF assms(3)]] r(3,4) final_exp_prod [OF pl]
    by (simp add: pair_value_def comp_def)
qed

text \<open>
  C10. With keys in G2 and signatures in G1 the context decides the mirrored equation: the product of
  the pairings of the keys with the hashed messages is the pairing of the generator with the sum of
  the signatures.
\<close>

theorem pairing_decides_pk_in_g2:
  assumes "core_laws K" and "fresh_memory mem" and "xs \<noteq> []" and "\<forall>x \<in> set xs. g2_accept K h DST x"
  shows "case run_calls (g2_step K) (Pairing_new mem h DST) xs of (ctx, errs) \<Rightarrow>
    errs = replicate (length xs) BLST_SUCCESS \<and>
    (Pairing_finalverify K (Pairing_commit K ctx) None \<longleftrightarrow>
       gt_prod K (map (\<lambda>x. pair_value K (g2_pk x) (g2_hash K h DST x)) xs) =
       pair_value K BLS12_381_G2 (E1_sum K (map g2_sig xs)))"
  using run_verify_g2 [OF assms] run_g2(2) [OF assms(1,2,4)] by (simp add: split_beta)

definition sample_g2_call :: g2_call where
  "sample_g2_call = (P2_Affine BLS12_381_G2, P1_Affine E1_inf, [7], [])"

theorem pairing_decides_pk_in_g2_witness:
  "\<not> Pairing_finalverify sample_core (Pairing_commit sample_core
     (fst (run_calls (g2_step sample_core) (Pairing_new sample_memory True []) [sample_g2_call]))) None"
proof -
  have "\<forall>x \<in> set [sample_g2_call]. g2_accept sample_core True [] x"
    by (simp add: g2_accept_def sample_g2_call_def g2_pk_def g2_sig_def g2_hash_def) (simp add: sample_core_def)
  note claim = pairing_decides_pk_in_g2 [OF sample_core_laws sample_memory_fresh _ this]
  have "E1_sum sample_core (map g2_sig [sample_g2_call]) = E1_inf"
    by (simp add: E1_sum_def g2_sig_def sample_g2_call_def) (simp add: sample_core_def sample_E1_def)
  moreover have "pair_value sample_core BLS12_381_G2 E1_inf = Some False"
    by (simp add: pair_value_def sample_miller) (simp add: sample_core_def)
  moreover have "gt_prod sample_core (map (\<lambda>x. pair_value sample_core (g2_pk x) (g2_hash sample_core True [] x)) [sample_g2_call]) = Some True"
    using sample_values(1)
    by (simp add: gt_prod_def g2_pk_def g2_hash_def sample_g2_call_def) (simp add: sample_core_def sample_mul_def)
  ultimately show ?thesis using claim by (simp add: split_beta del: run_calls.simps)
qed

end
