(* ===== verification/BlstBinding.thy ===== *)
theory BlstBinding
  imports BlstPairing
begin

text \<open>
  The TypeScript declarations of the native module (blst/bindings/node.js/blst.hpp.ts) as records of
  functions, and the module the SWIG interface builds from the C++ classes (blst/bindings/blst.hpp,
  blst/bindings/blst.swg) as an instance of them. An interface with a constructor signature is a
  record of its overloads, its static functions and, as in JavaScript, a prototype: the record of the
  instance methods, which take the object first. A method declared \<^verbatim>\<open>void\<close> or
  \<^verbatim>\<open>this\<close> returns the changed object. Every call may end in an exception.
\<close>

section \<open>The declarations\<close>

record 'sk SecretKey_methods =
  ts_SecretKey_keygen :: "'sk \<Rightarrow> binary_string \<Rightarrow> js_string option \<Rightarrow> 'sk js_result"
  ts_SecretKey_derive_master_eip2333 :: "'sk \<Rightarrow> binary_string \<Rightarrow> 'sk js_result"
  ts_SecretKey_derive_child_eip2333 :: "'sk \<Rightarrow> 'sk \<Rightarrow> nat \<Rightarrow> 'sk js_result"
  ts_SecretKey_from_bendian :: "'sk \<Rightarrow> bytes \<Rightarrow> 'sk js_result"
  ts_SecretKey_from_lendian :: "'sk \<Rightarrow> bytes \<Rightarrow> 'sk js_result"
  ts_SecretKey_to_bendian :: "'sk \<Rightarrow> bytes js_result"
  ts_SecretKey_to_lendian :: "'sk \<Rightarrow> bytes js_result"

record 'sk SecretKeyConstructor =
  new_SecretKey :: "'sk js_result"
  SecretKey_prototype :: "'sk SecretKey_methods"

record ('sc, 'sk) Scalar_methods =
  ts_Scalar_hash_to :: "'sc \<Rightarrow> binary_string \<Rightarrow> js_string option \<Rightarrow> 'sc js_result"
  ts_Scalar_dup :: "'sc \<Rightarrow> 'sc js_result"
  ts_Scalar_from_bendian :: "'sc \<Rightarrow> bytes \<Rightarrow> 'sc js_result"
  ts_Scalar_from_lendian :: "'sc \<Rightarrow> bytes \<Rightarrow> 'sc js_result"
  ts_Scalar_to_bendian :: "'sc \<Rightarrow> bytes js_result"
  ts_Scalar_to_lendian :: "'sc \<Rightarrow> bytes js_result"
  ts_Scalar_add :: "'sc \<Rightarrow> 'sc + 'sk \<Rightarrow> 'sc js_result"
  ts_Scalar_sub :: "'sc \<Rightarrow> 'sc \<Rightarrow> 'sc js_result"
  ts_Scalar_mul :: "'sc \<Rightarrow> 'sc \<Rightarrow> 'sc js_result"
  ts_Scalar_inverse :: "'sc \<Rightarrow> 'sc js_result"

record ('sc, 'sk) ScalarConstructor =
  new_Scalar :: "'sc js_result"
  new_Scalar_le :: "bytes \<Rightarrow> 'sc js_result"
  new_Scalar_msg :: "binary_string \<Rightarrow> js_string option \<Rightarrow> 'sc js_result"
  Scalar_prototype :: "('sc, 'sk) Scalar_methods"

record ('p1a, 'p1, 'p2a) P1_Affine_methods =
  ts_P1_Affine_dup :: "'p1a \<Rightarrow> 'p1a js_result"
  ts_P1_Affine_to_jacobian :: "'p1a \<Rightarrow> 'p1 js_result"
  ts_P1_Affine_serialize :: "'p1a \<Rightarrow> bytes js_result"
  ts_P1_Affine_compress :: "'p1a \<Rightarrow> bytes js_result"
  ts_P1_Affine_on_curve :: "'p1a \<Rightarrow> bool js_result"
  ts_P1_Affine_in_group :: "'p1a \<Rightarrow> bool js_result"
  ts_P1_Affine_is_inf :: "'p1a \<Rightarrow> bool js_result"
  ts_P1_Affine_is_equal :: "'p1a \<Rightarrow> 'p1a \<Rightarrow> bool js_result"
  ts_P1_Affine_core_verify ::
    "'p1a \<Rightarrow> 'p2a \<Rightarrow> bool \<Rightarrow> binary_string \<Rightarrow> js_string option \<Rightarrow> bytes option \<Rightarrow> BLST_ERROR js_result"

record ('p1a, 'p1, 'p2a) P1_AffineConstructor =
  new_P1_Affine :: "'p1a js_result"
  new_P1_Affine_bytes :: "bytes \<Rightarrow> 'p1a js_result"
  new_P1_Affine_jacobian :: "'p1 \<Rightarrow> 'p1a js_result"
  P1_Affine_prototype :: "('p1a, 'p1, 'p2a) P1_Affine_methods"

record ('p1, 'p1a, 'sk, 'sc) P1_methods =
  ts_P1_dup :: "'p1 \<Rightarrow> 'p1 js_result"
  ts_P1_to_affine :: "'p1 \<Rightarrow> 'p1a js_result"
  ts_P1_serialize :: "'p1 \<Rightarrow> bytes js_result"
  ts_P1_compress :: "'p1 \<Rightarrow> bytes js_result"
  ts_P1_on_curve :: "'p1 \<Rightarrow> bool js_result"
  ts_P1_in_group :: "'p1 \<Rightarrow> bool js_result"
  ts_P1_is_inf :: "'p1 \<Rightarrow> bool js_result"
  ts_P1_is_equal :: "'p1 \<Rightarrow> 'p1 \<Rightarrow> bool js_result"
  ts_P1_aggregate :: "'p1 \<Rightarrow> 'p1a \<Rightarrow> 'p1 js_result"
  ts_P1_sign_with :: "'p1 \<Rightarrow> 'sk \<Rightarrow> 'p1 js_result"
  ts_P1_hash_to :: "'p1 \<Rightarrow> binary_string \<Rightarrow> js_string option \<Rightarrow> bytes option \<Rightarrow> 'p1 js_result"
  ts_P1_encode_to :: "'p1 \<Rightarrow> binary_string \<Rightarrow> js_string option \<Rightarrow> bytes option \<Rightarrow> 'p1 js_result"
  ts_P1_mult :: "'p1 \<Rightarrow> 'sc scalar \<Rightarrow> 'p1 js_result"
  ts_P1_cneg :: "'p1 \<Rightarrow> bool \<Rightarrow> 'p1 js_result"
  ts_P1_neg :: "'p1 \<Rightarrow> 'p1 js_result"
  ts_P1_add :: "'p1 \<Rightarrow> 'p1 \<Rightarrow> 'p1 js_result"
  ts_P1_add_affine :: "'p1 \<Rightarrow> 'p1a \<Rightarrow> 'p1 js_result"
  ts_P1_dbl :: "'p1 \<Rightarrow> 'p1 js_result"

record ('p1, 'p1a, 'sk, 'sc) P1Constructor =
  new_P1 :: "'p1 js_result"
  new_P1_sk :: "'sk \<Rightarrow> 'p1 js_result"
  new_P1_bytes :: "bytes \<Rightarrow> 'p1 js_result"
  new_P1_affine :: "'p1a \<Rightarrow> 'p1 js_result"
  ts_P1_generator :: "'p1 js_result"
  P1_prototype :: "('p1, 'p1a, 'sk, 'sc) P1_methods"

record ('p2a, 'p2, 'p1a) P2_Affine_methods =
  ts_P2_Affine_dup :: "'p2a \<Rightarrow> 'p2a js_result"
  ts_P2_Affine_to_jacobian :: "'p2a \<Rightarrow> 'p2 js_result"
  ts_P2_Affine_serialize :: "'p2a \<Rightarrow> bytes js_result"
  ts_P2_Affine_compress :: "'p2a \<Rightarrow> bytes js_result"
  ts_P2_Affine_on_curve :: "'p2a \<Rightarrow> bool js_result"
  ts_P2_Affine_in_group :: "'p2a \<Rightarrow> bool js_result"
  ts_P2_Affine_is_inf :: "'p2a \<Rightarrow> bool js_result"
  ts_P2_Affine_is_equal :: "'p2a \<Rightarrow> 'p2a \<Rightarrow> bool js_result"
  ts_P2_Affine_core_verify ::
    "'p2a \<Rightarrow> 'p1a \<Rightarrow> bool \<Rightarrow> binary_string \<Rightarrow> js_string option \<Rightarrow> bytes option \<Rightarrow> BLST_ERROR js_result"

record ('p2a, 'p2, 'p1a) P2_AffineConstructor =
  new_P2_Affine :: "'p2a js_result"
  new_P2_Affine_bytes :: "bytes \<Rightarrow> 'p2a js_result"
  new_P2_Affine_jacobian :: "'p2 \<Rightarrow> 'p2a js_result"
  P2_Affine_prototype :: "('p2a, 'p2, 'p1a) P2_Affine_methods"

record ('p2, 'p2a, 'sk, 'sc) P2_methods =
  ts_P2_dup :: "'p2 \<Rightarrow> 'p2 js_result"
  ts_P2_to_affine :: "'p2 \<Rightarrow> 'p2a js_result"
  ts_P2_serialize :: "'p2 \<Rightarrow> bytes js_result"
  ts_P2_compress :: "'p2 \<Rightarrow> bytes js_result"
  ts_P2_on_curve :: "'p2 \<Rightarrow> bool js_result"
  ts_P2_in_group :: "'p2 \<Rightarrow> bool js_result"
  ts_P2_is_inf :: "'p2 \<Rightarrow> bool js_result"
  ts_P2_is_equal :: "'p2 \<Rightarrow> 'p2 \<Rightarrow> bool js_result"
  ts_P2_aggregate :: "'p2 \<Rightarrow> 'p2a \<Rightarrow> 'p2 js_result"
  ts_P2_sign_with :: "'p2 \<Rightarrow> 'sk \<Rightarrow> 'p2 js_result"
  ts_P2_hash_to :: "'p2 \<Rightarrow> binary_string \<Rightarrow> js_string option \<Rightarrow> bytes option \<Rightarrow> 'p2 js_result"
  ts_P2_encode_to :: "'p2 \<Rightarrow> binary_string \<Rightarrow> js_string option \<Rightarrow> bytes option \<Rightarrow> 'p2 js_result"
  ts_P2_mult :: "'p2 \<Rightarrow> 'sc scalar \<Rightarrow> 'p2 js_result"
  ts_P2_cneg :: "'p2 \<Rightarrow> bool \<Rightarrow> 'p2 js_result"
  ts_P2_neg :: "'p2 \<Rightarrow> 'p2 js_result"
  ts_P2_add :: "'p2 \<Rightarrow> 'p2 \<Rightarrow> 'p2 js_result"
  ts_P2_add_affine :: "'p2 \<Rightarrow> 'p2a \<Rightarrow> 'p2 js_result"
  ts_P2_dbl :: "'p2 \<Rightarrow> 'p2 js_result"

record ('p2, 'p2a, 'sk, 'sc) P2Constructor =
  new_P2 :: "'p2 js_result"
  new_P2_sk :: "'sk \<Rightarrow> 'p2 js_result"
  new_P2_bytes :: "bytes \<Rightarrow> 'p2 js_result"
  new_P2_affine :: "'p2a \<Rightarrow> 'p2 js_result"
  ts_P2_generator :: "'p2 js_result"
  P2_prototype :: "('p2, 'p2a, 'sk, 'sc) P2_methods"

record 'pt PT_methods =
  ts_PT_dup :: "'pt \<Rightarrow> 'pt js_result"
  ts_PT_is_one :: "'pt \<Rightarrow> bool js_result"
  ts_PT_is_equal :: "'pt \<Rightarrow> 'pt \<Rightarrow> bool js_result"
  ts_PT_sqr :: "'pt \<Rightarrow> 'pt js_result"
  ts_PT_mul :: "'pt \<Rightarrow> 'pt \<Rightarrow> 'pt js_result"
  ts_PT_final_exp :: "'pt \<Rightarrow> 'pt js_result"
  ts_PT_in_group :: "'pt \<Rightarrow> bool js_result"
  ts_PT_to_bendian :: "'pt \<Rightarrow> bytes js_result"

record ('pt, 'p1a, 'p1, 'p2a, 'p2) PTConstructor =
  new_PT_p1 :: "'p1a \<Rightarrow> 'pt js_result"
  new_PT_p2 :: "'p2a \<Rightarrow> 'pt js_result"
  new_PT_qp :: "'p2a + 'p2 \<Rightarrow> 'p1a + 'p1 \<Rightarrow> 'pt js_result"
  new_PT_pq :: "'p1a + 'p1 \<Rightarrow> 'p2a + 'p2 \<Rightarrow> 'pt js_result"
  ts_PT_one :: "'pt js_result"
  PT_prototype :: "'pt PT_methods"

record ('pr, 'p1a, 'p2a, 'sc, 'pt) Pairing_methods =
  ts_Pairing_aggregate_g1 :: "'pr \<Rightarrow> 'p1a \<Rightarrow> 'p2a \<Rightarrow> binary_string \<Rightarrow> bytes option \<Rightarrow> ('pr \<times> BLST_ERROR) js_result"
  ts_Pairing_aggregate_g2 :: "'pr \<Rightarrow> 'p2a \<Rightarrow> 'p1a \<Rightarrow> binary_string \<Rightarrow> bytes option \<Rightarrow> ('pr \<times> BLST_ERROR) js_result"
  ts_Pairing_mul_n_aggregate_g1 ::
    "'pr \<Rightarrow> 'p1a \<Rightarrow> 'p2a \<Rightarrow> 'sc scalar \<Rightarrow> binary_string \<Rightarrow> bytes option \<Rightarrow> ('pr \<times> BLST_ERROR) js_result"
  ts_Pairing_mul_n_aggregate_g2 ::
    "'pr \<Rightarrow> 'p2a \<Rightarrow> 'p1a \<Rightarrow> 'sc scalar \<Rightarrow> binary_string \<Rightarrow> bytes option \<Rightarrow> ('pr \<times> BLST_ERROR) js_result"
  ts_Pairing_commit :: "'pr \<Rightarrow> 'pr js_result"
  ts_Pairing_merge :: "'pr \<Rightarrow> 'pr \<Rightarrow> ('pr \<times> BLST_ERROR) js_result"
  ts_Pairing_finalverify :: "'pr \<Rightarrow> 'pt option \<Rightarrow> bool js_result"
  ts_Pairing_raw_aggregate :: "'pr \<Rightarrow> 'p2a \<Rightarrow> 'p1a \<Rightarrow> 'pr js_result"
  ts_Pairing_as_fp12 :: "'pr \<Rightarrow> ('pr \<times> 'pt) js_result"

record ('pr, 'p1a, 'p2a, 'sc, 'pt) PairingConstructor =
  new_Pairing :: "bool \<Rightarrow> js_string \<Rightarrow> 'pr js_result"
  Pairing_prototype :: "('pr, 'p1a, 'p2a, 'sc, 'pt) Pairing_methods"

record ('sk, 'sc, 'p1a, 'p1, 'p2a, 'p2, 'pt, 'pr) Blst =
  blst_SecretKey :: "'sk SecretKeyConstructor"
  blst_Scalar :: "('sc, 'sk) ScalarConstructor"
  blst_P1_Affine :: "('p1a, 'p1, 'p2a) P1_AffineConstructor"
  blst_P2_Affine :: "('p2a, 'p2, 'p1a) P2_AffineConstructor"
  blst_P1 :: "('p1, 'p1a, 'sk, 'sc) P1Constructor"
  blst_P2 :: "('p2, 'p2a, 'sk, 'sc) P2Constructor"
  blst_PT :: "('pt, 'p1a, 'p1, 'p2a, 'p2) PTConstructor"
  blst_Pairing :: "('pr, 'p1a, 'p2a, 'sc, 'pt) PairingConstructor"
  blst_G1 :: "'p1 js_result"
  blst_G2 :: "'p2 js_result"

section \<open>The native module\<close>

text \<open>A call of the key derivation that does not return hangs the program.\<close>

definition returned_key :: "nat option \<Rightarrow> SecretKey js_result" where
  "returned_key k = (case k of None \<Rightarrow> Inl Hang | Some key \<Rightarrow> Inr (SecretKey key))"

definition SecretKey_keygen :: "'gt Core \<Rightarrow> SecretKey \<Rightarrow> bytes \<Rightarrow> bytes \<Rightarrow> SecretKey js_result" where
  "SecretKey_keygen K sk IKM info =
     returned_key (blst_keygen (sha256_block_data_order K) (keygen_scratch K) IKM (Some info))"

definition SecretKey_derive_master_eip2333 :: "'gt Core \<Rightarrow> SecretKey \<Rightarrow> bytes \<Rightarrow> SecretKey js_result" where
  "SecretKey_derive_master_eip2333 K sk IKM =
     returned_key (blst_derive_master_eip2333 (sha256_block_data_order K) (keygen_scratch K) IKM)"

definition SecretKey_derive_child_eip2333 :: "'gt Core \<Rightarrow> SecretKey \<Rightarrow> SecretKey \<Rightarrow> nat \<Rightarrow> SecretKey js_result" where
  "SecretKey_derive_child_eip2333 K sk SK child_index =
     returned_key (blst_derive_child_eip2333 (sha256_block_data_order K) (keygen_scratch K) (sk_key SK) (of_nat child_index))"

text \<open>The expansion as \<^verbatim>\<open>Scalar::hash_to\<close> calls it, on a buffer that is not cleared.\<close>

definition expanded :: "'gt Core \<Rightarrow> bytes \<Rightarrow> bytes \<Rightarrow> nat \<Rightarrow> bytes" where
  "expanded K msg DST len =
     (case blst_expand_message_xmd (sha256_block_data_order K) (xmd_buffer K) [] len msg DST of Some b \<Rightarrow> b | None \<Rightarrow> [])"

definition SecretKey_impl :: "'gt Core \<Rightarrow> SecretKey SecretKeyConstructor" where
  "SecretKey_impl K =
    \<lparr>new_SecretKey = Inr SecretKey_new,
     SecretKey_prototype =
      \<lparr>ts_SecretKey_keygen = (\<lambda>sk IKM info. SecretKey_keygen K sk (bytes_of IKM) (text_or_empty info)),
       ts_SecretKey_derive_master_eip2333 = (\<lambda>sk IKM. SecretKey_derive_master_eip2333 K sk (bytes_of IKM)),
       ts_SecretKey_derive_child_eip2333 = (\<lambda>sk SK i. SecretKey_derive_child_eip2333 K sk SK i),
       ts_SecretKey_from_bendian = SecretKey_from_bendian, ts_SecretKey_from_lendian = SecretKey_from_lendian,
       ts_SecretKey_to_bendian = (\<lambda>sk. Inr (SecretKey_to_bendian sk)),
       ts_SecretKey_to_lendian = (\<lambda>sk. Inr (SecretKey_to_lendian sk))\<rparr>\<rparr>"

text \<open>
  The constructor of a scalar from a message exists in C++ only with a tag: without one, bytes select
  the little-endian constructor and a string matches nothing.
\<close>

definition Scalar_impl :: "'gt Core \<Rightarrow> (Scalar, SecretKey) ScalarConstructor" where
  "Scalar_impl K =
    \<lparr>new_Scalar = Inr Scalar_new, new_Scalar_le = Scalar_of_bytes,
     new_Scalar_msg = (\<lambda>msg DST. case DST of
         Some d \<Rightarrow> Scalar_hash_to (expanded K) Scalar_new (bytes_of msg) (utf8 d)
       | None \<Rightarrow> (case msg of Binary b \<Rightarrow> Scalar_of_bytes b | Text _ \<Rightarrow> Inl (Error ''expecting <Buffer> or <BigInt>''))),
     Scalar_prototype =
      \<lparr>ts_Scalar_hash_to = (\<lambda>s msg DST. Scalar_hash_to (expanded K) s (bytes_of msg) (text_or_empty DST)),
       ts_Scalar_dup = Inr, ts_Scalar_from_bendian = Scalar_from_bendian, ts_Scalar_from_lendian = Scalar_from_lendian,
       ts_Scalar_to_bendian = (\<lambda>s. Inr (Scalar_to_bendian s)), ts_Scalar_to_lendian = (\<lambda>s. Inr (Scalar_to_lendian s)),
       ts_Scalar_add = Scalar_add, ts_Scalar_sub = Scalar_sub, ts_Scalar_mul = Scalar_mul,
       ts_Scalar_inverse = (\<lambda>s. Inr (Scalar_inverse (reciprocal_fr K) s))\<rparr>\<rparr>"

definition P1_Affine_impl :: "'gt Core \<Rightarrow> 'gt PAIRING \<Rightarrow> (P1_Affine, P1, P2_Affine) P1_AffineConstructor" where
  "P1_Affine_impl K mem =
    \<lparr>new_P1_Affine = Inr P1_Affine_new, new_P1_Affine_bytes = P1_Affine_of_bytes K,
     new_P1_Affine_jacobian = (\<lambda>j. Inr (P1_Affine_of_jacobian j)),
     P1_Affine_prototype =
      \<lparr>ts_P1_Affine_dup = Inr, ts_P1_Affine_to_jacobian = (\<lambda>a. Inr (P1_Affine_to_jacobian a)),
       ts_P1_Affine_serialize = (\<lambda>a. Inr (P1_Affine_serialize a)),
       ts_P1_Affine_compress = (\<lambda>a. Inr (P1_Affine_compress a)),
       ts_P1_Affine_on_curve = (\<lambda>a. Inr (P1_Affine_on_curve a)),
       ts_P1_Affine_in_group = (\<lambda>a. Inr (P1_Affine_in_group K a)),
       ts_P1_Affine_is_inf = (\<lambda>a. Inr (P1_Affine_is_inf a)),
       ts_P1_Affine_is_equal = (\<lambda>a b. Inr (P1_Affine_is_equal a b)),
       ts_P1_Affine_core_verify = (\<lambda>a pk h msg DST aug.
         Inr (P1_Affine_core_verify K mem a pk h (bytes_of msg) (text_or_empty DST) (bytes_or_empty aug)))\<rparr>\<rparr>"

definition P1_impl :: "'gt Core \<Rightarrow> (P1, P1_Affine, SecretKey, Scalar) P1Constructor" where
  "P1_impl K =
    \<lparr>new_P1 = Inr P1_new, new_P1_sk = (\<lambda>sk. Inr (P1_of_sk K sk)), new_P1_bytes = P1_of_bytes K,
     new_P1_affine = (\<lambda>a. Inr (P1_of_affine a)), ts_P1_generator = Inr P1_generator,
     P1_prototype =
      \<lparr>ts_P1_dup = Inr, ts_P1_to_affine = (\<lambda>j. Inr (P1_to_affine j)),
       ts_P1_serialize = (\<lambda>j. Inr (P1_serialize j)), ts_P1_compress = (\<lambda>j. Inr (P1_compress j)),
       ts_P1_on_curve = (\<lambda>j. Inr (P1_on_curve j)), ts_P1_in_group = (\<lambda>j. Inr (P1_in_group K j)),
       ts_P1_is_inf = (\<lambda>j. Inr (P1_is_inf j)), ts_P1_is_equal = (\<lambda>j k. Inr (P1_is_equal j k)),
       ts_P1_aggregate = P1_aggregate K, ts_P1_sign_with = (\<lambda>j sk. Inr (P1_sign_with K j sk)),
       ts_P1_hash_to = (\<lambda>j msg DST aug.
         Inr (P1_hash_to K j (bytes_of msg) (text_or_empty DST) (bytes_or_empty aug))),
       ts_P1_encode_to = (\<lambda>j msg DST aug.
         Inr (P1_encode_to K j (bytes_of msg) (text_or_empty DST) (bytes_or_empty aug))),
       ts_P1_mult = P1_mult K, ts_P1_cneg = (\<lambda>j b. Inr (P1_cneg j b)), ts_P1_neg = (\<lambda>j. Inr (P1_neg j)),
       ts_P1_add = (\<lambda>j k. Inr (P1_add K j k)), ts_P1_add_affine = (\<lambda>j a. Inr (P1_add_affine K j a)),
       ts_P1_dbl = (\<lambda>j. Inr (P1_dbl K j))\<rparr>\<rparr>"

definition P2_Affine_impl :: "'gt Core \<Rightarrow> 'gt PAIRING \<Rightarrow> (P2_Affine, P2, P1_Affine) P2_AffineConstructor" where
  "P2_Affine_impl K mem =
    \<lparr>new_P2_Affine = Inr P2_Affine_new, new_P2_Affine_bytes = P2_Affine_of_bytes K,
     new_P2_Affine_jacobian = (\<lambda>j. Inr (P2_Affine_of_jacobian j)),
     P2_Affine_prototype =
      \<lparr>ts_P2_Affine_dup = Inr, ts_P2_Affine_to_jacobian = (\<lambda>a. Inr (P2_Affine_to_jacobian a)),
       ts_P2_Affine_serialize = (\<lambda>a. Inr (P2_Affine_serialize a)),
       ts_P2_Affine_compress = (\<lambda>a. Inr (P2_Affine_compress a)),
       ts_P2_Affine_on_curve = (\<lambda>a. Inr (P2_Affine_on_curve a)),
       ts_P2_Affine_in_group = (\<lambda>a. Inr (P2_Affine_in_group K a)),
       ts_P2_Affine_is_inf = (\<lambda>a. Inr (P2_Affine_is_inf a)),
       ts_P2_Affine_is_equal = (\<lambda>a b. Inr (P2_Affine_is_equal a b)),
       ts_P2_Affine_core_verify = (\<lambda>a pk h msg DST aug.
         Inr (P2_Affine_core_verify K mem a pk h (bytes_of msg) (text_or_empty DST) (bytes_or_empty aug)))\<rparr>\<rparr>"

definition P2_impl :: "'gt Core \<Rightarrow> (P2, P2_Affine, SecretKey, Scalar) P2Constructor" where
  "P2_impl K =
    \<lparr>new_P2 = Inr P2_new, new_P2_sk = (\<lambda>sk. Inr (P2_of_sk K sk)), new_P2_bytes = P2_of_bytes K,
     new_P2_affine = (\<lambda>a. Inr (P2_of_affine a)), ts_P2_generator = Inr P2_generator,
     P2_prototype =
      \<lparr>ts_P2_dup = Inr, ts_P2_to_affine = (\<lambda>j. Inr (P2_to_affine j)),
       ts_P2_serialize = (\<lambda>j. Inr (P2_serialize j)), ts_P2_compress = (\<lambda>j. Inr (P2_compress j)),
       ts_P2_on_curve = (\<lambda>j. Inr (P2_on_curve j)), ts_P2_in_group = (\<lambda>j. Inr (P2_in_group K j)),
       ts_P2_is_inf = (\<lambda>j. Inr (P2_is_inf j)), ts_P2_is_equal = (\<lambda>j k. Inr (P2_is_equal j k)),
       ts_P2_aggregate = P2_aggregate K, ts_P2_sign_with = (\<lambda>j sk. Inr (P2_sign_with K j sk)),
       ts_P2_hash_to = (\<lambda>j msg DST aug.
         Inr (P2_hash_to K j (bytes_of msg) (text_or_empty DST) (bytes_or_empty aug))),
       ts_P2_encode_to = (\<lambda>j msg DST aug.
         Inr (P2_encode_to K j (bytes_of msg) (text_or_empty DST) (bytes_or_empty aug))),
       ts_P2_mult = P2_mult K, ts_P2_cneg = (\<lambda>j b. Inr (P2_cneg j b)), ts_P2_neg = (\<lambda>j. Inr (P2_neg j)),
       ts_P2_add = (\<lambda>j k. Inr (P2_add K j k)), ts_P2_add_affine = (\<lambda>j a. Inr (P2_add_affine K j a)),
       ts_P2_dbl = (\<lambda>j. Inr (P2_dbl K j))\<rparr>\<rparr>"

text \<open>C++ has the constructor from two points for two affine or two Jacobian points only.\<close>

definition PT_of_points :: "'gt Core \<Rightarrow> P2_Affine + P2 \<Rightarrow> P1_Affine + P1 \<Rightarrow> 'gt PT js_result" where
  "PT_of_points K q p = (case (q, p) of
     (Inl a, Inl b) \<Rightarrow> Inr (PT_of_pair K a b)
   | (Inr j, Inr k) \<Rightarrow> Inr (PT_of_pair K (P2_Affine_of_jacobian j) (P1_Affine_of_jacobian k))
   | _ \<Rightarrow> Inl (Error ''Illegal arguments''))"

definition PT_impl :: "'gt Core \<Rightarrow> ('gt PT, P1_Affine, P1, P2_Affine, P2) PTConstructor" where
  "PT_impl K =
    \<lparr>new_PT_p1 = (\<lambda>p. Inr (PT_of_P1 K p)), new_PT_p2 = (\<lambda>q. Inr (PT_of_P2 K q)),
     new_PT_qp = PT_of_points K, new_PT_pq = (\<lambda>p q. PT_of_points K q p), ts_PT_one = Inr (PT_one K),
     PT_prototype =
      \<lparr>ts_PT_dup = Inr, ts_PT_is_one = (\<lambda>t. Inr (PT_is_one K t)), ts_PT_is_equal = (\<lambda>t u. Inr (PT_is_equal t u)),
       ts_PT_sqr = (\<lambda>t. Inr (PT_sqr K t)), ts_PT_mul = (\<lambda>t u. Inr (PT_mul K t u)),
       ts_PT_final_exp = (\<lambda>t. Inr (PT_final_exp K t)), ts_PT_in_group = (\<lambda>t. Inr (PT_in_group K t)),
       ts_PT_to_bendian = (\<lambda>t. Inr (PT_to_bendian K t))\<rparr>\<rparr>"

text \<open>The multiplier of an aggregation is a buffer or a \<^verbatim>\<open>BigInt\<close>; a scalar object matches nothing.\<close>

definition multiplier_bytes :: "Scalar scalar \<Rightarrow> bytes js_result" where
  "multiplier_bytes s = (case s of
     Scalar_object _ \<Rightarrow> Inl (Error ''expecting <Buffer> or <BigInt>'')
   | Scalar_bytes b \<Rightarrow> Inr b
   | Scalar_bigint i \<Rightarrow> bigint_bytes i)"

definition Pairing_impl :: "'gt Core \<Rightarrow> 'gt PAIRING \<Rightarrow> ('gt PAIRING, P1_Affine, P2_Affine, Scalar, 'gt PT) PairingConstructor" where
  "Pairing_impl K mem =
    \<lparr>new_Pairing = (\<lambda>h DST. Inr (Pairing_new mem h (utf8 DST))),
     Pairing_prototype =
      \<lparr>ts_Pairing_aggregate_g1 = (\<lambda>c pk sig msg aug.
         Inr (Pairing_aggregate_g1 K c pk sig (bytes_of msg) (bytes_or_empty aug))),
       ts_Pairing_aggregate_g2 = (\<lambda>c pk sig msg aug.
         Inr (Pairing_aggregate_g2 K c pk sig (bytes_of msg) (bytes_or_empty aug))),
       ts_Pairing_mul_n_aggregate_g1 = (\<lambda>c pk sig s msg aug. js_bind (multiplier_bytes s) (\<lambda>b.
         Inr (Pairing_mul_n_aggregate_g1 K c pk sig b (bytes_of msg) (bytes_or_empty aug)))),
       ts_Pairing_mul_n_aggregate_g2 = (\<lambda>c pk sig s msg aug. js_bind (multiplier_bytes s) (\<lambda>b.
         Inr (Pairing_mul_n_aggregate_g2 K c pk sig b (bytes_of msg) (bytes_or_empty aug)))),
       ts_Pairing_commit = (\<lambda>c. Inr (Pairing_commit K c)), ts_Pairing_merge = (\<lambda>c d. Inr (Pairing_merge K c d)),
       ts_Pairing_finalverify = (\<lambda>c sig. Inr (Pairing_finalverify K c sig)),
       ts_Pairing_raw_aggregate = (\<lambda>c q p. Inr (Pairing_raw_aggregate K c q p)),
       ts_Pairing_as_fp12 = (\<lambda>c. Inr (Pairing_as_fp12 K c))\<rparr>\<rparr>"

definition blst_impl :: "'gt Core \<Rightarrow> 'gt PAIRING \<Rightarrow>
    (SecretKey, Scalar, P1_Affine, P1, P2_Affine, P2, 'gt PT, 'gt PAIRING) Blst" where
  "blst_impl K mem =
    \<lparr>blst_SecretKey = SecretKey_impl K, blst_Scalar = Scalar_impl K, blst_P1_Affine = P1_Affine_impl K mem,
     blst_P2_Affine = P2_Affine_impl K mem, blst_P1 = P1_impl K, blst_P2 = P2_impl K, blst_PT = PT_impl K,
     blst_Pairing = Pairing_impl K mem, blst_G1 = Inr P1_generator, blst_G2 = Inr P2_generator\<rparr>"

end
