(* ===== verification/Runnable.thy ===== *)
theory Runnable
  imports BlstBinding
begin

text \<open>
  The three example programs of the bindings: blst/bindings/node.js/runnable.ts,
  blst/bindings/node.js/runnable.js and blst/bindings/emscripten/runnable.js. A script is a function
  on the console's lines that returns the lines printed so far and a value or an exception. The
  module loader is an argument, so that a script is a program over any module with the declared
  interface; \<open>blst_impl\<close> is the module that the SWIG interface builds for node.js.
\<close>

section \<open>Scripts\<close>

type_synonym console = "js_string list"
type_synonym 'a script = "console \<Rightarrow> console \<times> 'a js_result"

named_theorems execute_simps

definition return :: "'a \<Rightarrow> 'a script" where
  "return x = (\<lambda>c. (c, Inr x))"

definition raise :: "js_exn \<Rightarrow> 'a script" where
  "raise e = (\<lambda>c. (c, Inl e))"

definition andthen :: "'a script \<Rightarrow> ('a \<Rightarrow> 'b script) \<Rightarrow> 'b script" where
  "andthen m f = (\<lambda>c. case m c of (c', Inl e) \<Rightarrow> (c', Inl e) | (c', Inr x) \<Rightarrow> f x c')"

definition native :: "'a js_result \<Rightarrow> 'a script" where
  "native r = (case r of Inl e \<Rightarrow> raise e | Inr x \<Rightarrow> return x)"

definition console_log :: "js_string \<Rightarrow> unit script" where
  "console_log s = (\<lambda>c. (c @ [s], Inr ()))"

definition throw :: "js_string \<Rightarrow> 'a script" where
  "throw s = raise (Throw s)"

lemma andthen_simps [execute_simps]:
  "andthen (return x) f = f x" "andthen (raise e) f = raise e"
  "andthen (throw s) f = throw s"
  by (simp_all add: andthen_def return_def raise_def throw_def)

lemma native_simps [execute_simps]:
  "native (Inr x) = return x" "native (Inl e) = raise e"
  by (simp_all add: native_def)

lemma execute [execute_simps]:
  "return x c = (c, Inr x)" "raise e c = (c, Inl e)" "throw s c = (c, Inl (Throw s))"
  "console_log s c = (c @ [s], Inr ())" "andthen (console_log s) f c = f () (c @ [s])"
  by (simp_all add: return_def raise_def throw_def console_log_def andthen_def)

lemma andthen_assoc: "andthen (andthen m f) g = andthen m (\<lambda>x. andthen (f x) g)"
  by (rule ext) (simp add: andthen_def split: prod.splits sum.splits)

lemma andthen_if: "andthen (if b then m else n) f = (if b then andthen m f else andthen n f)"
  by simp

section \<open>runnable.ts\<close>

text \<open>
  The receiver: the function expression called with no arguments, over the constants of the
  enclosing module it uses.
\<close>

definition runnable_ts_receiver ::
    "('sk, 'sc, 'p1a, 'p1, 'p2a, 'p2, 'pt, 'pr) Blst \<Rightarrow> js_string \<Rightarrow> js_string \<Rightarrow> bytes \<Rightarrow> bytes \<Rightarrow> unit script" where
  "runnable_ts_receiver blst msg DST sig_for_wire pk_for_wire =
     andthen (native (new_P2_Affine_bytes (blst_P2_Affine blst) sig_for_wire)) (\<lambda>sig.
     andthen (native (new_P1_Affine_bytes (blst_P1_Affine blst) pk_for_wire)) (\<lambda>pk.
     andthen (native (ts_P1_Affine_in_group (P1_Affine_prototype (blst_P1_Affine blst)) pk)) (\<lambda>in_group.
     andthen (if \<not> in_group then throw (js ''disaster'') else return ()) (\<lambda>_.
     andthen (native (new_Pairing (blst_Pairing blst) True DST)) (\<lambda>ctx.
     andthen (native (ts_Pairing_aggregate_g1 (Pairing_prototype (blst_Pairing blst)) ctx pk sig (Text msg) (Some pk_for_wire))) (\<lambda>(ctx, _).
     andthen (native (ts_Pairing_commit (Pairing_prototype (blst_Pairing blst)) ctx)) (\<lambda>ctx.
     andthen (native (ts_Pairing_finalverify (Pairing_prototype (blst_Pairing blst)) ctx None)) (\<lambda>ok.
     andthen (if \<not> ok then throw (js ''disaster'') else return ()) (\<lambda>_.
     console_log (js ''OK''))))))))))"

definition runnable_ts ::
    "(js_string \<Rightarrow> ('sk, 'sc, 'p1a, 'p1, 'p2a, 'p2, 'pt, 'pr) Blst js_result) \<Rightarrow> unit script" where
  "runnable_ts require =
     andthen (console_log (js ''testing...'')) (\<lambda>_.
     andthen (native (require (js ''blst''))) (\<lambda>blst.
     let msg = js ''assertion''; DST = js ''MY-DST'' in
     andthen (native (new_SecretKey (blst_SecretKey blst))) (\<lambda>SK.
     andthen (native (ts_SecretKey_keygen (SecretKey_prototype (blst_SecretKey blst)) SK (Text (js_repeat (js ''*'') 32)) None)) (\<lambda>SK.
     andthen (native (new_P1_sk (blst_P1 blst) SK)) (\<lambda>pk.
     andthen (native (ts_P1_serialize (P1_prototype (blst_P1 blst)) pk)) (\<lambda>pk_for_wire.
     andthen (native (new_P2 (blst_P2 blst))) (\<lambda>sig.
     andthen (native (ts_P2_hash_to (P2_prototype (blst_P2 blst)) sig (Text msg) (Some DST) (Some pk_for_wire))) (\<lambda>sig.
     andthen (native (ts_P2_sign_with (P2_prototype (blst_P2 blst)) sig SK)) (\<lambda>sig.
     andthen (native (ts_P2_serialize (P2_prototype (blst_P2 blst)) sig)) (\<lambda>sig_for_wire.
     runnable_ts_receiver blst msg DST sig_for_wire pk_for_wire))))))))))"

section \<open>runnable.js\<close>

text \<open>
  The same program as one sequence of statements; the variables \<^verbatim>\<open>sig\<close> and \<^verbatim>\<open>pk\<close>
  are assigned again on the receiving side.
\<close>

definition runnable_js ::
    "(js_string \<Rightarrow> ('sk, 'sc, 'p1a, 'p1, 'p2a, 'p2, 'pt, 'pr) Blst js_result) \<Rightarrow> unit script" where
  "runnable_js require =
     andthen (console_log (js ''testing...'')) (\<lambda>_.
     andthen (native (require (js ''blst''))) (\<lambda>blst.
     let msg = js ''assertion''; DST = js ''MY-DST'' in
     andthen (native (new_SecretKey (blst_SecretKey blst))) (\<lambda>SK.
     andthen (native (ts_SecretKey_keygen (SecretKey_prototype (blst_SecretKey blst)) SK (Text (js_repeat (js ''*'') 32)) None)) (\<lambda>SK.
     andthen (native (new_P1_sk (blst_P1 blst) SK)) (\<lambda>pk.
     andthen (native (ts_P1_serialize (P1_prototype (blst_P1 blst)) pk)) (\<lambda>pk_for_wire.
     andthen (native (new_P2 (blst_P2 blst))) (\<lambda>sig.
     andthen (andthen (andthen
         (native (ts_P2_hash_to (P2_prototype (blst_P2 blst)) sig (Text msg) (Some DST) (Some pk_for_wire)))
         (\<lambda>sig. native (ts_P2_sign_with (P2_prototype (blst_P2 blst)) sig SK)))
         (\<lambda>sig. native (ts_P2_serialize (P2_prototype (blst_P2 blst)) sig))) (\<lambda>sig_for_wire.
     andthen (native (new_P2_Affine_bytes (blst_P2_Affine blst) sig_for_wire)) (\<lambda>sig.
     andthen (native (new_P1_Affine_bytes (blst_P1_Affine blst) pk_for_wire)) (\<lambda>pk.
     andthen (andthen (native (ts_P1_Affine_in_group (P1_Affine_prototype (blst_P1_Affine blst)) pk))
         (\<lambda>in_group. if \<not> in_group then throw (js ''disaster'') else return ())) (\<lambda>_.
     andthen (native (new_Pairing (blst_Pairing blst) True DST)) (\<lambda>ctx.
     andthen (native (ts_Pairing_aggregate_g1 (Pairing_prototype (blst_Pairing blst)) ctx pk sig (Text msg) (Some pk_for_wire))) (\<lambda>(ctx, _).
     andthen (native (ts_Pairing_commit (Pairing_prototype (blst_Pairing blst)) ctx)) (\<lambda>ctx.
     andthen (andthen (native (ts_Pairing_finalverify (Pairing_prototype (blst_Pairing blst)) ctx None))
         (\<lambda>ok. if \<not> ok then throw (js ''disaster'') else return ())) (\<lambda>_.
     console_log (js ''OK''))))))))))))))))"

section \<open>The emscripten program\<close>

text \<open>
  The script itself prints its first line, loads the module and stores a function in the module
  object, under the name \<^verbatim>\<open>onRuntimeInitialized\<close>: its result is that function. The runtime that
  emscripten generates calls the function when the WebAssembly code is ready; it is not part of the
  sources, so that when and how often it does is left open.
\<close>

definition onRuntimeInitialized ::
    "('sk, 'sc, 'p1a, 'p1, 'p2a, 'p2, 'pt, 'pr) Blst \<Rightarrow> unit script" where
  "onRuntimeInitialized blst =
     (let msg = js ''assertion''; DST = js ''MY-DST'' in
     andthen (native (new_SecretKey (blst_SecretKey blst))) (\<lambda>SK.
     andthen (native (ts_SecretKey_keygen (SecretKey_prototype (blst_SecretKey blst)) SK (Text (js_repeat (js ''*'') 32)) None)) (\<lambda>SK.
     andthen (native (new_P1_sk (blst_P1 blst) SK)) (\<lambda>pk.
     andthen (native (ts_P1_serialize (P1_prototype (blst_P1 blst)) pk)) (\<lambda>pk_for_wire.
     andthen (native (new_P2 (blst_P2 blst))) (\<lambda>sig.
     andthen (andthen (andthen
         (native (ts_P2_hash_to (P2_prototype (blst_P2 blst)) sig (Text msg) (Some DST) (Some pk_for_wire)))
         (\<lambda>sig. native (ts_P2_sign_with (P2_prototype (blst_P2 blst)) sig SK)))
         (\<lambda>sig. native (ts_P2_serialize (P2_prototype (blst_P2 blst)) sig))) (\<lambda>sig_for_wire.
     andthen (native (new_P2_Affine_bytes (blst_P2_Affine blst) sig_for_wire)) (\<lambda>sig.
     andthen (native (new_P1_Affine_bytes (blst_P1_Affine blst) pk_for_wire)) (\<lambda>pk.
     andthen (andthen (native (ts_P1_Affine_in_group (P1_Affine_prototype (blst_P1_Affine blst)) pk))
         (\<lambda>in_group. if \<not> in_group then throw (js ''disaster'') else return ())) (\<lambda>_.
     andthen (native (new_Pairing (blst_Pairing blst) True DST)) (\<lambda>ctx.
     andthen (native (ts_Pairing_aggregate_g1 (Pairing_prototype (blst_Pairing blst)) ctx pk sig (Text msg) (Some pk_for_wire))) (\<lambda>(ctx, _).
     andthen (native (ts_Pairing_commit (Pairing_prototype (blst_Pairing blst)) ctx)) (\<lambda>ctx.
     andthen (andthen (native (ts_Pairing_finalverify (Pairing_prototype (blst_Pairing blst)) ctx None))
         (\<lambda>ok. if \<not> ok then throw (js ''disaster'') else return ())) (\<lambda>_.
     console_log (js ''OK'')))))))))))))))"

definition runnable_em ::
    "(js_string \<Rightarrow> ('sk, 'sc, 'p1a, 'p1, 'p2a, 'p2, 'pt, 'pr) Blst js_result) \<Rightarrow> unit script script" where
  "runnable_em require =
     andthen (console_log (js ''testing...'')) (\<lambda>_.
     andthen (native (require (js ''blst''))) (\<lambda>blst.
     return (onRuntimeInitialized blst)))"

section \<open>The three programs do the same\<close>

lemma runnable_js_ts: "runnable_js require = runnable_ts require"
  by (simp add: runnable_js_def runnable_ts_def runnable_ts_receiver_def Let_def andthen_assoc)

lemma runnable_ts_split:
  "runnable_ts require c = (case require (js ''blst'') of
     Inl e \<Rightarrow> (c @ [js ''testing...''], Inl e)
   | Inr blst \<Rightarrow> onRuntimeInitialized blst (c @ [js ''testing...'']))"
  by (cases "require (js ''blst'')")
    (simp_all add: runnable_ts_def runnable_ts_receiver_def onRuntimeInitialized_def Let_def andthen_assoc execute_simps)

lemma runnable_em_split:
  "runnable_em require c = (case require (js ''blst'') of
     Inl e \<Rightarrow> (c @ [js ''testing...''], Inl e)
   | Inr blst \<Rightarrow> (c @ [js ''testing...''], Inr (onRuntimeInitialized blst)))"
  by (cases "require (js ''blst'')") (simp_all add: runnable_em_def execute_simps)

text \<open>
  C3. The three example programs are one program: for every module, and every way its calls can
  fail, the TypeScript and the JavaScript version print the same lines and end the same way, and so
  does the emscripten version when its script is followed by one call of the function it has stored.
\<close>

theorem examples_equivalent:
  "runnable_js require = runnable_ts require \<and>
   andthen (runnable_em require) (\<lambda>f. f) = runnable_ts require"
proof (intro conjI)
  show "runnable_js require = runnable_ts require" by (rule runnable_js_ts)
  have "andthen (runnable_em require) (\<lambda>f. f) c = runnable_ts require c" for c
    by (simp add: andthen_def runnable_ts_split runnable_em_split split: sum.splits)
  then show "andthen (runnable_em require) (\<lambda>f. f) = runnable_ts require" by (rule ext)
qed

section \<open>The receiver\<close>

lemma impl_sel [simp]:
  "blst_SecretKey (blst_impl K mem) = SecretKey_impl K" "blst_P1 (blst_impl K mem) = P1_impl K"
  "blst_P2 (blst_impl K mem) = P2_impl K" "blst_P1_Affine (blst_impl K mem) = P1_Affine_impl K mem"
  "blst_P2_Affine (blst_impl K mem) = P2_Affine_impl K mem" "blst_Pairing (blst_impl K mem) = Pairing_impl K mem"
  by (simp_all add: blst_impl_def)

lemma impl_methods [simp]:
  "new_P2_Affine_bytes (P2_Affine_impl K mem) = P2_Affine_of_bytes K"
  "new_P1_Affine_bytes (P1_Affine_impl K mem) = P1_Affine_of_bytes K"
  "ts_P1_Affine_in_group (P1_Affine_prototype (P1_Affine_impl K mem)) a = Inr (P1_Affine_in_group K a)"
  "new_Pairing (Pairing_impl K mem) h DST = Inr (Pairing_new mem h (utf8 DST))"
  "ts_Pairing_aggregate_g1 (Pairing_prototype (Pairing_impl K mem)) c pk sig msg aug =
     Inr (Pairing_aggregate_g1 K c pk sig (bytes_of msg) (bytes_or_empty aug))"
  "ts_Pairing_commit (Pairing_prototype (Pairing_impl K mem)) c = Inr (Pairing_commit K c)"
  "ts_Pairing_finalverify (Pairing_prototype (Pairing_impl K mem)) c s = Inr (Pairing_finalverify K c s)"
  "new_SecretKey (SecretKey_impl K) = Inr SecretKey_new"
  "ts_SecretKey_keygen (SecretKey_prototype (SecretKey_impl K)) sk ikm info =
     SecretKey_keygen K sk (bytes_of ikm) (text_or_empty info)"
  "new_P1_sk (P1_impl K) sk = Inr (P1_of_sk K sk)" "ts_P1_serialize (P1_prototype (P1_impl K)) j = Inr (P1_serialize j)"
  "new_P2 (P2_impl K) = Inr P2_new"
  "ts_P2_hash_to (P2_prototype (P2_impl K)) q msg tag aug =
     Inr (P2_hash_to K q (bytes_of msg) (text_or_empty tag) (bytes_or_empty aug))"
  "ts_P2_sign_with (P2_prototype (P2_impl K)) q sk = Inr (P2_sign_with K q sk)"
  "ts_P2_serialize (P2_prototype (P2_impl K)) q = Inr (P2_serialize q)"
  by (simp_all add: P1_Affine_impl_def P2_Affine_impl_def Pairing_impl_def SecretKey_impl_def P1_impl_def P2_impl_def)

definition receiver_accepts :: "'gt Core \<Rightarrow> bytes \<Rightarrow> bytes \<Rightarrow> bytes \<Rightarrow> E1 \<Rightarrow> E2 \<Rightarrow> bool" where
  "receiver_accepts K msg DST aug pk sig \<longleftrightarrow>
     E1_in_G1 K pk \<and> pk \<noteq> E1_inf \<and> (sig = E2_inf \<or> E2_in_G2 K sig) \<and>
     pair_value K (Hash_to_G2 K msg DST aug) pk = pair_value K sig BLS12_381_G1"

lemma receiver_value:
  assumes "core_laws K" and "fresh_memory mem"
  shows "runnable_ts_receiver (blst_impl K mem) msg DST sig_for_wire pk_for_wire c =
    (case (point2_of_bytes K sig_for_wire, point1_of_bytes K pk_for_wire) of
       (Inl e, _) \<Rightarrow> (c, Inl e)
     | (Inr sig, Inl e) \<Rightarrow> (c, Inl e)
     | (Inr sig, Inr pk) \<Rightarrow>
         if receiver_accepts K (utf8 msg) (utf8 DST) pk_for_wire pk sig then (c @ [js ''OK''], Inr ())
         else (c, Inl (Throw (js ''disaster''))))"
proof -
  have verify: "Pairing_finalverify K (Pairing_commit K (fst (Pairing_aggregate_g1 K (Pairing_new mem True d)
      (P1_Affine pk) (P2_Affine sig) m a))) None \<longleftrightarrow> receiver_accepts K m d a pk sig" if "E1_in_G1 K pk" for pk sig m d a
    using that context_core_verify [of K "P1_Affine pk" mem True d "P2_Affine sig" m a]
      core_verify_value [OF assms, of sig pk True m d a]
    by (auto simp: receiver_accepts_def)
  have out: "\<not> receiver_accepts K m d a pk sig" if "\<not> E1_in_G1 K pk" for pk sig m d a
    using that by (simp add: receiver_accepts_def)
  show ?thesis
    using verify out
    by (auto simp: runnable_ts_receiver_def P1_Affine_of_bytes_def P2_Affine_of_bytes_def P1_Affine_in_group_def
        bytes_of_def bytes_or_empty_def execute_simps split_beta js_bind_def split: sum.splits)
qed

text \<open>
  C2. The receiving side decides. For whatever bytes arrive as signature and public key: if one does
  not decode, its exception ends the program; if the key is a finite point of the subgroup, the
  signature one of the subgroup and the pairing equation holds for the message, the program prints
  OK; in every other case it throws.
\<close>

theorem receiver_decides:
  assumes "core_laws K" and "fresh_memory mem"
  shows "runnable_ts_receiver (blst_impl K mem) msg DST sig_for_wire pk_for_wire c =
    (case (point2_of_bytes K sig_for_wire, point1_of_bytes K pk_for_wire) of
       (Inl e, _) \<Rightarrow> (c, Inl e)
     | (Inr sig, Inl e) \<Rightarrow> (c, Inl e)
     | (Inr sig, Inr pk) \<Rightarrow>
         if receiver_accepts K (utf8 msg) (utf8 DST) pk_for_wire pk sig then (c @ [js ''OK''], Inr ())
         else (c, Inl (Throw (js ''disaster''))))"
  by (rule receiver_value [OF assms])

theorem receiver_decides_witness:
  "runnable_ts_receiver (blst_impl sample_core sample_memory) (js ''x'') (js ''y'')
     (P2_serialize P2_generator) (P1_serialize (P1 E1_inf)) [] = ([], Inl (Throw (js ''disaster'')))"
proof -
  have "point2_of_bytes sample_core (P2_serialize P2_generator) = Inr BLS12_381_G2"
    "point1_of_bytes sample_core (P1_serialize (P1 E1_inf)) = Inr E1_inf"
    using wire_back_2(1) [OF G2_valid(1), of sample_core] wire_back_1(1) [OF inf_valid(1), of sample_core]
    by (simp_all add: P2_serialize_def P1_serialize_def P2_generator_def)
  then show ?thesis
    using receiver_decides [OF sample_core_laws sample_memory_fresh, of "js ''x''" "js ''y''"
        "P2_serialize P2_generator" "P1_serialize (P1 E1_inf)" "[]"]
    by (simp add: receiver_accepts_def)
qed

section \<open>The whole program\<close>

text \<open>
  The key the program generates. Key generation returns unless every candidate for the key is zero;
  the public key must not be the point at infinity.
\<close>

definition example_seed :: bytes where
  "example_seed = utf8 (js_repeat (js ''*'') 32)"

definition example_key :: "'gt Core \<Rightarrow> SecretKey" where
  "example_key K = (case SecretKey_keygen K SecretKey_new example_seed [] of Inr sk \<Rightarrow> sk | Inl _ \<Rightarrow> SecretKey_new)"

definition example_pk :: "'gt Core \<Rightarrow> bytes" where
  "example_pk K = P1_serialize (P1_of_sk K (example_key K))"

definition example_ok :: "'gt Core \<Rightarrow> bool" where
  "example_ok K \<longleftrightarrow> SecretKey_keygen K SecretKey_new example_seed [] = Inr (example_key K) \<and>
     E1_mult K BLS12_381_G1 (sk_key (example_key K)) \<noteq> E1_inf"

lemma SecretKey_keygen_lt: "SecretKey_keygen K sk IKM info = Inr sk' \<Longrightarrow> sk_key sk' < BLS12_381_r"
  by (auto simp: SecretKey_keygen_def returned_key_def blst_keygen_def dest: keygen_lt split: option.splits)

lemma sender_and_receiver:
  assumes "core_laws K" and "fresh_memory mem" and "example_ok K"
  shows "onRuntimeInitialized (blst_impl K mem) c = (c @ [js ''OK''], Inr ())"
proof -
  let ?n = "sk_key (example_key K)" and ?m = "utf8 (js ''assertion'')" and ?d = "utf8 (js ''MY-DST'')"
  let ?H = "Hash_to_G2 K ?m ?d (example_pk K)"
  let ?pk = "E1_mult K BLS12_381_G1 ?n" and ?sig = "E2_mult K ?H ?n"
  have laws: "group1_laws K" "group2_laws K" using assms(1) by (simp_all add: core_laws_def)
  have gen: "SecretKey_keygen K SecretKey_new (utf8 (js_repeat (js ''*'') 32)) [] = Inr (example_key K)"
    using assms(3) by (simp add: example_ok_def example_seed_def)
  have n: "?n < BLS12_381_r" "?pk \<noteq> E1_inf" using assms(3) SecretKey_keygen_lt [OF gen] by (simp_all add: example_ok_def)
  have H: "E2_in_G2 K ?H" and G: "E1_in_G1 K BLS12_381_G1" by (rule group2(10) [OF laws(2)], rule group1(2) [OF laws(1)])
  have mult: "E1_mult_glv K BLS12_381_G1 ?n = ?pk" "E2_mult_gls K ?H ?n = ?sig"
    by (rule group1(9) [OF laws(1) G n(1)], rule group2(9) [OF laws(2) H n(1)])
  have in_group: "E1_in_G1 K ?pk" "E2_in_G2 K ?sig" using mult_in_group laws G H by blast+
  have pk: "P1_serialize (P1_of_sk K (example_key K)) = blst_p1_affine_serialize ?pk" "example_pk K = blst_p1_affine_serialize ?pk"
    by (simp_all add: P1_serialize_def P1_of_sk_def mult example_pk_def)
  have wire: "point1_of_bytes K (example_pk K) = Inr ?pk" "point2_of_bytes K (blst_p2_affine_serialize ?sig) = Inr ?sig"
    using wire_back_1(1) wire_back_2(1) group1(3) [OF laws(1) in_group(1)] group2(3) [OF laws(2) in_group(2)] pk(2) by metis+
  have acc: "receiver_accepts K ?m ?d (example_pk K) ?pk ?sig"
    using in_group n(2) pair_value_mult [OF assms(1) H G, of ?n] by (simp add: receiver_accepts_def)
  have "onRuntimeInitialized (blst_impl K mem) c =
      runnable_ts_receiver (blst_impl K mem) (js ''assertion'') (js ''MY-DST'') (blst_p2_affine_serialize ?sig) (example_pk K) c"
    by (simp add: onRuntimeInitialized_def runnable_ts_receiver_def Let_def andthen_assoc andthen_simps native_simps bytes_of_def
        text_or_empty_def bytes_or_empty_def P2_serialize_def P2_sign_with_def P2_hash_to_def mult gen
        flip: example_pk_def)
  then show ?thesis using receiver_value [OF assms(1,2)] wire acc by simp
qed

text \<open>
  C1. The example works: with a module that keeps its promises, whatever was in the memory of the
  context, the program generates a key, signs, sends both over the wire, verifies, and prints the
  line before and the line after, with no exception.
\<close>

theorem runnable_prints_OK:
  assumes "core_laws K" and "fresh_memory mem" and "example_ok K" and "require (js ''blst'') = Inr (blst_impl K mem)"
  shows "runnable_ts require [] = ([js ''testing...'', js ''OK''], Inr ()) \<and>
    runnable_js require [] = ([js ''testing...'', js ''OK''], Inr ())"
  using sender_and_receiver [OF assms(1-3)] assms(4) by (simp add: runnable_js_ts runnable_ts_split)

lemma sample_blocks: "0 < n \<Longrightarrow> sha256_blocks sample_compression v d n = [0, 0, 0, 1, 0, 0, 0, 0]"
proof (induction n arbitrary: v d)
  case (Suc n)
  have one: "sample_compression v d = [0, 0, 0, 1, 0, 0, 0, 0]" for v d by (simp add: sample_compression_def)
  show ?case
  proof (cases "n = 0")
    case False
    then show ?thesis unfolding sha256_blocks.simps using Suc.IH by blast
  qed (simp add: one)
qed simp

lemma padded_nonempty: "0 < length (m @ sha_pad (length m)) div 64"
proof -
  have grow: "a \<le> n \<Longrightarrow> 64 \<le> n + (if a \<le> 55 then 64 - a else 128 - a)" for a n :: nat by auto
  have "64 \<le> length (m @ sha_pad (length m))"
    unfolding length_append length_sha_pad by (rule grow [OF mod_less_eq_dividend])
  then show ?thesis by (simp add: div_greater_zero_iff)
qed

lemma sample_digest: "sha256_spec sample_compression m = replicate 15 0 @ 1 # replicate 16 0"
proof -
  have "sha256_spec sample_compression m = sha256_emit [0, 0, 0, 1, 0, 0, 0, 0]"
    unfolding sha256_spec_def Let_def sample_blocks [OF padded_nonempty] ..
  also have "\<dots> = replicate 15 0 @ 1 # replicate 16 0" by code_simp
  finally show ?thesis .
qed

definition sample_sk :: nat where
  "sample_sk = (2 ^ 256 + 1) mod BLS12_381_r"

lemma sample_candidate: "keygen_candidate sample_compression salt IKM info = sample_sk"
proof -
  let ?D = "replicate 15 0 @ 1 # replicate 16 0 :: bytes"
  have T: "hkdf_T sample_compression PRK i (Suc n) = ?D" for PRK i n by (simp only: hkdf_T.simps hmac_spec_def sample_digest)
  have "[1..<Suc ((48 + 31) div 32)] = [Suc 0, Suc (Suc 0)]" by (simp add: upt_rec)
  then have "hkdf_expand_spec sample_compression PRK i 48 = take 48 (?D @ ?D)" for PRK i
    by (simp only: hkdf_expand_spec_def list.map T concat.simps append_Nil2)
  moreover have "take 48 (?D @ ?D) = ?D @ replicate 15 0 @ [1]" by code_simp
  moreover have "be_dec (replicate n 0) = 0" for n by (induction n) (simp_all add: be_dec_Cons, simp add: be_dec_def)
  ultimately have "be_dec (hkdf_expand_spec sample_compression PRK i 48) = 2 ^ 256 + 1" for PRK i
    by (simp add: be_dec_append be_dec_Cons) (simp add: be_dec_def)
  then show ?thesis by (simp only: keygen_candidate_def sample_sk_def)
qed

lemma sample_key_odd: "odd sample_sk"
  by (simp add: sample_sk_def BLS12_381_r_def)

lemma sample_compression_function: "compression_function sample_compression"
  by unfold_locales (simp add: sample_compression_def)

lemma sample_keygen:
  assumes "32 \<le> length IKM"
  shows "blst_keygen sample_compression mem IKM (Some []) = Some sample_sk"
proof -
  obtain ctx where run: "blst_keygen sample_compression mem IKM (Some []) =
      keygen_loop sample_compression ctx (sha256_spec sample_compression keygen_salt) IKM [] 4"
    using blst_keygen_long [OF assms, of sample_compression mem "Some []"] by auto
  have "sample_sk \<noteq> 0" using sample_key_odd by (metis even_zero)
  then have "keygen_loop sample_compression ctx salt IKM [] 4 = Some sample_sk" for ctx salt
    using compression_function.keygen_loop_first [OF sample_compression_function, where n = 0 and version = 4 and info = "[]"]
    unfolding sample_candidate by simp
  then show ?thesis by (simp only: run)
qed

lemma length_example_seed: "length example_seed = 32"
proof -
  have "js_repeat (js [x]) n = js (replicate n x)" for x n
    by (induction n) (simp_all add: js_repeat_def js_def)
  then show ?thesis by (simp add: example_seed_def utf8_ascii)
qed

lemma sample_example_ok: "example_ok sample_core"
proof -
  have sel: "sha256_block_data_order sample_core = sample_compression" by (simp add: sample_core_def)
  have key: "SecretKey_keygen sample_core SecretKey_new example_seed [] = Inr (SecretKey sample_sk)"
    unfolding SecretKey_keygen_def sel by (simp only: sample_keygen length_example_seed order_refl returned_key_def option.case)
  have odd: "odd (sk_key (SecretKey sample_sk))" unfolding SecretKey.sel by (rule sample_key_odd)
  have mult: "E1_mult sample_core BLS12_381_G1 n \<noteq> E1_inf" if "odd n" for n using that by (simp add: sample_core_def)
  show ?thesis unfolding example_ok_def example_key_def key sum.case using mult [OF odd] by simp
qed

theorem runnable_prints_OK_witness:
  "runnable_js (\<lambda>_. Inr (blst_impl sample_core sample_memory)) [] = ([js ''testing...'', js ''OK''], Inr ())"
  using runnable_prints_OK [OF sample_core_laws sample_memory_fresh sample_example_ok,
      of "\<lambda>_. Inr (blst_impl sample_core sample_memory)"] by simp

end
