(* ===== verification/Spec2Isabelle.thy ===== *)
theory Spec2Isabelle
  imports Ledger HeartbeatNet Runnable
begin

text \<open>
  Verification of the parts of the WATTx node that are its own, and of the BLS signature library it
  ships with the JavaScript bindings that use it. Paths below are relative to src/src.

  \<^bold>\<open>The program.\<close> Two groups of components are modelled.

  \<^item> The BLS12-381 signature library blst and its bindings. The example programs
    (blst/bindings/node.js/runnable.ts, runnable.js, blst/bindings/emscripten/runnable.js) sign a message,
    send key and signature as bytes, and verify on the receiving side. They call the interfaces declared in
    blst/bindings/node.js/blst.hpp.ts, which SWIG implements over the C++ classes of
    blst/bindings/blst.hpp, which call the C library in blst/src.
  \<^item> The staking components of the node: validators register and update their entries
    (validators/validatordb.cpp), coins are delegated to them (validators/delegation.cpp), validators
    report that they are alive and are scored (trust/trustscore.cpp), and the messages for it travel
    between nodes (trust/heartbeat_net.cpp, and four handlers in net_processing.cpp).

  \<^bold>\<open>Theories and sources.\<close>

  \<^item> Prelude: C++ integers of 32 and 64 bits, ordered maps, the non-recursive mutex of sync.h, and
    secondary indexes. Locales: \<open>ordered_store\<close>, \<open>mutex\<close>, \<open>outpoint_index\<close>.
  \<^item> Serial: serialize.h. Every writer and reader pair is an interpretation of the locale
    \<open>codec\<close>. Signing: hashes and signatures, with the locale \<open>signed_message\<close>.
    Params: consensus/params.h, kernel/chainparams.cpp and the subsidy of validation.cpp.
  \<^item> ValidatorDB: validators/validatordb.cpp. DelegationDB: validators/delegation.cpp. The state of a
    database is the record of its fields, an operation a function of the same name; the pair of both
    databases is the state where one calls the other. Ledger relates the two.
  \<^item> NetAddress: netaddress.cpp. TrustScore: trust/trustscore.cpp. HeartbeatNet: trust/heartbeat_net.cpp,
    the handlers in net_processing.cpp, and \<^verbatim>\<open>CConnman::AddNode\<close> of net.cpp.
  \<^item> BlstTypes: values exchanged with JavaScript, and hexadecimal text (blst/src/bytes.h). Sha256:
    blst/src/sha256.h and the portable compression in blst/src/no_asm.h. BlstScalar: blst/src/no_asm.h,
    blst/src/exports.c. BlstKeygen: blst/src/keygen.c. BlstHashToField: blst/src/hash_to_field.c. BlstCurve:
    blst/src/e1.c and e2.c. BlstPairing: blst/src/aggregate.c and the entry of blst/src/pairing.c. The
    classes of blst.hpp are with the C code they call.
  \<^item> BlstBinding: the declarations of blst.hpp.ts as records of functions, and the module built by
    blst/bindings/blst.swg as an instance of them. Runnable: the three example programs.

  \<^bold>\<open>Conventions.\<close> A value \<^const>\<open>None\<close> of an operation is a call that does not return: a lock on
  a mutex the thread already holds, a division by zero, a loop that does not end. An exception is a value
  of a sum type. Memory that was not written is an argument. An operation of another thread runs
  before or after a locked body, and a call that never returns keeps the mutex it took. Signed overflow,
  undefined in C++, makes the reward split of an entry \<^const>\<open>None\<close>; elsewhere it wraps, and the theorems
  about amounts and totals are stated for the range in which it does not occur.

  \<^bold>\<open>What is shown for blst.\<close>

  \<^item> With the module built by SWIG for node.js, the example programs print their lines and end if the
    curve arithmetic keeps its documented laws and the example's key is generated and not degenerate. For
    every module the three versions are one program; of the emscripten version these are the script and
    the function it stores, while the runtime that calls the function is generated and not modelled. For
    arbitrary received bytes the receiver decides exactly by decoding, group membership and the pairing equation.
  \<^item> The batching context refines its specification, a list of key and message pairs and a sum of
    signatures, over any sequence of calls, for keys in either group; contexts merge like lists; the one-call
    verification agrees with it; no result of a program of calls and merges depends on memory that was not
    written, except \<^verbatim>\<open>as_fp12\<close> of a context that accumulated nothing.
  \<^item> SHA-256 over any division into calls equals the standard's function. HMAC, HKDF, the child key
    derivation and the expansion of messages of up to 255 digests equal the functions of the RFCs. Hashing to a field gives
    the residues RFC 9380 names. Key generation returns exactly if some candidate of its sequence is
    not zero, with the first one.
  \<^item> Points survive their wire formats, but for the points of E1 with a zero coordinate, which the decoder
    refuses; decoded points are on the curve; scalars are the residues of the numbers they are given as;
    hexadecimal text reads back in the byte order of the C code.

  \<^bold>\<open>What is shown for the node.\<close>

  \<^item> Over every sequence of operations other than reading a saved file, both databases keep their entries
    under their ids and their outpoint indexes sound, and the delegation database keeps its lists by
    delegator and by validator exact, so that its queries are. Stored states read back; the height is
    not stored.
  \<^item> The recorded totals cover the bonded delegations, and agree with them while undelegations are whole
    and nobody sets a total directly.
  \<^item> Reward shares add up to the reward within a satoshi where no product leaves 64 bits. On the main
    network one does for every validator with a delegation in the first four halving periods. The
    distribution of a block reward never returns; its loop credits exact parts rounded down.
  \<^item> Requests are accepted exactly on the conditions the code checks; an update needs a signature under the
    key stored in the entry; a claim pays once; delegations move only along their life cycle.
  \<^item> A node keeps its invariant over arbitrary messages and local calls, the heartbeat that blocks its
    manager for ever included, and processes new blocks exactly while it is not blocked. Processing of a
    heartbeat is determined on every branch; a heartbeat is processed at most once until its hash is cleaned
    up or the manager restarted. A registration reaches peers with the values that were signed. A list of
    validators reaches a peer.

  \<^bold>\<open>Interfaces.\<close> Beside those above: \<open>streaming\<close>, the contract of a hash that is fed in pieces, of
  which SHA-256 is an interpretation and HMAC inherits; \<open>compression_function\<close> and
  \<open>zpad_compression\<close>, what the derivations and the expansion need of the compression of a block,
  interpreted by the portable one; \<open>montgomery\<close>, interpreted for both moduli; \<open>aggregation\<close>,
  interpreted for keys in either group.

  \<^bold>\<open>Bounds and termination.\<close> No model has fuel. Loops are structural recursion or have a
  termination proof; the retry loop of the key generation is a partial function, and that it returns is
  proved from a candidate that is not zero. The queue of a context has eight slots as in the C code. The
  limit of stored heartbeats is the constant of the source. Lengths that are serialised are bounded by the
  limit of serialize.h.

  \<^bold>\<open>Parameters.\<close> The group law, square roots, scalar multiplication, subgroup tests, the maps from
  field elements to the curve, the inverse of a scalar and the arithmetic of the target field are fields of
  the record \<open>Core\<close>; their laws are hypotheses of the theorems that need them. The signature scheme of
  the node and its hash (libsecp256k1), the text of onion and I2P names, and the resolver of the operating
  system are parameters too.

  \<^bold>\<open>Not modelled.\<close> The formulas of the curve and of the tower of fields (blst/src/ec_ops.h,
  map_to_g1.c, map_to_g2.c, fp12_tower.c): their correctness is the group law of elliptic curves, which the
  libraries at hand do not have. The assembly of blst: the portable C is modelled in its place. The inner carry
  chains of the Montgomery routines: a vector of limbs is its number. The bindings for other languages:
  other front ends to the same functions. The inherited node outside the named functions, the wallet, the
  remote procedure calls and the user interface: they do not take part in the components above. Log
  output, sockets, timers and the scheduling of threads: input and output only.
\<close>

end
